(* ===== verification/Prelude.thy ===== *)
theory Prelude
  imports Main "HOL-Library.Word"
begin

text \<open>
  What the components share: the C integer types of \<open>inc/defines.h\<close> as words, the flat
  byte memory of a 32-bit address space with the little-endian accesses behind the macros
  \<open>p8\<close>, \<open>p16\<close>, \<open>p32\<close>, the block copies \<open>memcpy\<close> and \<open>zeromem\<close>, the interlocked
  operations, and the way a function of the driver can fail to return normally.
  The driver is the 32-bit x86 build: pointers and \<open>unsigned long\<close> are 32 bits wide.
\<close>

unbundle bit_operations_syntax

named_theorems mem_simps \<open>reads after writes, footprints of writes\<close>

section \<open>Integers and addresses\<close>

type_synonym u8 = "8 word"
type_synonym u16 = "16 word"
type_synonym u32 = "32 word"
type_synonym u64 = "64 word"
type_synonym addr = "32 word"
type_synonym mem = "addr \<Rightarrow> u8"

abbreviation (input) NULL :: addr where
  "NULL \<equiv> 0"

text \<open>\<open>addof(a,o)\<close> adds a byte offset to a pointer.\<close>

definition addof :: "addr \<Rightarrow> u32 \<Rightarrow> addr" where
  "addof a off = a + off"

lemma unat_add_small: "unat a + unat b < 2 ^ 32 \<Longrightarrow> unat (a + b) = unat a + unat b" for a b :: u32
  by (rule unat_add_lem [THEN iffD1]) simp

text \<open>
  An address is within \<open>n\<close> bytes from \<open>a\<close>, counting upwards and wrapping at the top of the
  address space as pointer arithmetic does.
\<close>

definition in_range :: "addr \<Rightarrow> nat \<Rightarrow> addr \<Rightarrow> bool" where
  "in_range a n x \<longleftrightarrow> unat (x - a) < n"

lemma in_range_self [simp]: "in_range a n a \<longleftrightarrow> 0 < n"
  by (simp add: in_range_def)

lemma in_range_mono: "in_range a n x \<Longrightarrow> n \<le> k \<Longrightarrow> in_range a k x"
  by (simp add: in_range_def)

lemma in_range_add:
  "k < n \<Longrightarrow> n \<le> 2 ^ 32 \<Longrightarrow> in_range a n (a + word_of_nat k)"
  by (simp add: in_range_def unat_of_nat take_bit_eq_mod)

lemma in_rangeE:
  assumes "in_range a n x"
  obtains k where "k < n" and "x = a + word_of_nat k"
proof
  show "unat (x - a) < n" using assms by (simp add: in_range_def)
  show "x = a + word_of_nat (unat (x - a))" by simp
qed

text \<open>Blocks inside a block, and consecutive blocks.\<close>

lemma in_range_sub:
  assumes "in_range (a + word_of_nat i) n x" and "i + n \<le> N" and "N \<le> 2 ^ 32"
  shows "in_range a N x"
proof -
  obtain j where "j < n" and "x = a + word_of_nat i + word_of_nat j"
    using assms(1) by (rule in_rangeE)
  then have "x = a + word_of_nat (i + j)" and "i + j < N" using assms(2) by (auto simp: add.assoc)
  then show ?thesis using assms(3) by (simp add: in_range_add del: of_nat_add)
qed

lemma in_range_apart:
  assumes "in_range (a + word_of_nat i) n x" and "in_range (a + word_of_nat j) p x"
    and "i + n \<le> j" and "j + p \<le> 2 ^ 32"
  shows False
proof -
  obtain u where u: "u < n" "x = a + word_of_nat i + word_of_nat u"
    using assms(1) by (rule in_rangeE)
  obtain v where v: "v < p" "x = a + word_of_nat j + word_of_nat v"
    using assms(2) by (rule in_rangeE)
  have "(word_of_nat (i + u) :: u32) = word_of_nat (j + v)" using u v by (simp add: add.assoc)
  then have "unat (word_of_nat (i + u) :: u32) = unat (word_of_nat (j + v) :: u32)" by simp
  then show False using u v assms by (simp add: unat_of_nat take_bit_nat_eq_self del: of_nat_add)
qed

lemma unat_ucast8 [simp]: "unat (ucast b :: u32) = unat b" for b :: u8
proof -
  have "unat b < 2 ^ 8" using unsigned_less [of b] by simp
  then show ?thesis by (simp add: unsigned_ucast_eq take_bit_nat_eq_self)
qed

lemma ucast8_inj [simp]: "(ucast a :: u32) = ucast b \<longleftrightarrow> a = b" for a b :: u8
  by (metis unat_ucast8 word_unat_eq_iff)

section \<open>Little-endian memory\<close>

definition byte_of :: "nat \<Rightarrow> 'a::len word \<Rightarrow> u8" where
  "byte_of i v = ucast (drop_bit (8 * i) v)"

text \<open>\<open>p16(x)[0]\<close> and \<open>p32(x)[0]\<close> as values, and as the left side of an assignment.\<close>

definition rd16 :: "mem \<Rightarrow> addr \<Rightarrow> u16" where
  "rd16 m a = ucast (m a) OR push_bit 8 (ucast (m (a + 1)))"

definition rd32 :: "mem \<Rightarrow> addr \<Rightarrow> u32" where
  "rd32 m a = ucast (m a) OR push_bit 8 (ucast (m (a + 1)))
     OR push_bit 16 (ucast (m (a + 2))) OR push_bit 24 (ucast (m (a + 3)))"

definition wr8 :: "mem \<Rightarrow> addr \<Rightarrow> u8 \<Rightarrow> mem" where
  "wr8 m a v = m(a := v)"

definition wr16 :: "mem \<Rightarrow> addr \<Rightarrow> u16 \<Rightarrow> mem" where
  "wr16 m a v = m(a := byte_of 0 v, a + 1 := byte_of 1 v)"

definition wr32 :: "mem \<Rightarrow> addr \<Rightarrow> u32 \<Rightarrow> mem" where
  "wr32 m a v = m(a := byte_of 0 v, a + 1 := byte_of 1 v,
     a + 2 := byte_of 2 v, a + 3 := byte_of 3 v)"

lemma word_bytes16:
  "(ucast (byte_of 0 v) :: u16) OR push_bit 8 (ucast (byte_of 1 v)) = v"
  by (rule bit_word_eqI) (auto simp: byte_of_def bit_simps)

lemma word_bytes32:
  "(ucast (byte_of 0 v) :: u32) OR push_bit 8 (ucast (byte_of 1 v))
     OR push_bit 16 (ucast (byte_of 2 v)) OR push_bit 24 (ucast (byte_of 3 v)) = v"
proof (rule bit_word_eqI)
  fix n assume "n < LENGTH(32)"
  then consider "n < 8" | "8 \<le> n" "n < 16" | "16 \<le> n" "n < 24" | "24 \<le> n" "n < 32"
    by fastforce
  then show "bit ((ucast (byte_of 0 v) :: u32) OR push_bit 8 (ucast (byte_of 1 v))
     OR push_bit 16 (ucast (byte_of 2 v)) OR push_bit 24 (ucast (byte_of 3 v))) n = bit v n"
    by cases (auto simp: byte_of_def bit_simps)
qed

lemma rd16_wr16 [simp, mem_simps]: "rd16 (wr16 m a v) a = v"
  using word_bytes16 [of v] by (simp add: rd16_def wr16_def)

lemma rd32_wr32 [simp, mem_simps]: "rd32 (wr32 m a v) a = v"
  using word_bytes32 [of v] by (simp add: rd32_def wr32_def)

lemma wr8_other [mem_simps]: "x \<noteq> a \<Longrightarrow> wr8 m a v x = m x"
  by (simp add: wr8_def)

lemma wr16_other [mem_simps]: "\<not> in_range a 2 x \<Longrightarrow> wr16 m a v x = m x"
  by (auto simp: wr16_def in_range_def)

lemma wr32_other [mem_simps]: "\<not> in_range a 4 x \<Longrightarrow> wr32 m a v x = m x"
  by (auto simp: wr32_def in_range_def)

text \<open>A read sees only the bytes it covers.\<close>

lemma rd16_cong: "m a = m' a' \<Longrightarrow> m (a + 1) = m' (a' + 1) \<Longrightarrow> rd16 m a = rd16 m' a'"
  by (simp add: rd16_def)

lemma rd32_cong:
  "m a = m' a' \<Longrightarrow> m (a + 1) = m' (a' + 1) \<Longrightarrow> m (a + 2) = m' (a' + 2) \<Longrightarrow>
   m (a + 3) = m' (a' + 3) \<Longrightarrow> rd32 m a = rd32 m' a'"
  by (simp add: rd32_def)

section \<open>Block operations\<close>

text \<open>
  \<open>memcpy\<close> is \<open>__movsb\<close>: bytes go one by one, upwards, each read after the ones before it
  were written. \<open>zeromem(m,s)\<close> is \<open>memset\<close> with 0.
\<close>

fun memcpy :: "mem \<Rightarrow> addr \<Rightarrow> addr \<Rightarrow> nat \<Rightarrow> mem" where
  "memcpy m d s 0 = m"
| "memcpy m d s (Suc n) = memcpy (m(d := m s)) (d + 1) (s + 1) n"

fun zeromem :: "mem \<Rightarrow> addr \<Rightarrow> nat \<Rightarrow> mem" where
  "zeromem m d 0 = m"
| "zeromem m d (Suc n) = zeromem (m(d := 0)) (d + 1) n"

text \<open>A block of memory as a list of bytes, and a list of bytes stored as a block.\<close>

fun load :: "mem \<Rightarrow> addr \<Rightarrow> nat \<Rightarrow> u8 list" where
  "load m a 0 = []"
| "load m a (Suc n) = m a # load m (a + 1) n"

fun store :: "mem \<Rightarrow> addr \<Rightarrow> u8 list \<Rightarrow> mem" where
  "store m a [] = m"
| "store m a (b # bs) = store (m(a := b)) (a + 1) bs"

lemma length_load [simp]: "length (load m a n) = n"
  by (induction n arbitrary: a) auto

lemma unat_from_next: "x \<noteq> a \<Longrightarrow> unat (x - a) = Suc (unat (x - (a + 1)))" for x a :: addr
proof -
  assume "x \<noteq> a"
  then have nz: "x - a \<noteq> 0" by simp
  then have "unat (x - a - 1) = unat (x - a) - 1" by (rule unat_minus_one)
  moreover have "0 < unat (x - a)" using nz by (simp only: unat_gt_0) simp
  moreover have "x - a - 1 = x - (a + 1)" by (simp add: diff_diff_eq)
  ultimately show ?thesis by simp
qed

lemma unat_to_prev: "unat (a - (a + 1)) = 2 ^ 32 - 1" for a :: addr
proof -
  have "a - (a + 1) = (4294967295 :: addr)" by simp
  then show ?thesis by (simp only:) simp
qed

lemma in_range_Suc:
  assumes "n < 2 ^ 32"
  shows "in_range a (Suc n) x \<longleftrightarrow> x = a \<or> in_range (a + 1) n x"
proof (cases "x = a")
  case False
  then show ?thesis unfolding in_range_def by (simp add: unat_from_next)
qed simp

lemma not_in_range_prev: "n < 2 ^ 32 \<Longrightarrow> \<not> in_range (a + 1) n a"
  unfolding in_range_def unat_to_prev by simp

text \<open>
  Disjointness of two blocks, stated so that it can be evaluated: neither start lies in the
  other block.
\<close>

definition disjoint_blocks :: "addr \<Rightarrow> nat \<Rightarrow> addr \<Rightarrow> nat \<Rightarrow> bool" where
  "disjoint_blocks a n b k \<longleftrightarrow> (\<forall>x. \<not> (in_range a n x \<and> in_range b k x))"

lemma disjoint_blocks_sub:
  assumes "disjoint_blocks a N b K" and "i + n \<le> N" and "N \<le> 2 ^ 32" and "j + k \<le> K" and "K \<le> 2 ^ 32"
  shows "disjoint_blocks (a + word_of_nat i) n (b + word_of_nat j) k"
  using assms in_range_sub unfolding disjoint_blocks_def by blast

text \<open>A test for concrete blocks: each starts beyond the end of the other.\<close>

lemma disjoint_blocksI:
  assumes "n \<le> unat (b - a)" and "k \<le> unat (a - b)"
  shows "disjoint_blocks a n b k"
proof -
  have False if "in_range a n x" "in_range b k x" for x
  proof -
    from that(1) obtain i where i: "i < n" "x = a + word_of_nat i" by (rule in_rangeE)
    from that(2) obtain j where j: "j < k" "x = b + word_of_nat j" by (rule in_rangeE)
    show False
    proof (cases "j \<le> i")
      case True
      then have "b - a = word_of_nat (i - j)" using i j by (simp add: of_nat_diff algebra_simps)
      then have "unat (b - a) \<le> i - j" by (simp add: unat_of_nat take_bit_nat_less_eq_self)
      with i assms show False by simp
    next
      case False
      then have "a - b = word_of_nat (j - i)" using i j by (simp add: of_nat_diff algebra_simps)
      then have "unat (a - b) \<le> j - i" by (simp add: unat_of_nat take_bit_nat_less_eq_self)
      with j assms show False by simp
    qed
  qed
  then show ?thesis by (auto simp: disjoint_blocks_def)
qed

lemma store_other [mem_simps]:
  "length bs < 2 ^ 32 \<Longrightarrow> \<not> in_range a (length bs) x \<Longrightarrow> store m a bs x = m x"
  by (induction bs arbitrary: m a) (auto simp: in_range_Suc)

lemma load_store: "length bs < 2 ^ 32 \<Longrightarrow> load (store m a bs) a (length bs) = bs"
proof (induction bs arbitrary: m a)
  case (Cons b bs)
  then have "store (m(a := b)) (a + 1) bs a = b"
    by (subst store_other) (auto simp: not_in_range_prev)
  with Cons show ?case by simp
qed simp

lemma load_cong:
  assumes "\<And>k. k < n \<Longrightarrow> m (a + word_of_nat k) = m' (a' + word_of_nat k)"
  shows "load m a n = load m' a' n"
  using assms
proof (induction n arbitrary: a a')
  case (Suc n)
  have "m a = m' a'" using Suc.prems [of 0] by simp
  moreover have "load m (a + 1) n = load m' (a' + 1) n"
    by (rule Suc.IH) (use Suc.prems [of "Suc k" for k] in \<open>simp add: add.assoc\<close>)
  ultimately show ?case by simp
qed simp

lemma memcpy_other [mem_simps]:
  "n < 2 ^ 32 \<Longrightarrow> \<not> in_range d n x \<Longrightarrow> memcpy m d s n x = m x"
  by (induction n arbitrary: m d s) (auto simp: in_range_Suc)

text \<open>Copying between disjoint blocks moves the bytes unchanged.\<close>

lemma memcpy_bytes:
  assumes "n < 2 ^ 32" and "disjoint_blocks d n s n" and "k < n"
  shows "memcpy m d s n (d + word_of_nat k) = m (s + word_of_nat k)"
  using assms
proof (induction n arbitrary: m d s k)
  case (Suc n)
  let ?m = "m(d := m s)"
  have n: "n < 2 ^ 32" using Suc.prems by simp
  have disj: "disjoint_blocks (d + 1) n (s + 1) n"
    using Suc.prems n by (auto simp: disjoint_blocks_def in_range_Suc)
  show ?case
  proof (cases k)
    case 0
    have "memcpy ?m (d + 1) (s + 1) n d = ?m d"
      using n by (intro memcpy_other not_in_range_prev)
    then show ?thesis by (simp add: 0)
  next
    case (Suc j)
    then have j: "j < n" using Suc.prems by simp
    have "memcpy ?m (d + 1) (s + 1) n (d + 1 + word_of_nat j) = ?m (s + 1 + word_of_nat j)"
      by (rule Suc.IH [OF n disj j])
    moreover have "s + 1 + word_of_nat j \<noteq> d"
    proof -
      have "in_range s (Suc n) (s + word_of_nat (Suc j))"
        using j Suc.prems by (intro in_range_add) auto
      then have "\<not> in_range d (Suc n) (s + word_of_nat (Suc j))"
        using Suc.prems by (auto simp: disjoint_blocks_def)
      then show ?thesis by (auto simp: add.assoc)
    qed
    ultimately show ?thesis by (simp add: Suc add.assoc)
  qed
qed simp

lemma zeromem_other [mem_simps]:
  "n < 2 ^ 32 \<Longrightarrow> \<not> in_range d n x \<Longrightarrow> zeromem m d n x = m x"
  by (induction n arbitrary: m d) (auto simp: in_range_Suc)

end
