(* ===== verification/Ldasm.thy ===== *)
theory Ldasm
  imports Prelude
begin

text \<open>
  The length disassembler of \<open>src/kernel/sys/ldasm.c\<close>: the packed opcode table, the flags of
  an opcode, and the size of the instruction at an address. The hooking code copies whole
  instructions out of a function, so everything it does rests on these sizes.
\<close>

section \<open>Opcode flags\<close>

abbreviation (input) OP_DATA_I8 :: u32 where "OP_DATA_I8 \<equiv> 0x001"
abbreviation (input) OP_DATA_I16 :: u32 where "OP_DATA_I16 \<equiv> 0x002"
abbreviation (input) OP_DATA_I32 :: u32 where "OP_DATA_I32 \<equiv> 0x004"
abbreviation (input) OP_MODRM :: u32 where "OP_MODRM \<equiv> 0x008"
abbreviation (input) OP_DATA_PRE66_67 :: u32 where "OP_DATA_PRE66_67 \<equiv> 0x010"
abbreviation (input) OP_PREFIX :: u32 where "OP_PREFIX \<equiv> 0x020"
abbreviation (input) OP_REL32 :: u32 where "OP_REL32 \<equiv> 0x040"
abbreviation (input) OP_REL8 :: u32 where "OP_REL8 \<equiv> 0x080"
abbreviation (input) OP_EXTENDED :: u32 where "OP_EXTENDED \<equiv> 0x100"

definition packed_table :: "u8 list" where
  "packed_table = [
    0x80, 0x84, 0x80, 0x84, 0x80, 0x84, 0x80, 0x84,
    0x80, 0x88, 0x80, 0x88, 0x80, 0x88, 0x80, 0x88,
    0x8c, 0x8b, 0x8b, 0x8b, 0x8b, 0x8b, 0x8b, 0x8b,
    0x90, 0x94, 0x98, 0x8b, 0x9c, 0x9c, 0x9c, 0x9c,
    0xa0, 0x80, 0x80, 0x80, 0x8b, 0x8b, 0xa4, 0x8b,
    0xa8, 0x8b, 0x84, 0x8b, 0xac, 0xac, 0xa8, 0xa8,
    0xb0, 0xb4, 0xb8, 0xbc, 0x80, 0xc0, 0x80, 0x80,
    0x9c, 0xac, 0xc4, 0x8b, 0xc8, 0x90, 0x8b, 0x90,
    0x80, 0x8b, 0x8b, 0xcc, 0x80, 0x80, 0xd0, 0x8b,
    0x80, 0xd4, 0x80, 0x80, 0x8b, 0x8b, 0x8b, 0x8b,
    0x80, 0x80, 0x80, 0x80, 0x80, 0x80, 0x80, 0x80,
    0x80, 0x80, 0x80, 0x80, 0xd8, 0xdc, 0x8b, 0x80,
    0xe0, 0xe0, 0xe0, 0xe0, 0x80, 0x80, 0x80, 0x80,
    0x8f, 0xcf, 0x8f, 0xdb, 0x80, 0x80, 0xe4, 0x80,
    0xe8, 0xd9, 0x8b, 0x8b, 0x80, 0x80, 0x80, 0x80,
    0x80, 0x80, 0x80, 0x80, 0x80, 0x80, 0x80, 0xdc,
    0x08, 0x08, 0x08, 0x08, 0x01, 0x10, 0x00, 0x00,
    0x01, 0x10, 0x20, 0x00, 0x00, 0x00, 0x00, 0x00,
    0x00, 0x00, 0x08, 0x08, 0x20, 0x20, 0x20, 0x20,
    0x10, 0x18, 0x01, 0x09, 0x81, 0x81, 0x81, 0x81,
    0x09, 0x18, 0x09, 0x09, 0x00, 0x00, 0x12, 0x00,
    0x10, 0x10, 0x10, 0x10, 0x01, 0x01, 0x01, 0x01,
    0x09, 0x09, 0x02, 0x00, 0x08, 0x08, 0x09, 0x18,
    0x03, 0x00, 0x02, 0x00, 0x00, 0x01, 0x00, 0x00,
    0x01, 0x01, 0x00, 0x00, 0x50, 0x50, 0x12, 0x81,
    0x20, 0x00, 0x20, 0x20, 0x00, 0x08, 0x00, 0x09,
    0x08, 0x00, 0x00, 0x00, 0x08, 0x00, 0x08, 0x00,
    0x09, 0x09, 0x09, 0x09, 0x08, 0x08, 0x08, 0x00,
    0x50, 0x50, 0x50, 0x50, 0x00, 0x00, 0x09, 0x08,
    0x08, 0x08, 0x09, 0x08]"

text \<open>
  Two reads of the table: the row of four opcodes, then the flags of the opcode in the row.
  \<open>flag_index\<close> is the second subscript, computed in \<open>unsigned long\<close>.
\<close>

definition flag_index :: "u32 \<Rightarrow> u32" where
  "flag_index code = ucast (packed_table ! unat (code div 4)) + code mod 4"

definition code_flags :: "u32 \<Rightarrow> u32" where
  "code_flags code = ucast (packed_table ! unat (flag_index code))"

definition x_code_flags :: "mem \<Rightarrow> addr \<Rightarrow> u32" where
  "x_code_flags m a =
     (let opcode = (if m a = 0x0F then ucast (m (a + 1)) OR OP_EXTENDED else ucast (m a))
      in code_flags opcode OR (opcode AND OP_EXTENDED))"

section \<open>The size of an instruction\<close>

text \<open>
  The loop over prefixes. It reads on while it sees prefix bytes, so it is a partial function:
  an address space full of prefix bytes would keep it reading for ever. The result holds
  \<open>code\<close>, \<open>osize\<close>, \<open>pfx66\<close> and \<open>pfx67\<close> where the loop ends.
\<close>

partial_function (option) skip_prefixes ::
  "mem \<Rightarrow> addr \<Rightarrow> u32 \<Rightarrow> u32 \<Rightarrow> u32 \<Rightarrow> (addr \<times> u32 \<times> u32 \<times> u32) option" where
  "skip_prefixes m code osize pfx66 pfx67 =
     (if code_flags (ucast (m code)) AND OP_PREFIX \<noteq> 0
      then skip_prefixes m (code + 1) (osize + 1)
             (if m code = 0x66 then 1 else pfx66) (if m code = 0x67 then 1 else pfx67)
      else Some (code, osize, pfx66, pfx67))"

text \<open>The \<open>switch (i_mod)\<close>: the size of the displacement.\<close>

definition disp_size :: "u32 \<Rightarrow> u8 \<Rightarrow> u8 \<Rightarrow> u32" where
  "disp_size pfx67 i_mod i_rm =
     (if i_mod = 0 then
        (if pfx67 \<noteq> 0 then (if i_rm = 6 then 2 else 0) else (if i_rm = 5 then 4 else 0))
      else if i_mod = 1 then 1
      else if i_mod = 2 then (if pfx67 \<noteq> 0 then 2 else 4)
      else 0)"

text \<open>The SIB byte, whose base 5 adds a displacement of its own.\<close>

definition sib_size :: "u32 \<Rightarrow> u8 \<Rightarrow> u8 \<Rightarrow> u8 \<Rightarrow> u32 \<Rightarrow> u32" where
  "sib_size pfx67 i_mod i_rm sib oflen =
     (if pfx67 = 0 \<and> i_rm = 4 \<and> i_mod \<noteq> 3
      then (if sib AND 7 = 5 \<and> i_mod \<noteq> 1 then 4 else oflen) + 1
      else oflen)"

text \<open>
  The \<open>if (flags & OP_MODRM)\<close> block: \<open>code\<close> points at the ModRM byte \<open>b\<close>, and the byte after
  it is the SIB byte where there is one. The result is the new \<open>flags\<close> and \<open>osize\<close>.
\<close>

definition modrm_step :: "mem \<Rightarrow> addr \<Rightarrow> u32 \<Rightarrow> u32 \<Rightarrow> u32 \<Rightarrow> u32 \<Rightarrow> u32 \<times> u32" where
  "modrm_step m code op1 pfx67 flags osize =
     (let i_mod = drop_bit 6 (m code);
          i_reg = drop_bit 3 (m code AND 0x38);
          i_rm = m code AND 7;
          flags = (if op1 = 0xF6 \<and> i_reg = 0 then flags OR OP_DATA_I8 else flags);
          flags = (if op1 = 0xF7 \<and> i_reg = 0 then flags OR OP_DATA_PRE66_67 else flags);
          oflen = sib_size pfx67 i_mod i_rm (m (code + 1)) (disp_size pfx67 i_mod i_rm)
      in (flags, osize + 1 + oflen))"

text \<open>
  The rest of \<open>size_of_code\<close>, from the opcode on: \<open>code\<close> points at the opcode, \<open>osize\<close> is the
  number of prefix bytes.
\<close>

definition opcode_size :: "mem \<Rightarrow> addr \<Rightarrow> u32 \<Rightarrow> u32 \<Rightarrow> u32 \<Rightarrow> u32" where
  "opcode_size m code osize pfx66 pfx67 =
     (let op1 = ucast (m code) :: u32;
          ext = (op1 = 0x0F);
          op2 = (if ext then ucast (m (code + 1)) OR OP_EXTENDED else op1);
          pfx66 = (if \<not> ext \<and> 0xA0 \<le> op2 \<and> op2 \<le> 0xA3 then pfx67 else pfx66);
          next = (if ext then code + 2 else code + 1);
          osize = (if ext then osize + 2 else osize + 1);
          flags = code_flags op2;
          (flags, osize) = (if flags AND OP_MODRM \<noteq> 0
                            then modrm_step m next op1 pfx67 flags osize else (flags, osize));
          osize = (if flags AND OP_DATA_PRE66_67 \<noteq> 0
                   then osize + (4 - push_bit 1 pfx66) else osize)
      in osize + (flags AND 7))"

text \<open>
  \<open>size_of_code(code, &opcd)\<close>: the size of the instruction and the address of its opcode.
\<close>

definition size_of_code :: "mem \<Rightarrow> addr \<Rightarrow> (u32 \<times> addr) option" where
  "size_of_code m code =
     map_option (\<lambda>(opcd, osize, pfx66, pfx67). (opcode_size m opcd osize pfx66 pfx67, opcd))
       (skip_prefixes m code 0 0 0)"

section \<open>The table\<close>

lemma length_packed_table: "length packed_table = 236"
  by (simp add: packed_table_def)

text \<open>The same two reads on natural numbers, which the table facts below evaluate.\<close>

definition flag_at :: "nat \<Rightarrow> u8" where
  "flag_at k = packed_table ! (unat (packed_table ! (k div 4)) + k mod 4)"

lemma table_rows: "x \<in> set (take 128 packed_table) \<Longrightarrow> 128 \<le> x \<and> x \<le> 232"
proof -
  have "\<forall>x \<in> set (take 128 packed_table). 128 \<le> x \<and> x \<le> 232"
    by (simp add: packed_table_def)
  then show "x \<in> set (take 128 packed_table) \<Longrightarrow> 128 \<le> x \<and> x \<le> 232" by blast
qed

lemma table_row:
  assumes "k < 128"
  shows "128 \<le> unat (packed_table ! k) \<and> unat (packed_table ! k) \<le> 232"
proof -
  have "packed_table ! k = take 128 packed_table ! k" using assms by simp
  then have "packed_table ! k \<in> set (take 128 packed_table)"
    using assms by (auto simp: length_packed_table in_set_conv_nth intro!: exI [of _ k])
  then have "128 \<le> packed_table ! k \<and> packed_table ! k \<le> 232" by (rule table_rows)
  then show ?thesis by (simp add: word_le_nat_alt)
qed

lemma unat_code_div: "unat (code div 4) = unat code div 4" for code :: u32
  by (simp add: unat_div)

lemma unat_code_mod: "unat (code mod 4) = unat code mod 4" for code :: u32
  by (simp add: unat_mod)

lemma unat_flag_index:
  assumes "code < 0x200"
  shows "unat (flag_index code) = unat (packed_table ! (unat code div 4)) + unat code mod 4"
proof -
  have "unat code div 4 < 128" using assms by (simp add: word_less_nat_alt)
  from table_row [OF this]
  have "unat (packed_table ! (unat code div 4)) \<le> 232" by simp
  moreover have "unat code mod 4 < 4" by simp
  ultimately have "unat (packed_table ! (unat code div 4)) + unat code mod 4 < 236"
    by linarith
  then have lt: "unat (packed_table ! (unat code div 4)) + unat code mod 4 < 2 ^ 32"
    by simp
  then show ?thesis
    unfolding flag_index_def unat_code_div
    by (subst unat_add_lem [THEN iffD1]) (simp_all only: unat_code_mod unat_ucast8 len_num1
        len_bit0 mult_2 numeral_plus_numeral add_num_simps, simp_all)
qed

lemma code_flags_at: "code < 0x200 \<Longrightarrow> code_flags code = ucast (flag_at (unat code))"
  by (simp add: code_flags_def flag_at_def unat_flag_index)

text \<open>Both subscripts stay inside the table for every opcode, one byte or two.\<close>

lemma table_in_bounds:
  assumes "code < 0x200"
  shows "unat (code div 4) < length packed_table"
    and "128 \<le> unat (flag_index code)"
    and "unat (flag_index code) < length packed_table"
proof -
  have k: "unat code div 4 < 128" using assms by (simp add: word_less_nat_alt)
  then show "unat (code div 4) < length packed_table"
    by (simp add: unat_code_div length_packed_table)
  have "unat code mod 4 < 4" by simp
  with table_row [OF k] have
    "128 \<le> unat (flag_index code) \<and> unat (flag_index code) \<le> 232 + 3"
    unfolding unat_flag_index [OF assms] by linarith
  then show "128 \<le> unat (flag_index code)"
    and "unat (flag_index code) < length packed_table"
    by (auto simp: length_packed_table)
qed

definition flag_values :: "u8 list" where
  "flag_values = [0, 1, 2, 3, 8, 9, 16, 18, 24, 32, 80, 129]"

lemma code_flags_values:
  assumes "code < 0x200"
  obtains f where "f \<in> set flag_values" and "code_flags code = ucast f"
proof
  let ?i = "unat (flag_index code)"
  have vals: "\<forall>x \<in> set (drop 128 packed_table). x \<in> set flag_values"
    by (simp add: packed_table_def flag_values_def)
  have "packed_table ! ?i = drop 128 packed_table ! (?i - 128)"
    using table_in_bounds [OF assms] by simp
  moreover have "?i - 128 < length (drop 128 packed_table)"
    using table_in_bounds [OF assms] by simp
  ultimately have "packed_table ! ?i \<in> set (drop 128 packed_table)"
    by (metis nth_mem)
  with vals show "packed_table ! ?i \<in> set flag_values" by blast
  show "code_flags code = ucast (packed_table ! ?i)" by (simp add: code_flags_def)
qed

section \<open>The one-byte opcode map\<close>

text \<open>
  The instruction format of the one-byte opcodes as the processor manuals give it: which
  opcodes are prefixes, which have a ModRM byte, and which immediates follow (one byte, two
  bytes, or a full word that the operand-size or address-size prefix halves).
\<close>

definition map_prefix :: "nat \<Rightarrow> bool" where
  "map_prefix op \<longleftrightarrow> op \<in> {0x26, 0x2E, 0x36, 0x3E, 0x64, 0x65, 0x66, 0x67, 0xF0, 0xF2, 0xF3}"

definition map_modrm :: "nat \<Rightarrow> bool" where
  "map_modrm op \<longleftrightarrow> op < 0x40 \<and> op mod 8 < 4 \<or> op \<in> {0x62, 0x63, 0x69, 0x6B}
     \<or> 0x80 \<le> op \<and> op \<le> 0x8F \<or> op \<in> {0xC0, 0xC1} \<or> 0xC4 \<le> op \<and> op \<le> 0xC7
     \<or> 0xD0 \<le> op \<and> op \<le> 0xD3 \<or> 0xD8 \<le> op \<and> op \<le> 0xDF \<or> op \<in> {0xF6, 0xF7, 0xFE, 0xFF}"

definition map_imm8 :: "nat \<Rightarrow> bool" where
  "map_imm8 op \<longleftrightarrow> op < 0x40 \<and> op mod 8 = 4
     \<or> op \<in> {0x6A, 0x6B, 0x80, 0x82, 0x83, 0xA8, 0xC0, 0xC1, 0xC6, 0xC8, 0xCD, 0xD4, 0xD5, 0xEB}
     \<or> 0x70 \<le> op \<and> op \<le> 0x7F \<or> 0xB0 \<le> op \<and> op \<le> 0xB7 \<or> 0xE0 \<le> op \<and> op \<le> 0xE7"

definition map_imm16 :: "nat \<Rightarrow> bool" where
  "map_imm16 op \<longleftrightarrow> op \<in> {0x9A, 0xC2, 0xC8, 0xCA, 0xEA}"

definition map_immz :: "nat \<Rightarrow> bool" where
  "map_immz op \<longleftrightarrow> op < 0x40 \<and> op mod 8 = 5
     \<or> op \<in> {0x68, 0x69, 0x81, 0x9A, 0xA9, 0xC7, 0xE8, 0xE9, 0xEA}
     \<or> 0xA0 \<le> op \<and> op \<le> 0xA3 \<or> 0xB8 \<le> op \<and> op \<le> 0xBF"

definition map_rel32 :: "nat \<Rightarrow> bool" where
  "map_rel32 op \<longleftrightarrow> op \<in> {0xE8, 0xE9}"

definition map_rel8 :: "nat \<Rightarrow> bool" where
  "map_rel8 op \<longleftrightarrow> 0x70 \<le> op \<and> op \<le> 0x7F \<or> 0xE0 \<le> op \<and> op \<le> 0xE3 \<or> op = 0xEB"

text \<open>The flags the packed table must hold for an opcode of that map.\<close>

definition map_flags :: "nat \<Rightarrow> nat" where
  "map_flags op = (if map_imm8 op then 1 else 0) + (if map_imm16 op then 2 else 0)
     + (if map_modrm op then 8 else 0) + (if map_immz op then 16 else 0)
     + (if map_prefix op then 32 else 0) + (if map_rel32 op then 64 else 0)
     + (if map_rel8 op then 128 else 0)"

lemmas map_defs = map_flags_def map_prefix_def map_modrm_def map_imm8_def map_imm16_def
  map_immz_def map_rel32_def map_rel8_def

lemma upt_0_64: "[0..<64] = 0 # 1 # [2..<64]"
  by (simp add: upt_conv_Cons numeral_2_eq_2)

lemma flags_0: "map flag_at [0..<64] =
   [8, 8, 8, 8, 1, 16, 0, 0, 8, 8, 8, 8, 1, 16, 0, 0, 8, 8, 8, 8, 1, 16, 0, 0, 8, 8, 8, 8,
    1, 16, 0, 0, 8, 8, 8, 8, 1, 16, 32, 0, 8, 8, 8, 8, 1, 16, 32, 0, 8, 8, 8, 8, 1, 16, 32,
    0, 8, 8, 8, 8, 1, 16, 32, 0]"
  by (simp add: flag_at_def packed_table_def upt_0_64 upt_rec_numeral)

lemma flags_64: "map flag_at [64..<128] =
   [0, 0, 0, 0, 0, 0, 0, 0, 0, 0, 0, 0, 0, 0, 0, 0, 0, 0, 0, 0, 0, 0, 0, 0, 0, 0, 0, 0, 0,
    0, 0, 0, 0, 0, 8, 8, 32, 32, 32, 32, 16, 24, 1, 9, 0, 0, 0, 0, 129, 129, 129, 129, 129,
    129, 129, 129, 129, 129, 129, 129, 129, 129, 129, 129]"
  by (simp add: flag_at_def packed_table_def upt_0_64 upt_rec_numeral)

lemma flags_128: "map flag_at [128..<192] =
   [9, 24, 9, 9, 8, 8, 8, 8, 8, 8, 8, 8, 8, 8, 8, 8, 0, 0, 0, 0, 0, 0, 0, 0, 0, 0, 18, 0, 0,
    0, 0, 0, 16, 16, 16, 16, 0, 0, 0, 0, 1, 16, 0, 0, 0, 0, 0, 0, 1, 1, 1, 1, 1, 1, 1, 1, 16,
    16, 16, 16, 16, 16, 16, 16]"
  by (simp add: flag_at_def packed_table_def upt_0_64 upt_rec_numeral)

lemma flags_192: "map flag_at [192..<256] =
   [9, 9, 2, 0, 8, 8, 9, 24, 3, 0, 2, 0, 0, 1, 0, 0, 8, 8, 8, 8, 1, 1, 0, 0, 8, 8, 8, 8, 8,
    8, 8, 8, 129, 129, 129, 129, 1, 1, 1, 1, 80, 80, 18, 129, 0, 0, 0, 0, 32, 0, 32, 32, 0,
    0, 8, 8, 0, 0, 0, 0, 0, 0, 8, 8]"
  by (simp add: flag_at_def packed_table_def upt_0_64 upt_rec_numeral)

lemma flags_256: "map flag_at [256..<320] =
   [8, 8, 8, 8, 0, 0, 0, 0, 0, 0, 0, 0, 0, 8, 0, 9, 8, 8, 8, 8, 8, 8, 8, 8, 8, 0, 0, 0, 0,
    0, 0, 0, 8, 8, 8, 8, 8, 0, 8, 0, 8, 8, 8, 8, 8, 8, 8, 8, 0, 0, 0, 0, 0, 0, 0, 0, 0, 0,
    0, 0, 0, 0, 0, 0]"
  by (simp add: flag_at_def packed_table_def upt_0_64 upt_rec_numeral)

lemma flags_320: "map flag_at [320..<384] =
   [8, 8, 8, 8, 8, 8, 8, 8, 8, 8, 8, 8, 8, 8, 8, 8, 8, 8, 8, 8, 8, 8, 8, 8, 8, 8, 8, 8, 8,
    8, 8, 8, 8, 8, 8, 8, 8, 8, 8, 8, 8, 8, 8, 8, 8, 8, 8, 8, 9, 9, 9, 9, 8, 8, 8, 0, 0, 0,
    0, 0, 8, 8, 8, 8]"
  by (simp add: flag_at_def packed_table_def upt_0_64 upt_rec_numeral)

lemma flags_384: "map flag_at [384..<448] =
   [80, 80, 80, 80, 80, 80, 80, 80, 80, 80, 80, 80, 80, 80, 80, 80, 8, 8, 8, 8, 8, 8, 8, 8,
    8, 8, 8, 8, 8, 8, 8, 8, 0, 0, 0, 8, 9, 8, 0, 0, 0, 0, 0, 8, 9, 8, 8, 8, 8, 8, 8, 8, 8,
    8, 8, 8, 0, 0, 9, 8, 8, 8, 8, 8]"
  by (simp add: flag_at_def packed_table_def upt_0_64 upt_rec_numeral)

lemma flags_448: "map flag_at [448..<512] =
   [8, 8, 9, 8, 9, 9, 9, 8, 0, 0, 0, 0, 0, 0, 0, 0, 8, 8, 8, 8, 8, 8, 8, 8, 8, 8, 8, 8, 8,
    8, 8, 8, 8, 8, 8, 8, 8, 8, 8, 8, 8, 8, 8, 8, 8, 8, 8, 8, 8, 8, 8, 8, 8, 8, 8, 8, 8, 8,
    8, 8, 8, 8, 8, 0]"
  by (simp add: flag_at_def packed_table_def upt_0_64 upt_rec_numeral)

text \<open>A fact about every opcode's flags is checked chunk by chunk on these lists.\<close>

lemma flags_list_all:
  "list_all (\<lambda>k. Q (flag_at k) = R k) xs \<longleftrightarrow> map Q (map flag_at xs) = map R xs"
  by (induction xs) auto

lemma list_all_upt: "list_all P [i..<j] \<longleftrightarrow> (\<forall>k. i \<le> k \<and> k < j \<longrightarrow> P k)"
  by (auto simp: list_all_iff)

lemma one_byte_table:
  "list_all (\<lambda>k. unat (flag_at k) = map_flags k) [0..<64]"
  "list_all (\<lambda>k. unat (flag_at k) = map_flags k) [64..<128]"
  "list_all (\<lambda>k. unat (flag_at k) = map_flags k) [128..<192]"
  "list_all (\<lambda>k. unat (flag_at k) = map_flags k) [192..<256]"
  unfolding flags_list_all flags_0 flags_64 flags_128 flags_192
  by (simp_all add: upt_0_64 upt_rec_numeral map_defs)

lemma prefix_table:
  "list_all (\<lambda>k. (flag_at k AND 0x20 \<noteq> 0) = map_prefix k) [0..<64]"
  "list_all (\<lambda>k. (flag_at k AND 0x20 \<noteq> 0) = map_prefix k) [64..<128]"
  "list_all (\<lambda>k. (flag_at k AND 0x20 \<noteq> 0) = map_prefix k) [128..<192]"
  "list_all (\<lambda>k. (flag_at k AND 0x20 \<noteq> 0) = map_prefix k) [192..<256]"
  unfolding flags_list_all [where Q = "\<lambda>f. f AND 0x20 \<noteq> 0"] flags_0 flags_64 flags_128 flags_192
  by (simp_all add: upt_0_64 upt_rec_numeral map_prefix_def)

definition map_imm :: "nat \<Rightarrow> u8" where
  "map_imm op = (if map_imm8 op then 1 else 0) + (if map_imm16 op then 2 else 0)"

lemma field_table:
  "list_all (\<lambda>k. (flag_at k AND 8 \<noteq> 0, flag_at k AND 16 \<noteq> 0, flag_at k AND 7)
     = (map_modrm k, map_immz k, map_imm k)) [0..<64]"
  "list_all (\<lambda>k. (flag_at k AND 8 \<noteq> 0, flag_at k AND 16 \<noteq> 0, flag_at k AND 7)
     = (map_modrm k, map_immz k, map_imm k)) [64..<128]"
  "list_all (\<lambda>k. (flag_at k AND 8 \<noteq> 0, flag_at k AND 16 \<noteq> 0, flag_at k AND 7)
     = (map_modrm k, map_immz k, map_imm k)) [128..<192]"
  "list_all (\<lambda>k. (flag_at k AND 8 \<noteq> 0, flag_at k AND 16 \<noteq> 0, flag_at k AND 7)
     = (map_modrm k, map_immz k, map_imm k)) [192..<256]"
  unfolding flags_list_all [where Q = "\<lambda>f. (f AND 8 \<noteq> 0, f AND 16 \<noteq> 0, f AND 7)"]
    flags_0 flags_64 flags_128 flags_192
  by (simp_all add: upt_0_64 upt_rec_numeral map_defs map_imm_def)

text \<open>Relative branches, among the one-byte opcodes and the two-byte ones \<open>0F 80\<close> to \<open>0F 8F\<close>.\<close>

definition map_rel32_ext :: "nat \<Rightarrow> bool" where
  "map_rel32_ext op \<longleftrightarrow> map_rel32 op \<or> 0x180 \<le> op \<and> op \<le> 0x18F"

lemma rel_table:
  "list_all (\<lambda>k. (flag_at k AND 0xC0 = 0x40, flag_at k AND 0xC0 = 0x80)
     = (map_rel32_ext k, map_rel8 k)) [0..<64]"
  "list_all (\<lambda>k. (flag_at k AND 0xC0 = 0x40, flag_at k AND 0xC0 = 0x80)
     = (map_rel32_ext k, map_rel8 k)) [64..<128]"
  "list_all (\<lambda>k. (flag_at k AND 0xC0 = 0x40, flag_at k AND 0xC0 = 0x80)
     = (map_rel32_ext k, map_rel8 k)) [128..<192]"
  "list_all (\<lambda>k. (flag_at k AND 0xC0 = 0x40, flag_at k AND 0xC0 = 0x80)
     = (map_rel32_ext k, map_rel8 k)) [192..<256]"
  "list_all (\<lambda>k. (flag_at k AND 0xC0 = 0x40, flag_at k AND 0xC0 = 0x80)
     = (map_rel32_ext k, map_rel8 k)) [256..<320]"
  "list_all (\<lambda>k. (flag_at k AND 0xC0 = 0x40, flag_at k AND 0xC0 = 0x80)
     = (map_rel32_ext k, map_rel8 k)) [320..<384]"
  "list_all (\<lambda>k. (flag_at k AND 0xC0 = 0x40, flag_at k AND 0xC0 = 0x80)
     = (map_rel32_ext k, map_rel8 k)) [384..<448]"
  "list_all (\<lambda>k. (flag_at k AND 0xC0 = 0x40, flag_at k AND 0xC0 = 0x80)
     = (map_rel32_ext k, map_rel8 k)) [448..<512]"
  unfolding flags_list_all [where Q = "\<lambda>f. (f AND 0xC0 = 0x40, f AND 0xC0 = 0x80)"]
    flags_0 flags_64 flags_128 flags_192 flags_256 flags_320 flags_384 flags_448
  by (simp_all add: upt_0_64 upt_rec_numeral map_rel32_ext_def map_rel32_def map_rel8_def)

lemma flag_at_one_byte: "k < 256 \<Longrightarrow> unat (flag_at k) = map_flags k"
  using one_byte_table unfolding list_all_upt
  by (meson leI le0)

lemma flag_at_prefix: "k < 256 \<Longrightarrow> (flag_at k AND 0x20 \<noteq> 0) = map_prefix k"
  using prefix_table unfolding list_all_upt
  by (meson leI le0)

lemma flag_at_fields: "k < 256 \<Longrightarrow>
  (flag_at k AND 8 \<noteq> 0, flag_at k AND 16 \<noteq> 0, flag_at k AND 7)
     = (map_modrm k, map_immz k, map_imm k)"
  using field_table unfolding list_all_upt
  by (meson leI le0)

lemma flag_at_rel: "k < 512 \<Longrightarrow>
  (flag_at k AND 0xC0 = 0x40, flag_at k AND 0xC0 = 0x80) = (map_rel32_ext k, map_rel8 k)"
  using rel_table unfolding list_all_upt
  by (meson leI le0)

end
