(* ===== verification/Interfaces.thy ===== *)
theory Interfaces
  imports Prelude
begin

text \<open>
  The contracts between the components, as locales. Each is interpreted by the component that
  provides it; the lemmas a client needs are proved once, here, from the contract alone.
\<close>

section \<open>The instruction decoder, as the hooking code uses it\<close>

text \<open>
  \<open>decode m a\<close> is the size of the instruction at \<open>a\<close> and the address of its opcode,
  \<open>flags m a\<close> says whether it is a relative branch; \<open>short m a\<close> says that an instruction
  starts at \<open>a\<close> that is not an endless run of prefixes. The contract: a short instruction is
  decoded, it is not empty and at most 28 bytes long, it decodes the same way wherever its
  bytes are copied, and a 32-bit relative branch consists of its opcode and a displacement.
\<close>

locale insn_decoder =
  fixes decode :: "mem \<Rightarrow> addr \<Rightarrow> (u32 \<times> addr) option"
    and flags :: "mem \<Rightarrow> addr \<Rightarrow> u32"
    and short :: "mem \<Rightarrow> addr \<Rightarrow> bool"
  assumes decode_short: "short m a \<Longrightarrow>
      \<exists>n opcd. decode m a = Some (n, opcd) \<and> 0 < unat n \<and> unat n \<le> 28"
    and decode_local: "short m a \<Longrightarrow> decode m a = Some (n, opcd) \<Longrightarrow>
      (\<And>i. i < unat n \<Longrightarrow> m' (a' + word_of_nat i) = m (a + word_of_nat i)) \<Longrightarrow>
      short m' a' \<and> decode m' a' = Some (n, a' + (opcd - a)) \<and> flags m' a' = flags m a"
    and decode_rel32: "flags m a AND 0x40 \<noteq> 0 \<Longrightarrow>
      decode m a = Some (if flags m a AND 0x100 \<noteq> 0 then 6 else 5, a)"
begin

text \<open>A write elsewhere does not change what is decoded.\<close>

lemma decode_frame:
  assumes "short m a" and "decode m a = Some (n, opcd)"
    and "\<And>x. in_range a (unat n) x \<Longrightarrow> m' x = m x"
  shows "short m' a \<and> decode m' a = Some (n, opcd) \<and> flags m' a = flags m a"
proof -
  have "unat n < 2 ^ 32" using unsigned_less [of n] by simp
  then have "m' (a + word_of_nat i) = m (a + word_of_nat i)" if "i < unat n" for i
    using that assms(3) in_range_add [of i "unat n" a] by simp
  from decode_local [OF assms(1,2) this] show ?thesis by simp
qed

text \<open>An instruction copied to a disjoint buffer decodes as it did in its place.\<close>

lemma decode_copied:
  assumes "short m a" and "decode m a = Some (n, opcd)"
    and "disjoint_blocks d (unat n) a (unat n)"
  shows "short (memcpy m d a (unat n)) d
    \<and> decode (memcpy m d a (unat n)) d = Some (n, d + (opcd - a))
    \<and> flags (memcpy m d a (unat n)) d = flags m a"
proof -
  have "unat n < 2 ^ 32" using unsigned_less [of n] by simp
  then have "memcpy m d a (unat n) (d + word_of_nat i) = m (a + word_of_nat i)"
    if "i < unat n" for i
    using that assms(3) by (simp add: memcpy_bytes)
  from decode_local [OF assms(1,2) this] show ?thesis by simp
qed

end

section \<open>The hooking engine, as the initialisation code uses it\<close>

text \<open>
  \<open>install f g old s\<close> hooks the function at \<open>f\<close> with \<open>g\<close>; \<open>redir s f g\<close> says that calls of \<open>f\<close>
  end up in \<open>g\<close>. \<open>ready s H\<close> says that the functions of \<open>H\<close>, each with its pointer variable, are
  still to be hooked and do not disturb each other, \<open>kept s H f\<close> that none of their hooks touches
  the function \<open>f\<close>. The contract: a successful call redirects its function, and leaves alone
  what was redirected before.
\<close>

locale hook_installer =
  fixes install :: "addr \<Rightarrow> addr \<Rightarrow> addr \<Rightarrow> 's \<Rightarrow> (bool \<times> 's) option"
    and redir :: "'s \<Rightarrow> addr \<Rightarrow> addr \<Rightarrow> bool"
    and ready :: "'s \<Rightarrow> (addr \<times> addr) list \<Rightarrow> bool"
    and kept :: "'s \<Rightarrow> (addr \<times> addr) list \<Rightarrow> addr \<Rightarrow> bool"
  assumes install_redirects: "ready s ((f, old) # H) \<Longrightarrow> install f g old s = Some (True, t) \<Longrightarrow>
      redir t f g \<and> ready t H \<and> kept t H f"
    and install_keeps: "ready s ((f, old) # H) \<Longrightarrow> kept s ((f, old) # H) f' \<Longrightarrow> redir s f' g' \<Longrightarrow>
      install f g old s = Some (True, t) \<Longrightarrow> redir t f' g' \<and> kept t H f'"
begin

text \<open>A sequence of successful installations redirects every function of the sequence.\<close>

fun installs :: "(addr \<times> addr \<times> addr) list \<Rightarrow> 's \<Rightarrow> 's \<Rightarrow> bool" where
  "installs [] s u \<longleftrightarrow> u = s"
| "installs ((f, g, old) # hs) s u \<longleftrightarrow> (\<exists>t. install f g old s = Some (True, t) \<and> installs hs t u)"

abbreviation (input) sites :: "(addr \<times> addr \<times> addr) list \<Rightarrow> (addr \<times> addr) list" where
  "sites hs \<equiv> map (\<lambda>(f, g, old). (f, old)) hs"

lemma installs_keep:
  assumes "installs hs s u" and "ready s (sites hs)" and "kept s (sites hs) f" and "redir s f g"
  shows "redir u f g"
  using assms
proof (induction hs s u rule: installs.induct)
  case (2 f' g' old hs s u)
  from 2(2) obtain t where t: "install f' g' old s = Some (True, t)" and rest: "installs hs t u"
    by auto
  from install_redirects [OF _ t] install_keeps [OF _ _ 2(5) t] 2(3,4)
  have "ready t (sites hs)" "kept t (sites hs) f" "redir t f g" by auto
  with 2(1) [OF rest] show ?case by blast
qed simp

lemma installs_redirect:
  assumes "installs hs s u" and "ready s (sites hs)" and "(f, g, old) \<in> set hs"
  shows "redir u f g"
  using assms
proof (induction hs s u rule: installs.induct)
  case (2 f' g' old' hs s u)
  from 2(2) obtain t where t: "install f' g' old' s = Some (True, t)" and rest: "installs hs t u"
    by auto
  from install_redirects [OF _ t] 2(3)
  have r: "redir t f' g'" "ready t (sites hs)" "kept t (sites hs) f'" by auto
  show ?case
  proof (cases "(f, g, old) = (f', g', old')")
    case True
    with installs_keep [OF rest r(2,3,1)] show ?thesis by simp
  next
    case False
    with 2(1) [OF rest r(2)] 2(4) show ?thesis by auto
  qed
qed simp

end

section \<open>The registry of debug items, as the handlers use it\<close>

text \<open>
  \<open>find_item x y\<close> looks for an active item with debugger \<open>x\<close> and debugged process \<open>y\<close> (\<open>NULL\<close>
  matches all) and takes a reference; \<open>deref_item\<close> gives a reference back. \<open>refs s a\<close> is the number
  of references to the item at \<open>a\<close>, none where there is no item; \<open>relations\<close> lists the active items.
  The contract: neither operation faults while the references are right, and they change
  nothing else.
\<close>

locale item_registry =
  fixes find_item :: "addr \<Rightarrow> addr \<Rightarrow> 's \<Rightarrow> 'f + addr \<times> 's"
    and deref_item :: "addr \<Rightarrow> 's \<Rightarrow> 'f + unit \<times> 's"
    and refs :: "'s \<Rightarrow> addr \<Rightarrow> nat"
    and relations :: "'s \<Rightarrow> (addr \<times> addr \<times> addr) list"
    and ok :: "'s \<Rightarrow> bool"
  assumes find_ok: "ok s \<Longrightarrow> (\<And>a. refs s a < 2 ^ 32 - 1) \<Longrightarrow>
      \<exists>r t. find_item x y s = Inr (r, t) \<and> ok t \<and> relations t = relations s
        \<and> (r = NULL \<longrightarrow> refs t = refs s
             \<and> (\<forall>(a, x', y') \<in> set (relations s). \<not> ((x = NULL \<or> x' = x) \<and> (y = NULL \<or> y' = y))))
        \<and> (r \<noteq> NULL \<longrightarrow> 0 < refs s r \<and> refs t = (refs s)(r := Suc (refs s r))
             \<and> (\<exists>x' y'. (r, x', y') \<in> set (relations s) \<and> (x = NULL \<or> x' = x) \<and> (y = NULL \<or> y' = y)))"
    and deref_ok: "ok s \<Longrightarrow> 0 < refs s a \<Longrightarrow>
      \<exists>t. deref_item a s = Inr ((), t) \<and> ok t \<and> refs t = (refs s)(a := refs s a - 1)
        \<and> (1 < refs s a \<longrightarrow> relations t = relations s)"
begin

text \<open>
  A handler that finds an item, works while it holds the reference and gives it back: the work
  may change anything that leaves the registry well formed and the handler's reference in
  place, and then giving it back does not fault.
\<close>

lemma bracket:
  assumes "ok s" and "\<And>a. refs s a < 2 ^ 32 - 1" and "find_item x y s = Inr (r, t)" and "r \<noteq> NULL"
    and "ok u" and "refs t r \<le> refs u r + n" and "n \<le> refs s r"
  shows "\<exists>v. deref_item r u = Inr ((), v) \<and> ok v \<and> refs s r \<le> refs v r + n"
proof -
  from find_ok [of s x y] assms(1-4) have "refs t = (refs s)(r := Suc (refs s r))" by auto
  then have "0 < refs u r" "refs s r \<le> refs u r - 1 + n" using assms(6,7) by auto
  with deref_ok [OF assms(5), of r] show ?thesis by auto
qed

text \<open>Without other holders at work the references and relations end as they began.\<close>

lemma bracket_same:
  assumes "ok s" and "\<And>a. refs s a < 2 ^ 32 - 1" and "find_item x y s = Inr (r, t)" and "r \<noteq> NULL"
    and "ok u" and "refs u = refs t" and "relations u = relations t"
  shows "\<exists>v. deref_item r u = Inr ((), v) \<and> ok v \<and> refs v = refs s \<and> relations v = relations s"
proof -
  from find_ok [of s x y] assms(1-4)
  have t: "refs t = (refs s)(r := Suc (refs s r))" "relations t = relations s" "0 < refs s r" by auto
  then have "1 < refs u r" using assms(6) by simp
  with deref_ok [OF assms(5), of r] t assms(6,7) show ?thesis by auto
qed

end

end
