(* ===== verification/Ldasm_Size.thy ===== *)
theory Ldasm_Size
  imports Ldasm Interfaces
begin

text \<open>
  Facts about \<open>size_of_code\<close>: where the prefix loop ends, the bounds of an instruction's
  size, the agreement of the ModRM arithmetic with the format of the processor manuals, and
  the locality of decoding (the size depends on the bytes of the instruction alone, wherever
  they lie), which is what lets the hooking code move instructions.
\<close>

section \<open>Opcode classes\<close>

lemma code_flags_byte: "code_flags (ucast b) = ucast (flag_at (unat b))" for b :: u8
proof -
  have "unat b < 2 ^ 8" using unsigned_less [of b] by simp
  then have "(ucast b :: u32) < 0x200" by (simp add: word_less_nat_alt)
  from code_flags_at [OF this] show ?thesis by simp
qed

lemma byte_less: "unat b < 256" for b :: u8
  using unsigned_less [of b] by simp

definition is_prefix :: "u8 \<Rightarrow> bool" where
  "is_prefix b \<longleftrightarrow> code_flags (ucast b) AND OP_PREFIX \<noteq> 0"

lemma ucast8_and_zero:
  "((ucast f :: u32) AND ucast c \<noteq> 0) = (f AND c \<noteq> 0)" for f c :: u8
proof -
  have "(ucast f :: u32) AND ucast c = ucast (f AND c)"
    by (rule bit_word_eqI) (auto simp: bit_simps)
  then show ?thesis
    by (metis ucast8_inj unsigned_0)
qed

lemma is_prefix_iff: "is_prefix b \<longleftrightarrow> map_prefix (unat b)"
  using ucast8_and_zero [where f = "flag_at (unat b)" and c = "0x20"]
    flag_at_prefix [OF byte_less [of b]]
  by (simp add: is_prefix_def code_flags_byte)

lemma is_prefix_bytes:
  "is_prefix b \<longleftrightarrow> b \<in> {0x26, 0x2E, 0x36, 0x3E, 0x64, 0x65, 0x66, 0x67, 0xF0, 0xF2, 0xF3}"
  by (simp add: is_prefix_iff map_prefix_def word_unat_eq_iff)

section \<open>The prefix loop\<close>

text \<open>
  \<open>prefix_run m a k\<close>: exactly \<open>k\<close> prefix bytes lie at \<open>a\<close>. \<open>saw b m a k\<close>: one of them is \<open>b\<close>.
\<close>

definition prefix_run :: "mem \<Rightarrow> addr \<Rightarrow> nat \<Rightarrow> bool" where
  "prefix_run m a k \<longleftrightarrow>
     (\<forall>i<k. is_prefix (m (a + word_of_nat i))) \<and> \<not> is_prefix (m (a + word_of_nat k))"

definition saw :: "u8 \<Rightarrow> mem \<Rightarrow> addr \<Rightarrow> nat \<Rightarrow> bool" where
  "saw b m a k \<longleftrightarrow> (\<exists>i<k. m (a + word_of_nat i) = b)"

lemma prefix_run_0 [simp]: "prefix_run m a 0 \<longleftrightarrow> \<not> is_prefix (m a)"
  by (simp add: prefix_run_def)

lemma all_less_Suc: "(\<forall>i<Suc k. P i) \<longleftrightarrow> P 0 \<and> (\<forall>i<k. P (Suc i))"
  by (auto simp: less_Suc_eq_0_disj)

lemma ex_less_Suc: "(\<exists>i<Suc k. P i) \<longleftrightarrow> P 0 \<or> (\<exists>i<k. P (Suc i))"
  by (auto simp: less_Suc_eq_0_disj)

lemma prefix_run_Suc [simp]:
  "prefix_run m a (Suc k) \<longleftrightarrow> is_prefix (m a) \<and> prefix_run m (a + 1) k"
  by (auto simp: prefix_run_def all_less_Suc add.assoc)

lemma saw_0 [simp]: "\<not> saw b m a 0"
  by (simp add: saw_def)

lemma saw_Suc [simp]: "saw b m a (Suc k) \<longleftrightarrow> m a = b \<or> saw b m (a + 1) k"
  by (simp add: saw_def ex_less_Suc add.assoc)

lemma skip_prefixes_step:
  "skip_prefixes m a n p q =
     (if is_prefix (m a)
      then skip_prefixes m (a + 1) (n + 1) (if m a = 0x66 then 1 else p) (if m a = 0x67 then 1 else q)
      else Some (a, n, p, q))"
  by (subst skip_prefixes.simps) (simp add: is_prefix_def)

lemma skip_prefixes_run:
  "prefix_run m a k \<Longrightarrow> skip_prefixes m a n p q =
     Some (a + word_of_nat k, n + word_of_nat k,
           if saw 0x66 m a k then 1 else p, if saw 0x67 m a k then 1 else q)"
proof (induction k arbitrary: a n p q)
  case 0
  then show ?case by (subst skip_prefixes_step) simp
next
  case (Suc k)
  then have "is_prefix (m a)" and "prefix_run m (a + 1) k" by auto
  with Suc.IH show ?case by (subst skip_prefixes_step) (simp add: add.assoc)
qed

lemma skip_prefixes_SomeD:
  assumes "skip_prefixes m a n p q = Some r"
  shows "\<exists>k. prefix_run m a k"
proof (rule skip_prefixes.raw_induct [where P = "\<lambda>m a n p q r. \<exists>k. prefix_run m a k", OF _ assms])
  fix f m a n p q r
  assume IH: "\<And>m a n p q r. f m a n p q = Some r \<Longrightarrow> \<exists>k. prefix_run m a k"
    and eq: "(if code_flags (ucast (m a)) AND OP_PREFIX \<noteq> 0
      then f m (a + 1) (n + 1) (if m a = 0x66 then 1 else p) (if m a = 0x67 then 1 else q)
      else Some (a, n, p, q)) = Some r"
  show "\<exists>k. prefix_run m a k"
  proof (cases "is_prefix (m a)")
    case True
    with eq IH obtain k where "prefix_run m (a + 1) k"
      unfolding is_prefix_def by (metis (no_types, lifting))
    with True have "prefix_run m a (Suc k)" by simp
    then show ?thesis ..
  next
    case False
    then have "prefix_run m a 0" by simp
    then show ?thesis ..
  qed
qed

lemma prefix_run_unique: "prefix_run m a j \<Longrightarrow> prefix_run m a k \<Longrightarrow> j = k"
  unfolding prefix_run_def by (metis linorder_neqE_nat)

lemma size_of_code_run:
  "prefix_run m a k \<Longrightarrow> size_of_code m a =
     Some (opcode_size m (a + word_of_nat k) (word_of_nat k)
             (if saw 0x66 m a k then 1 else 0) (if saw 0x67 m a k then 1 else 0),
           a + word_of_nat k)"
  by (simp add: size_of_code_def skip_prefixes_run)

section \<open>The parts of an instruction\<close>

text \<open>
  The size as a sum: prefixes, opcode bytes, ModRM with SIB and displacement, immediate.
\<close>

definition opcode_of :: "mem \<Rightarrow> addr \<Rightarrow> u32" where
  "opcode_of m c = (if m c = 0x0F then ucast (m (c + 1)) OR OP_EXTENDED else ucast (m c))"

definition modrm_len :: "u32 \<Rightarrow> u8 \<Rightarrow> u8 \<Rightarrow> u32" where
  "modrm_len q b s =
     1 + sib_size q (drop_bit 6 b) (b AND 7) s (disp_size q (drop_bit 6 b) (b AND 7))"

definition modrm_flags :: "u32 \<Rightarrow> u8 \<Rightarrow> u32 \<Rightarrow> u32" where
  "modrm_flags op1 b f =
     (let r = drop_bit 3 (b AND 0x38); f = (if op1 = 0xF6 \<and> r = 0 then f OR OP_DATA_I8 else f)
      in if op1 = 0xF7 \<and> r = 0 then f OR OP_DATA_PRE66_67 else f)"

definition data_len :: "u32 \<Rightarrow> u32 \<Rightarrow> u32" where
  "data_len p f = (if f AND OP_DATA_PRE66_67 \<noteq> 0 then 4 - push_bit 1 p else 0) + (f AND 7)"

definition opcode_bytes :: "mem \<Rightarrow> addr \<Rightarrow> u32" where
  "opcode_bytes m c = (if m c = 0x0F then 2 else 1)"

definition has_modrm :: "mem \<Rightarrow> addr \<Rightarrow> bool" where
  "has_modrm m c \<longleftrightarrow> code_flags (opcode_of m c) AND OP_MODRM \<noteq> 0"

definition final_flags :: "mem \<Rightarrow> addr \<Rightarrow> u32" where
  "final_flags m c =
     (if has_modrm m c
      then modrm_flags (ucast (m c)) (m (c + opcode_bytes m c)) (code_flags (opcode_of m c))
      else code_flags (opcode_of m c))"

text \<open>For \<open>A0\<close> to \<open>A3\<close> the address-size prefix takes the place of the operand-size prefix.\<close>

definition data_prefix :: "mem \<Rightarrow> addr \<Rightarrow> u32 \<Rightarrow> u32 \<Rightarrow> u32" where
  "data_prefix m c p q = (if m c \<noteq> 0x0F \<and> 0xA0 \<le> m c \<and> m c \<le> 0xA3 then q else p)"

lemma modrm_step_eq:
  "modrm_step m x op1 q f n =
     (modrm_flags op1 (m x) f, n + modrm_len q (m x) (m (x + 1)))"
  by (simp add: modrm_step_def modrm_flags_def modrm_len_def Let_def)

lemma ucast8_le: "(ucast a :: u32) \<le> ucast b \<longleftrightarrow> a \<le> b" for a b :: u8
  by (simp add: word_le_nat_alt)

lemma ucast8_eq_numeral: "(ucast a :: u32) = 0x0F \<longleftrightarrow> a = 0x0F" for a :: u8
  using ucast8_inj [of a "0x0F"] by simp

lemma ucast8_le_A0: "(0xA0 :: u32) \<le> ucast a \<longleftrightarrow> 0xA0 \<le> a" for a :: u8
  using ucast8_le [of "0xA0" a] by simp

lemma ucast8_le_A3: "(ucast a :: u32) \<le> 0xA3 \<longleftrightarrow> a \<le> 0xA3" for a :: u8
  using ucast8_le [of a "0xA3"] by simp

lemma opcode_size_parts:
  "opcode_size m c n p q = n + (opcode_bytes m c
     + (if has_modrm m c
        then modrm_len q (m (c + opcode_bytes m c)) (m (c + opcode_bytes m c + 1)) else 0)
     + data_len (data_prefix m c p q) (final_flags m c))"
proof (cases "m c = 0x0F")
  case True
  then show ?thesis
    by (simp add: opcode_size_def Let_def modrm_step_eq has_modrm_def opcode_of_def
        final_flags_def opcode_bytes_def data_prefix_def data_len_def add.assoc)
next
  case False
  then show ?thesis
    by (simp add: opcode_size_def Let_def modrm_step_eq has_modrm_def opcode_of_def
        final_flags_def opcode_bytes_def data_prefix_def data_len_def add.assoc
        ucast8_eq_numeral ucast8_le_A0 ucast8_le_A3)
qed

section \<open>Bounds\<close>

lemma opcode_of_less: "opcode_of m c < 0x200"
proof -
  have small: "(ucast b :: u32) < 0x100" for b :: u8
    using unsigned_less [of b] by (simp add: word_less_nat_alt)
  have "(ucast b :: u32) OR 0x100 < 0x200" for b :: u8
  proof -
    have "(ucast b :: u32) OR 0x100 = take_bit 9 ((ucast b :: u32) OR 0x100)"
      by (rule bit_word_eqI) (auto simp: bit_simps bit_numeral_rec dest: bit_imp_le_length)
    moreover have "unat (take_bit 9 ((ucast b :: u32) OR 0x100)) < 2 ^ 9"
      unfolding unsigned_take_bit_eq by (rule take_bit_nat_less_exp)
    ultimately show ?thesis by (simp add: word_less_nat_alt)
  qed
  then show ?thesis using small [of "m c"]
    by (auto simp: opcode_of_def intro: less_trans)
qed

lemma modrm_len_values: "modrm_len q b s \<in> {1, 2, 3, 5, 6}"
  by (auto simp: modrm_len_def sib_size_def disp_size_def)

lemma code_flags_cases: "code_flags (opcode_of m c) \<in> {0, 1, 2, 3, 8, 9, 16, 18, 24, 32, 80, 129}"
  by (rule code_flags_values [OF opcode_of_less, of m c]) (auto simp: flag_values_def)

lemma final_flags_values:
  "final_flags m c \<in> {0, 1, 2, 3, 8, 9, 16, 18, 24, 25, 32, 80, 129}"
proof -
  let ?f = "code_flags (opcode_of m c)"
  show ?thesis
  proof (cases "has_modrm m c")
    case True
    then have "?f \<in> {8, 9, 24}" using code_flags_cases [of m c] by (auto simp: has_modrm_def)
    then show ?thesis using True by (auto simp: final_flags_def modrm_flags_def Let_def)
  next
    case False
    then show ?thesis using code_flags_cases [of m c] by (auto simp: final_flags_def)
  qed
qed

lemma data_len_values:
  assumes "p \<in> {0, 1}"
  shows "data_len p (final_flags m c) \<in> {0, 1, 2, 3, 4, 5, 6}"
  using final_flags_values [of m c] assms by (auto simp: data_len_def)

lemma data_prefix_bit: "p \<in> {0, 1} \<Longrightarrow> q \<in> {0, 1} \<Longrightarrow> data_prefix m c p q \<in> {0, 1}"
  by (simp add: data_prefix_def)

text \<open>The size in natural numbers: nothing wraps.\<close>

definition modrm_part :: "mem \<Rightarrow> addr \<Rightarrow> u32 \<Rightarrow> u32" where
  "modrm_part m c q = (if has_modrm m c
     then modrm_len q (m (c + opcode_bytes m c)) (m (c + opcode_bytes m c + 1)) else 0)"

lemma unat_modrm_part: "unat (modrm_part m c q) \<le> 6"
  using modrm_len_values [of q "m (c + opcode_bytes m c)" "m (c + opcode_bytes m c + 1)"]
  by (auto simp: modrm_part_def)

lemma unat_data_len:
  "p \<in> {0, 1} \<Longrightarrow> unat (data_len p (final_flags m c)) \<le> 6"
  using data_len_values [of p m c] by auto

lemma unat_opcode_bytes: "unat (opcode_bytes m c) = (if m c = 0x0F then 2 else 1)"
  by (simp add: opcode_bytes_def)

lemma unat_opcode_size:
  assumes "p \<in> {0, 1}" and "q \<in> {0, 1}"
  shows "unat (opcode_size m c 0 p q) = unat (opcode_bytes m c)
     + unat (modrm_part m c q) + unat (data_len (data_prefix m c p q) (final_flags m c))"
proof -
  let ?d = "data_len (data_prefix m c p q) (final_flags m c)"
  have d: "unat ?d \<le> 6" by (rule unat_data_len [OF data_prefix_bit [OF assms]])
  note b = unat_opcode_bytes [of m c] unat_modrm_part [of m c q] d
  have 1: "unat (opcode_bytes m c + modrm_part m c q)
      = unat (opcode_bytes m c) + unat (modrm_part m c q)"
    using b by (intro unat_add_small) (simp split: if_splits)
  have "unat (opcode_bytes m c + modrm_part m c q + ?d)
      = unat (opcode_bytes m c + modrm_part m c q) + unat ?d"
    using b 1 by (intro unat_add_small) (simp split: if_splits)
  then show ?thesis unfolding 1 by (simp add: opcode_size_parts modrm_part_def)
qed

lemma opcode_size_bounds:
  assumes "p \<in> {0, 1}" and "q \<in> {0, 1}"
  shows "1 \<le> unat (opcode_size m c 0 p q)" and "unat (opcode_size m c 0 p q) \<le> 14"
proof -
  have d: "unat (data_len (data_prefix m c p q) (final_flags m c)) \<le> 6"
    by (rule unat_data_len [OF data_prefix_bit [OF assms]])
  note b = unat_opcode_size [OF assms, of m c] unat_opcode_bytes [of m c]
    unat_modrm_part [of m c q] d
  show "1 \<le> unat (opcode_size m c 0 p q)" using b by (simp split: if_splits)
  show "unat (opcode_size m c 0 p q) \<le> 14" using b by (simp split: if_splits)
qed

section \<open>Decoding is local\<close>

text \<open>
  Two instructions whose bytes agree have the same size, wherever they lie and whatever
  follows them: the decoder never looks past the size it returns.
\<close>

lemma modrm_len_sib:
  "unat (modrm_len q b s) < 2 \<Longrightarrow> modrm_len q b s = modrm_len q b s'"
  by (auto simp: modrm_len_def sib_size_def disp_size_def split: if_splits)

lemma modrm_part_local:
  assumes op: "has_modrm m' c' = has_modrm m c" "opcode_bytes m' c' = opcode_bytes m c"
    and b: "has_modrm m c \<Longrightarrow> m' (c' + opcode_bytes m c) = m (c + opcode_bytes m c)"
    and s: "2 \<le> unat (modrm_part m c q) \<Longrightarrow>
      m' (c' + opcode_bytes m c + 1) = m (c + opcode_bytes m c + 1)"
  shows "modrm_part m' c' q = modrm_part m c q"
proof (cases "has_modrm m c")
  case True
  show ?thesis
  proof (cases "2 \<le> unat (modrm_part m c q)")
    case True
    with op b s \<open>has_modrm m c\<close> show ?thesis by (simp add: modrm_part_def)
  next
    case False
    with op b \<open>has_modrm m c\<close> show ?thesis
      by (simp add: modrm_part_def)
        (rule modrm_len_sib [symmetric], simp)
  qed
qed (simp add: modrm_part_def op)

lemma opcode_size_local:
  assumes pq: "p \<in> {0, 1}" "q \<in> {0, 1}"
    and same: "\<And>i. i < unat (opcode_size m c 0 p q) \<Longrightarrow>
      m' (c' + word_of_nat i) = m (c + word_of_nat i)"
  shows "opcode_size m' c' 0 p q = opcode_size m c 0 p q"
proof -
  note u = unat_opcode_size [OF pq, of m c]
  have b0: "m' c' = m c" using same [of 0] u by (simp add: unat_opcode_bytes split: if_splits)
  have b1: "m c = 0x0F \<Longrightarrow> m' (c' + 1) = m (c + 1)"
    using same [of 1] u by (simp add: unat_opcode_bytes)
  have op: "opcode_of m' c' = opcode_of m c" "opcode_bytes m' c' = opcode_bytes m c"
    using b0 b1 by (auto simp: opcode_of_def opcode_bytes_def)
  have hm: "has_modrm m' c' = has_modrm m c" by (simp add: has_modrm_def op)
  define n where "n = (if m c = 0x0F then 2 else 1 :: nat)"
  have n: "opcode_bytes m c = word_of_nat n" "unat (opcode_bytes m c) = n"
    by (auto simp: opcode_bytes_def n_def)
  have one: "has_modrm m c \<Longrightarrow> 1 \<le> unat (modrm_part m c q)"
    using modrm_len_values [of q "m (c + opcode_bytes m c)" "m (c + opcode_bytes m c + 1)"]
    by (auto simp: modrm_part_def)
  have mb: "has_modrm m c \<Longrightarrow> m' (c' + opcode_bytes m c) = m (c + opcode_bytes m c)"
    using same [of n] u one n by simp
  have sb: "2 \<le> unat (modrm_part m c q) \<Longrightarrow>
      m' (c' + opcode_bytes m c + 1) = m (c + opcode_bytes m c + 1)"
    using same [of "Suc n"] u n by (simp add: ac_simps)
  have mp: "modrm_part m' c' q = modrm_part m c q"
    by (rule modrm_part_local [OF hm op(2) mb sb])
  have "final_flags m' c' = final_flags m c"
    using mb by (auto simp: final_flags_def hm op b0)
  then show ?thesis
    using mp by (simp add: opcode_size_parts op modrm_part_def data_prefix_def b0)
qed

section \<open>Agreement with the instruction format\<close>

text \<open>
  The bytes from the ModRM byte up to the end of the displacement, from the addressing-form
  tables of the processor manuals: with 16-bit addresses there is no SIB byte.
\<close>

definition modrm_bytes :: "bool \<Rightarrow> nat \<Rightarrow> nat \<Rightarrow> nat \<Rightarrow> nat" where
  "modrm_bytes addr16 md rm base =
     (if md = 3 then 1
      else if addr16 then
        1 + (if md = 1 then 1 else if md = 2 then 2 else if rm = 6 then 2 else 0)
      else
        (if rm = 4 then 2 else 1) +
        (if md = 1 then 1 else if md = 2 then 4
         else if rm = 5 \<or> rm = 4 \<and> base = 5 then 4 else 0))"

text \<open>A one-byte opcode that is neither a prefix nor the two-byte escape, with its operands.\<close>

definition insn_bytes :: "mem \<Rightarrow> addr \<Rightarrow> bool \<Rightarrow> bool \<Rightarrow> nat" where
  "insn_bytes m c opsize16 addr16 =
     (let op = unat (m c); b = unat (m (c + 1)); reg = b div 8 mod 8 in
      1
      + (if map_modrm op
         then modrm_bytes addr16 (b div 64) (b mod 8) (unat (m (c + 2)) mod 8) else 0)
      + (if map_imm8 op \<or> op = 0xF6 \<and> reg = 0 then 1 else 0)
      + (if map_imm16 op then 2 else 0)
      + (if map_immz op \<or> op = 0xF7 \<and> reg = 0
         then (if (if 0xA0 \<le> op \<and> op \<le> 0xA3 then addr16 else opsize16) then 2 else 4)
         else 0))"

lemma byte_fields:
  fixes b :: u8
  shows "unat (drop_bit 6 b) = unat b div 64" and "unat (b AND 7) = unat b mod 8"
    and "unat (drop_bit 3 (b AND 0x38)) = unat b div 8 mod 8"
proof -
  show "unat (drop_bit 6 b) = unat b div 64"
    by (simp add: drop_bit_eq_div unat_div)
  have "b AND 7 = take_bit 3 b" by (simp add: take_bit_eq_mask mask_eq_exp_minus_1)
  then show "unat (b AND 7) = unat b mod 8"
    by (simp add: take_bit_eq_mod unat_mod)
  have "drop_bit 3 (b AND 0x38) = take_bit 3 (drop_bit 3 b)"
    by (rule bit_word_eqI) (auto simp: bit_simps bit_numeral_rec split: nat.splits)
  then show "unat (drop_bit 3 (b AND 0x38)) = unat b div 8 mod 8"
    by (simp add: take_bit_eq_mod drop_bit_eq_div unat_mod unat_div)
qed

lemma modrm_len_bytes:
  assumes "q \<in> {0, 1}"
  shows "unat (modrm_len q b s) =
     modrm_bytes (q = 1) (unat b div 64) (unat b mod 8) (unat s mod 8)"
proof -
  have mod: "unat b div 64 \<in> {0, 1, 2, 3}" using byte_less [of b] by auto
  have eq: "drop_bit 6 b = k \<longleftrightarrow> unat b div 64 = unat k"
    "b AND 7 = k \<longleftrightarrow> unat b mod 8 = unat k" "s AND 7 = k \<longleftrightarrow> unat s mod 8 = unat k" for k
    by (simp_all only: word_unat_eq_iff byte_fields)
  have "q = 0 \<or> q = 1" using assms by simp
  then show ?thesis using mod
    by (elim disjE insertE)
      (simp_all add: modrm_len_def sib_size_def disp_size_def modrm_bytes_def eq)
qed

lemma one_byte_fields:
  assumes "m c \<noteq> 0x0F"
  shows "has_modrm m c \<longleftrightarrow> map_modrm (unat (m c))"
    and "code_flags (opcode_of m c) AND OP_DATA_PRE66_67 \<noteq> 0 \<longleftrightarrow> map_immz (unat (m c))"
    and "code_flags (opcode_of m c) AND 7 = ucast (map_imm (unat (m c)))"
proof -
  let ?f = "flag_at (unat (m c))"
  have F: "code_flags (opcode_of m c) = ucast ?f"
    using assms by (simp add: opcode_of_def code_flags_byte)
  note fields = flag_at_fields [OF byte_less [of "m c"]]
  show "has_modrm m c \<longleftrightarrow> map_modrm (unat (m c))"
    using ucast8_and_zero [where f = ?f and c = 8] fields by (simp add: has_modrm_def F)
  show "code_flags (opcode_of m c) AND OP_DATA_PRE66_67 \<noteq> 0 \<longleftrightarrow> map_immz (unat (m c))"
    using ucast8_and_zero [where f = ?f and c = 16] fields by (simp add: F)
  have "(ucast ?f :: u32) AND 7 = ucast (?f AND 7)"
    by (rule bit_word_eqI) (auto simp: bit_simps bit_numeral_rec split: nat.splits)
  then show "code_flags (opcode_of m c) AND 7 = ucast (map_imm (unat (m c)))"
    using fields by (simp add: F)
qed

lemma group3_flags: "code_flags 0xF6 = 8" "code_flags 0xF7 = 8"
proof -
  have "unat (flag_at 0xF6) = 8" "unat (flag_at 0xF7) = 8"
    by (simp_all add: flag_at_one_byte map_defs)
  then have "flag_at 0xF6 = 8" "flag_at 0xF7 = 8" by (simp_all add: word_unat_eq_iff)
  then show "code_flags 0xF6 = 8" "code_flags 0xF7 = 8" by (simp_all add: code_flags_at)
qed

lemma unat_map_imm:
  "unat (ucast (map_imm op) :: u32) = (if map_imm8 op then 1 else 0) + (if map_imm16 op then 2 else 0)"
  by (simp add: map_imm_def)

lemma modrm_flags_reg:
  "modrm_flags op1 b f =
     (if op1 = 0xF6 \<and> unat b div 8 mod 8 = 0 then f OR OP_DATA_I8
      else if op1 = 0xF7 \<and> unat b div 8 mod 8 = 0 then f OR OP_DATA_PRE66_67 else f)"
  unfolding modrm_flags_def Let_def word_unat_eq_iff [of "drop_bit 3 (b AND 0x38)"] byte_fields
  by simp

lemma one_byte_data_len:
  assumes nx: "m c \<noteq> 0x0F" and p: "p \<in> {0, 1}"
  defines "op \<equiv> unat (m c)" and "reg \<equiv> unat (m (c + 1)) div 8 mod 8"
  shows "unat (data_len p (final_flags m c)) =
     (if map_imm8 op \<or> op = 0xF6 \<and> reg = 0 then 1 else 0)
     + (if map_imm16 op then 2 else 0)
     + (if map_immz op \<or> op = 0xF7 \<and> reg = 0 then (if p = 1 then 2 else 4) else 0)"
proof -
  have op1: "opcode_bytes m c = 1" using nx by (simp add: opcode_bytes_def)
  note fields = one_byte_fields [where m = m and c = c, OF nx, folded op_def]
  consider (f6) "m c = 0xF6" "reg = 0" | (f7) "m c = 0xF7" "reg = 0"
    | (other) "op = 0xF6 \<longrightarrow> reg \<noteq> 0" "op = 0xF7 \<longrightarrow> reg \<noteq> 0"
    unfolding op_def by (auto simp: word_unat_eq_iff)
  then show ?thesis
  proof cases
    case f6
    have "has_modrm m c" using f6 fields(1) by (simp add: op_def map_modrm_def)
    moreover have "opcode_of m c = 0xF6" using f6 by (simp add: opcode_of_def)
    ultimately have "final_flags m c = 9"
      using f6(2)[unfolded reg_def] f6(1)
      by (simp add: final_flags_def modrm_flags_reg op1 group3_flags)
    then show ?thesis using f6 by (simp add: data_len_def op_def map_defs)
  next
    case f7
    have "has_modrm m c" using f7 fields(1) by (simp add: op_def map_modrm_def)
    moreover have "opcode_of m c = 0xF7" using f7 by (simp add: opcode_of_def)
    ultimately have "final_flags m c = 24"
      using f7(2)[unfolded reg_def] f7(1)
      by (simp add: final_flags_def modrm_flags_reg op1 group3_flags)
    then show ?thesis using f7 p by (auto simp: data_len_def op_def map_defs)
  next
    case other
    have "(ucast (m c) :: u32) = 0xF6 \<longleftrightarrow> op = 0xF6" "(ucast (m c) :: u32) = 0xF7 \<longleftrightarrow> op = 0xF7"
      by (simp_all add: word_unat_eq_iff op_def)
    then have "modrm_flags (ucast (m c)) (m (c + 1)) f = f" for f
      unfolding modrm_flags_reg reg_def [symmetric] using other by auto
    then have "final_flags m c = code_flags (opcode_of m c)"
      by (simp add: final_flags_def op1)
    then have "data_len p (final_flags m c)
        = (if map_immz op then 4 - push_bit 1 p else 0) + ucast (map_imm op)"
      using fields by (simp add: data_len_def)
    moreover have "unat ((if map_immz op then 4 - push_bit 1 p else 0) + ucast (map_imm op))
        = unat (if map_immz op then 4 - push_bit 1 p else 0) + unat (ucast (map_imm op) :: u32)"
      using p by (intro unat_add_small) (auto simp: map_imm_def)
    moreover have "unat (if map_immz op then 4 - push_bit 1 p else 0 :: u32)
        = (if map_immz op then if p = 1 then 2 else 4 else 0)"
      using p by auto
    ultimately show ?thesis using other unat_map_imm [of op] by simp
  qed
qed

lemma one_byte_size:
  assumes "m c \<noteq> 0x0F" and "p \<in> {0, 1}" and "q \<in> {0, 1}"
  shows "unat (opcode_size m c 0 p q) = insn_bytes m c (p = 1) (q = 1)"
proof -
  have "0xA0 \<le> m c \<and> m c \<le> 0xA3 \<longleftrightarrow> 0xA0 \<le> unat (m c) \<and> unat (m c) \<le> 0xA3"
    by (simp add: word_le_nat_alt)
  then have dp: "data_prefix m c p q = 1 \<longleftrightarrow>
      (if 0xA0 \<le> unat (m c) \<and> unat (m c) \<le> 0xA3 then q = 1 else p = 1)"
    using assms(1) by (simp add: data_prefix_def)
  show ?thesis
    using assms one_byte_fields(1) [where m = m and c = c, OF assms(1)]
    by (simp add: unat_opcode_size unat_opcode_bytes modrm_part_def opcode_bytes_def
        modrm_len_bytes [OF assms(3)] one_byte_data_len [where m = m and c = c, OF assms(1) data_prefix_bit [OF assms(2,3)]]
        insn_bytes_def Let_def dp add.commute [of 2 c])
qed

section \<open>The whole decoder\<close>

text \<open>
  \<open>short_insn m a\<close>: fewer than fifteen prefix bytes lie at \<open>a\<close>. No instruction the processor
  accepts has more than fifteen bytes, so all code that can run satisfies it.
\<close>

definition short_insn :: "mem \<Rightarrow> addr \<Rightarrow> bool" where
  "short_insn m a \<longleftrightarrow> (\<exists>k<15. prefix_run m a k)"

definition pfx :: "u8 \<Rightarrow> mem \<Rightarrow> addr \<Rightarrow> nat \<Rightarrow> u32" where
  "pfx b m a k = (if saw b m a k then 1 else 0)"

lemma pfx_bit: "pfx b m a k \<in> {0, 1}"
  by (simp add: pfx_def)

lemma unat_small: "k < 2 ^ 32 \<Longrightarrow> unat (word_of_nat k :: u32) = k"
  by (simp add: unat_of_nat take_bit_nat_eq_self)

lemma size_of_code_split:
  assumes "prefix_run m a k"
  shows "size_of_code m a = Some (word_of_nat k +
      opcode_size m (a + word_of_nat k) 0 (pfx 0x66 m a k) (pfx 0x67 m a k), a + word_of_nat k)"
  unfolding size_of_code_run [OF assms] pfx_def
  by (subst opcode_size_parts) (simp add: opcode_size_parts [where n = 0])

lemma size_of_code_unat:
  assumes run: "prefix_run m a k" and k: "k < 2 ^ 31" and sz: "size_of_code m a = Some (n, opcd)"
  shows "unat n = k + unat (opcode_size m (a + word_of_nat k) 0 (pfx 0x66 m a k) (pfx 0x67 m a k))"
    and "opcd = a + word_of_nat k" and "k < unat n" and "unat n \<le> k + 14"
proof -
  let ?s = "opcode_size m (a + word_of_nat k) 0 (pfx 0x66 m a k) (pfx 0x67 m a k)"
  have b: "1 \<le> unat ?s" "unat ?s \<le> 14" by (rule opcode_size_bounds [OF pfx_bit pfx_bit])+
  have n: "n = word_of_nat k + ?s" and "opcd = a + word_of_nat k"
    using sz size_of_code_split [OF run] by auto
  then show "opcd = a + word_of_nat k" by simp
  have uk: "unat (word_of_nat k :: u32) = k" using k by (intro unat_small) simp
  have "unat n = unat (word_of_nat k :: u32) + unat ?s"
    unfolding n by (rule unat_add_small) (use b uk k in simp)
  then show "unat n = k + unat ?s" by (simp only: uk)
  then show "k < unat n" "unat n \<le> k + 14" using b by auto
qed

lemma one_byte_decoded:
  assumes "prefix_run m a k" and "k < 2 ^ 31" and "m (a + word_of_nat k) \<noteq> 0x0F"
  shows "\<exists>n. size_of_code m a = Some (n, a + word_of_nat k)
    \<and> unat n = k + insn_bytes m (a + word_of_nat k) (saw 0x66 m a k) (saw 0x67 m a k)"
proof -
  obtain n opcd where sz: "size_of_code m a = Some (n, opcd)" using size_of_code_run [OF assms(1)] by simp
  note u = size_of_code_unat [OF assms(1,2) sz]
  have "pfx b m a k = 1 \<longleftrightarrow> saw b m a k" for b by (simp add: pfx_def)
  then have "unat n = k + insn_bytes m (a + word_of_nat k) (saw 0x66 m a k) (saw 0x67 m a k)"
    unfolding u(1)
    using one_byte_size [where m = m and c = "a + word_of_nat k" and p = "pfx 0x66 m a k"
        and q = "pfx 0x67 m a k", OF assms(3) pfx_bit pfx_bit] by simp
  then show ?thesis using sz u(2) by auto
qed

lemma saw_cong:
  "(\<And>i. i < k \<Longrightarrow> m' (a' + word_of_nat i) = m (a + word_of_nat i)) \<Longrightarrow> saw b m' a' k = saw b m a k"
  unfolding saw_def by metis

lemma prefix_run_cong:
  "(\<And>i. i \<le> k \<Longrightarrow> m' (a' + word_of_nat i) = m (a + word_of_nat i)) \<Longrightarrow>
   prefix_run m' a' k = prefix_run m a k"
  by (simp add: prefix_run_def)

lemma size_of_code_same_bytes:
  assumes run: "prefix_run m a k" and k: "k < 2 ^ 31" and sz: "size_of_code m a = Some (n, opcd)"
    and same: "\<And>i. i < unat n \<Longrightarrow> m' (a' + word_of_nat i) = m (a + word_of_nat i)"
  shows "prefix_run m' a' k" and "size_of_code m' a' = Some (n, a' + (opcd - a))"
proof -
  note u = size_of_code_unat [OF run k sz]
  let ?p = "pfx 0x66 m a k" and ?q = "pfx 0x67 m a k"
  have "prefix_run m' a' k = prefix_run m a k"
    by (rule prefix_run_cong) (use same u(3) in auto)
  with run show run': "prefix_run m' a' k" by simp
  have pq: "pfx 0x66 m' a' k = ?p" "pfx 0x67 m' a' k = ?q"
    using same u(3) saw_cong [where m = m and m' = m' and a = a and a' = a' and k = k]
    by (simp_all add: pfx_def)
  have "opcode_size m' (a' + word_of_nat k) 0 ?p ?q = opcode_size m (a + word_of_nat k) 0 ?p ?q"
  proof (rule opcode_size_local [OF pfx_bit pfx_bit])
    fix i assume "i < unat (opcode_size m (a + word_of_nat k) 0 ?p ?q)"
    then show "m' (a' + word_of_nat k + word_of_nat i) = m (a + word_of_nat k + word_of_nat i)"
      using same [of "k + i"] u(1) by (simp add: add.assoc)
  qed
  then show "size_of_code m' a' = Some (n, a' + (opcd - a))"
    using sz size_of_code_split [OF run] size_of_code_split [OF run'] u(2) by (auto simp: pq)
qed

section \<open>Relative branches\<close>

lemma x_code_flags_opcode_of:
  "x_code_flags m a = code_flags (opcode_of m a) OR (opcode_of m a AND OP_EXTENDED)"
  by (simp add: x_code_flags_def opcode_of_def Let_def)

lemma opcode_of_ext: "opcode_of m a AND OP_EXTENDED \<noteq> 0 \<longleftrightarrow> m a = 0x0F"
proof -
  have "(ucast b OR OP_EXTENDED) AND OP_EXTENDED \<noteq> 0" for b :: u8
  proof
    assume "(ucast b OR OP_EXTENDED) AND OP_EXTENDED = 0"
    then have "bit ((ucast b OR OP_EXTENDED) AND OP_EXTENDED) 8 = bit (0 :: u32) 8" by simp
    then show False by (simp add: bit_simps bit_numeral_rec)
  qed
  moreover have "(ucast b :: u32) AND OP_EXTENDED = 0" for b :: u8
    by (rule bit_word_eqI) (auto simp: bit_simps bit_numeral_rec dest: bit_imp_le_length split: nat.splits)
  ultimately show ?thesis by (simp add: opcode_of_def)
qed

lemma and_or_distrib: "(a OR b) AND c = (a AND c) OR (b AND c)" for a b c :: u32
  by (rule bit_word_eqI) (auto simp: bit_simps)

lemma x_code_flags_rel32: "x_code_flags m a AND OP_REL32 \<noteq> 0 \<longleftrightarrow> code_flags (opcode_of m a) = 80"
proof -
  have "(w AND OP_EXTENDED) AND OP_REL32 = 0" for w :: u32
    by (simp add: and.assoc)
  then show ?thesis using code_flags_cases [of m a]
    by (auto simp: x_code_flags_opcode_of and_or_distrib)
qed

lemma x_code_flags_rel8: "x_code_flags m a AND OP_REL8 \<noteq> 0 \<longleftrightarrow> code_flags (opcode_of m a) = 129"
proof -
  have "(w AND OP_EXTENDED) AND OP_REL8 = 0" for w :: u32
    by (simp add: and.assoc)
  then show ?thesis using code_flags_cases [of m a]
    by (auto simp: x_code_flags_opcode_of and_or_distrib)
qed

lemma x_code_flags_extended: "x_code_flags m a AND OP_EXTENDED \<noteq> 0 \<longleftrightarrow> m a = 0x0F"
proof -
  have "code_flags (opcode_of m a) AND OP_EXTENDED = 0"
    using code_flags_cases [of m a] by auto
  then show ?thesis
    using opcode_of_ext [of m a] by (simp add: x_code_flags_opcode_of and_or_distrib and.assoc)
qed

text \<open>A branch with a 32-bit displacement is its opcode and the displacement.\<close>

lemma rel32_no_prefix: "code_flags (opcode_of m a) = 80 \<Longrightarrow> \<not> is_prefix (m a)"
proof (cases "m a = 0x0F")
  case True
  then show "code_flags (opcode_of m a) = 80 \<Longrightarrow> \<not> is_prefix (m a)" by (simp add: is_prefix_bytes)
next
  case False
  then show "code_flags (opcode_of m a) = 80 \<Longrightarrow> \<not> is_prefix (m a)"
    by (simp add: is_prefix_def opcode_of_def)
qed

lemma size_of_rel32:
  assumes "code_flags (opcode_of m a) = 80"
  shows "size_of_code m a = Some (if m a = 0x0F then 6 else 5, a)"
proof -
  have run: "prefix_run m a 0" using rel32_no_prefix [OF assms] by simp
  have "\<not> has_modrm m a" by (simp add: has_modrm_def assms)
  moreover have "data_prefix m a 0 0 = 0" by (simp add: data_prefix_def)
  ultimately show ?thesis
    by (simp add: size_of_code_run [OF run] opcode_size_parts final_flags_def assms data_len_def
        opcode_bytes_def)
qed

lemma x_code_flags_cong:
  "m' a' = m a \<Longrightarrow> (m a = 0x0F \<Longrightarrow> m' (a' + 1) = m (a + 1)) \<Longrightarrow> x_code_flags m' a' = x_code_flags m a"
  by (simp add: x_code_flags_opcode_of opcode_of_def)

lemma escape_size:
  assumes "m a = 0x0F" and "size_of_code m a = Some (n, opcd)"
  shows "1 < unat n"
proof -
  have run: "prefix_run m a 0" using assms by (simp add: is_prefix_bytes)
  have "unat (opcode_size m a 0 0 0) \<ge> 2"
    by (subst unat_opcode_size) (simp_all add: unat_opcode_bytes assms)
  then show ?thesis using size_of_code_unat(1) [OF run _ assms(2)] by (simp add: pfx_def)
qed

text \<open>Which opcodes the flags mark.\<close>

lemma unat_extended: "unat (ucast b OR OP_EXTENDED :: u32) = unat b + 256" for b :: u8
proof -
  have "ucast b + OP_EXTENDED = (ucast b OR OP_EXTENDED :: u32)"
    by (rule disjunctive_add) (auto simp: bit_simps bit_numeral_rec dest: bit_imp_le_length split: nat.splits)
  moreover have "unat (ucast b + OP_EXTENDED :: u32) = unat b + 256"
    using byte_less [of b] by (subst unat_add_small) simp_all
  ultimately show ?thesis by simp
qed

lemma flags_rel:
  "(code_flags (opcode_of m a) = 80) = map_rel32_ext (unat (opcode_of m a))"
  "(code_flags (opcode_of m a) = 129) = map_rel8 (unat (opcode_of m a))"
proof -
  have less: "unat (opcode_of m a) < 512"
    using opcode_of_less [of m a] by (simp add: word_less_nat_alt)
  have cf: "code_flags (opcode_of m a) = ucast (flag_at (unat (opcode_of m a)))"
    by (rule code_flags_at [OF opcode_of_less])
  have v: "unat (code_flags (opcode_of m a)) \<in> {0, 1, 2, 3, 8, 9, 16, 18, 24, 32, 80, 129}"
    using code_flags_cases [of m a] by auto
  then have w: "flag_at (unat (opcode_of m a)) \<in> {0, 1, 2, 3, 8, 9, 16, 18, 24, 32, 80, 129}"
    unfolding cf by (simp add: word_unat_eq_iff)
  have e: "(code_flags (opcode_of m a) = 80) = (flag_at (unat (opcode_of m a)) = 80)"
    "(code_flags (opcode_of m a) = 129) = (flag_at (unat (opcode_of m a)) = 129)"
    unfolding cf by (simp_all add: word_unat_eq_iff)
  have "(flag_at (unat (opcode_of m a)) = 80) = (flag_at (unat (opcode_of m a)) AND 0xC0 = 0x40)"
    "(flag_at (unat (opcode_of m a)) = 129) = (flag_at (unat (opcode_of m a)) AND 0xC0 = 0x80)"
    using w by auto
  with e flag_at_rel [OF less]
  show "(code_flags (opcode_of m a) = 80) = map_rel32_ext (unat (opcode_of m a))"
    "(code_flags (opcode_of m a) = 129) = map_rel8 (unat (opcode_of m a))"
    by simp_all
qed

lemma opcode_of_nat: "unat (opcode_of m a) = (if m a = 0x0F then unat (m (a + 1)) + 256 else unat (m a))"
  by (simp add: opcode_of_def unat_extended)

lemma rel8_opcodes: "x_code_flags m a AND OP_REL8 \<noteq> 0 \<longleftrightarrow> map_rel8 (unat (m a))"
  unfolding x_code_flags_rel8 flags_rel opcode_of_nat by (auto simp: map_rel8_def)

lemma rel32_opcodes: "x_code_flags m a AND OP_REL32 \<noteq> 0 \<longleftrightarrow>
    m a = 0xE8 \<or> m a = 0xE9 \<or> m a = 0x0F \<and> 0x80 \<le> m (a + 1) \<and> m (a + 1) \<le> 0x8F"
  using byte_less [of "m a"] unfolding x_code_flags_rel32 flags_rel opcode_of_nat
  by (auto simp: map_rel32_ext_def map_rel32_def word_le_nat_alt word_unat_eq_iff)

section \<open>The decoder provides its interface\<close>

interpretation ldasm: insn_decoder size_of_code x_code_flags short_insn
proof
  fix m a
  assume "short_insn m a"
  then obtain k where k: "k < 15" and run: "prefix_run m a k" by (auto simp: short_insn_def)
  obtain n opcd where sz: "size_of_code m a = Some (n, opcd)"
    using size_of_code_split [OF run] by simp
  have "k < 2 ^ 31" using k by simp
  from size_of_code_unat [OF run this sz] k sz
  show "\<exists>n opcd. size_of_code m a = Some (n, opcd) \<and> 0 < unat n \<and> unat n \<le> 28" by auto
next
  fix m m' :: mem and a a' :: addr and n opcd
  assume short: "short_insn m a" and sz: "size_of_code m a = Some (n, opcd)"
    and same: "\<And>i. i < unat n \<Longrightarrow> m' (a' + word_of_nat i) = m (a + word_of_nat i)"
  from short obtain k where k: "k < 15" and run: "prefix_run m a k" by (auto simp: short_insn_def)
  have k31: "k < 2 ^ 31" using k by simp
  note s = size_of_code_same_bytes [OF run k31 sz, of m' a', OF same]
  have "k < unat n" by (rule size_of_code_unat(3) [OF run k31 sz])
  then have b0: "m' a' = m a" using same [of 0] by simp
  have "m a = 0x0F \<Longrightarrow> m' (a' + 1) = m (a + 1)"
    using same [of 1] escape_size [OF _ sz] by simp
  then have "x_code_flags m' a' = x_code_flags m a" by (intro x_code_flags_cong) (use b0 in auto)
  with s k show "short_insn m' a' \<and> size_of_code m' a' = Some (n, a' + (opcd - a))
      \<and> x_code_flags m' a' = x_code_flags m a"
    by (auto simp: short_insn_def)
next
  fix m a
  assume "x_code_flags m a AND 0x40 \<noteq> 0"
  then have "code_flags (opcode_of m a) = 80" using x_code_flags_rel32 by simp
  from size_of_rel32 [OF this]
  show "size_of_code m a = Some (if x_code_flags m a AND 0x100 \<noteq> 0 then 6 else 5, a)"
    using x_code_flags_extended [of m a] by simp
qed

end
