(* ===== verification/Ldasm_Properties.thy ===== *)
theory Ldasm_Properties
  imports Ldasm_Size
begin

text \<open>What the instruction decoder promises, and instances of it on concrete code.\<close>

section \<open>When the decoder returns\<close>

lemma first_non_prefix:
  "\<not> is_prefix (m (a + word_of_nat k)) \<Longrightarrow> \<exists>j. prefix_run m a j"
proof -
  assume ex: "\<not> is_prefix (m (a + word_of_nat k))"
  define j where "j = (LEAST i. \<not> is_prefix (m (a + word_of_nat i)))"
  have "\<not> is_prefix (m (a + word_of_nat j))" unfolding j_def
    by (rule LeastI [where P = "\<lambda>i. \<not> is_prefix (m (a + word_of_nat i))", OF ex])
  moreover have "is_prefix (m (a + word_of_nat i))" if "i < j" for i
    using not_less_Least [OF that [unfolded j_def]] by simp
  ultimately show ?thesis unfolding prefix_run_def by blast
qed

text \<open>C6: \<open>size_of_code\<close> fails to return exactly when every byte of the address space is a prefix
  byte; otherwise it returns a size and the address of the opcode.\<close>

theorem size_of_code_returns: "size_of_code m a = None \<longleftrightarrow> (\<forall>x. is_prefix (m x))"
proof
  assume none: "size_of_code m a = None"
  show "\<forall>x. is_prefix (m x)"
  proof (rule ccontr)
    assume "\<not> (\<forall>x. is_prefix (m x))"
    then obtain x where "\<not> is_prefix (m x)" by blast
    then have "\<not> is_prefix (m (a + word_of_nat (unat (x - a))))" by simp
    then obtain j where "prefix_run m a j" using first_non_prefix by blast
    then show False using none size_of_code_run by simp
  qed
next
  assume all: "\<forall>x. is_prefix (m x)"
  show "size_of_code m a = None"
  proof (cases "skip_prefixes m a 0 0 0")
    case None
    then show ?thesis by (simp add: size_of_code_def)
  next
    case (Some r)
    then obtain k where "prefix_run m a k" using skip_prefixes_SomeD by blast
    then show ?thesis using all by (simp add: prefix_run_def)
  qed
qed

section \<open>The table\<close>

text \<open>For every opcode the decoder looks up, a one-byte opcode or a two-byte one marked with
  \<open>OP_EXTENDED\<close>, both reads of \<open>code_flags\<close> are inside \<open>packed_table\<close>: the first in the row index,
  the second in the flag bytes after it.\<close>

theorem code_flags_in_table:
  "\<forall>b :: u8. let op1 = ucast b; op2 = ucast b OR OP_EXTENDED in
     unat (op1 div 4) < 128 \<and> unat (op2 div 4) < 128
   \<and> 128 \<le> unat (flag_index op1) \<and> unat (flag_index op1) < length packed_table
   \<and> 128 \<le> unat (flag_index op2) \<and> unat (flag_index op2) < length packed_table"
proof
  fix b :: u8
  have 1: "ucast b < (0x200 :: u32)" using byte_less [of b] by (simp add: word_less_nat_alt)
  have 2: "ucast b OR OP_EXTENDED < (0x200 :: u32)"
    using opcode_of_less [of "(\<lambda>_. 0x0F)(1 := b)" 0] by (simp add: opcode_of_def)
  show "let op1 = ucast b; op2 = ucast b OR OP_EXTENDED in
     unat (op1 div 4) < 128 \<and> unat (op2 div 4) < 128
   \<and> 128 \<le> unat (flag_index op1) \<and> unat (flag_index op1) < length packed_table
   \<and> 128 \<le> unat (flag_index op2) \<and> unat (flag_index op2) < length packed_table"
    using table_in_bounds [OF 1] table_in_bounds [OF 2] 1 2
    by (simp add: Let_def word_less_nat_alt unat_div less_mult_imp_div_less)
qed

text \<open>\<open>x_code_flags\<close> marks as short relative branches exactly the opcodes 70 to 7F, E0 to E3
  and EB, and as 32-bit relative branches exactly E8, E9 and the two-byte opcodes 0F 80 to
  0F 8F; it looks at the first byte only, so a branch behind a prefix is not marked.\<close>

theorem branch_flags:
  "(x_code_flags m a AND OP_REL8 \<noteq> 0 \<longleftrightarrow> map_rel8 (unat (m a)))
   \<and> (x_code_flags m a AND OP_REL32 \<noteq> 0 \<longleftrightarrow>
        m a = 0xE8 \<or> m a = 0xE9 \<or> m a = 0x0F \<and> 0x80 \<le> m (a + 1) \<and> m (a + 1) \<le> 0x8F)"
  using rel8_opcodes rel32_opcodes by blast

section \<open>The size\<close>

text \<open>C5: for an instruction with a one-byte opcode, \<open>size_of_code\<close> is the number of its prefix
  bytes plus the size the processor manuals give for the opcode with its ModRM byte, SIB byte,
  displacement and immediate, under the operand-size and address-size prefixes present, and
  \<open>*opcd\<close> points at the opcode.\<close>

theorem size_of_code_one_byte:
  assumes "prefix_run m a k" and "k < 2 ^ 31" and "m (a + word_of_nat k) \<noteq> 0x0F"
  shows "\<exists>n. size_of_code m a = Some (n, a + word_of_nat k)
    \<and> unat n = k + insn_bytes m (a + word_of_nat k) (saw 0x66 m a k) (saw 0x67 m a k)"
  by (rule one_byte_decoded [OF assms])

definition mov_disp :: mem where
  "mov_disp = (\<lambda>_. 0)(0x100 := 0x66, 0x101 := 0xC7, 0x102 := 0x44, 0x103 := 0x24, 0x104 := 0x08)"

text \<open>\<open>66 C7 44 24 08 00 00\<close>, \<open>mov word ptr [esp+8], 0\<close>: a prefix, ModRM, SIB, one byte of
  displacement and a 16-bit immediate.\<close>

lemma size_of_code_one_byte_witness:
  "\<exists>n. size_of_code mov_disp 0x100 = Some (n, 0x101) \<and> unat n = 7"
proof -
  have run: "prefix_run mov_disp 0x100 1"
    by (simp add: prefix_run_def mov_disp_def is_prefix_bytes)
  show ?thesis
    using size_of_code_one_byte [OF run]
    by (simp add: mov_disp_def saw_def insn_bytes_def Let_def modrm_bytes_def map_modrm_def
        map_imm8_def map_imm16_def map_immz_def)
qed

text \<open>The decoder reads nothing but the instruction: where the \<open>n\<close> bytes of a decoded
  instruction are found at another address of another memory, they decode to the same size, the
  same opcode offset and the same branch flags. This is what makes moving code possible.\<close>

theorem decode_position_independent:
  assumes "short_insn m a" and "size_of_code m a = Some (n, opcd)"
    and "\<forall>i<unat n. m' (a' + word_of_nat i) = m (a + word_of_nat i)"
  shows "size_of_code m' a' = Some (n, a' + (opcd - a)) \<and> x_code_flags m' a' = x_code_flags m a"
  using ldasm.decode_local [OF assms(1,2)] assms(3) by blast

lemma decode_position_independent_witness:
  "size_of_code (\<lambda>x. mov_disp (x - 0x1000)) 0x1100 = Some (7, 0x1101)"
proof -
  have run: "prefix_run mov_disp 0x100 1"
    by (simp add: prefix_run_def mov_disp_def is_prefix_bytes)
  then have short: "short_insn mov_disp 0x100" unfolding short_insn_def by (intro exI [of _ 1]) simp
  have "insn_bytes mov_disp 0x101 True False = 6"
    by (simp add: mov_disp_def insn_bytes_def Let_def modrm_bytes_def map_modrm_def
        map_imm8_def map_imm16_def map_immz_def)
  then obtain n where n: "size_of_code mov_disp 0x100 = Some (n, 0x101)" "unat n = 7"
    using one_byte_decoded [OF run] by (auto simp: mov_disp_def saw_def)
  then have "n = 7" by (simp add: word_unat_eq_iff)
  with n have "size_of_code mov_disp 0x100 = Some (7, 0x101)" by simp
  from decode_position_independent [where m' = "\<lambda>x. mov_disp (x - 0x1000)" and a' = "0x1100", OF short this]
  show ?thesis by (simp add: algebra_simps)
qed

end
