(* ===== verification/Kernel.thy ===== *)
theory Kernel
  imports Prelude
begin

text \<open>
  The kernel side of the driver: status codes, the log of the executive services the driver
  calls, the state every component works on (memory, pool, control register, interrupt flag,
  IRQL), and the small services of \<open>src/kernel/sys/misc.c\<close> that change it directly.

  The executive (\<open>Ob*\<close>, \<open>Ps*\<close>, \<open>Zw*\<close>, the pool) is not part of the repository. A call of
  it appears in the log \<open>calls\<close> in the order the code makes it, and what it answers is a
  parameter: the addresses the pool will hand out are the list \<open>pool\<close> of the state, where
  an exhausted list and a \<open>NULL\<close> entry are failed allocations.
\<close>

section \<open>Status codes\<close>

type_synonym ntstatus = u32
type_synonym handle = addr

definition NT_SUCCESS :: "ntstatus \<Rightarrow> bool" where
  "NT_SUCCESS st \<longleftrightarrow> 0 \<le> sint st"

abbreviation (input) STATUS_SUCCESS :: ntstatus where "STATUS_SUCCESS \<equiv> 0"
abbreviation (input) STATUS_USER_APC :: ntstatus where "STATUS_USER_APC \<equiv> 0xC0"
abbreviation (input) STATUS_UNSUCCESSFUL :: ntstatus where "STATUS_UNSUCCESSFUL \<equiv> 0xC0000001"
abbreviation (input) STATUS_INFO_LENGTH_MISMATCH :: ntstatus where
  "STATUS_INFO_LENGTH_MISMATCH \<equiv> 0xC0000004"

lemma NT_SUCCESS_0 [simp]: "NT_SUCCESS 0"
  by (simp add: NT_SUCCESS_def)

section \<open>The log of executive calls\<close>

datatype kcall =
    PoolAlloc u32 addr            \<comment> \<open>\<open>ExAllocatePool\<close>: bytes, answer\<close>
  | PoolFree addr                 \<comment> \<open>\<open>ExFreePool\<close>\<close>
  | ObRef addr                    \<comment> \<open>a reference to a process or thread object was taken\<close>
  | ObDeref addr                  \<comment> \<open>\<open>ObDereferenceObject\<close>\<close>
  | SpinAcquire                   \<comment> \<open>\<open>KeAcquireSpinLock(&dbg_item_lock)\<close>\<close>
  | SpinRelease                   \<comment> \<open>\<open>KeReleaseSpinLock(&dbg_item_lock)\<close>\<close>
  | CloseHandle handle            \<comment> \<open>\<open>ZwClose\<close>\<close>
  | TerminateProcess handle ntstatus  \<comment> \<open>\<open>NtTerminateProcess\<close>, through the hooked entry\<close>
  | OldTerminateProcess handle ntstatus
  | OldTerminateThread handle ntstatus
  | OldCreateThread bool          \<comment> \<open>with the value of \<open>CreateSuspended\<close> passed on\<close>
  | ResumeThread handle
  | OldDispatchException
  | StartThread addr              \<comment> \<open>\<open>PsCreateSystemThread\<close> of a delayed event\<close>
  | AllocateMdl addr u32 addr     \<comment> \<open>\<open>IoAllocateMdl\<close>: buffer, size, answer\<close>
  | FreeMdl addr
  | LockPages addr bool           \<comment> \<open>\<open>MmProbeAndLockPages\<close>: did it return normally\<close>
  | UnlockPages addr
  | MapPages addr addr            \<comment> \<open>\<open>MmMapLockedPages\<close>: mdl, answer\<close>
  | UnmapPages addr addr
  | SetImageNotify

record kstate =
  kmem :: mem
  pool :: "addr list"
  cr0 :: u64
  intr :: bool
  irql :: u8
  calls :: "kcall list"

definition log_call :: "kcall \<Rightarrow> 'z kstate_scheme \<Rightarrow> 'z kstate_scheme" where
  "log_call c s = s\<lparr>calls := calls s @ [c]\<rparr>"

section \<open>Pool and memory protection\<close>

text \<open>\<open>mem_alloc(x)\<close> and \<open>mem_free(x)\<close> of \<open>inc/defines.h\<close>, in the driver build.\<close>

definition mem_alloc :: "u32 \<Rightarrow> 'z kstate_scheme \<Rightarrow> addr \<times> 'z kstate_scheme" where
  "mem_alloc n s = (case pool s of
     [] \<Rightarrow> (NULL, log_call (PoolAlloc n NULL) s)
   | p # ps \<Rightarrow> (p, log_call (PoolAlloc n p) (s\<lparr>pool := ps\<rparr>)))"

definition mem_free :: "addr \<Rightarrow> 'z kstate_scheme \<Rightarrow> 'z kstate_scheme" where
  "mem_free p s = log_call (PoolFree p) s"

text \<open>
  \<open>mem_open\<close> turns interrupts off, clears the write-protect bit of \<open>cr0\<close> and returns the old
  value; \<open>mem_close\<close> writes a value back and turns interrupts on.
\<close>

definition mem_open :: "'z kstate_scheme \<Rightarrow> u64 \<times> 'z kstate_scheme" where
  "mem_open s = (cr0 s, s\<lparr>intr := False, cr0 := cr0 s AND 0xFFFEFFFF\<rparr>)"

definition mem_close :: "u64 \<Rightarrow> 'z kstate_scheme \<Rightarrow> 'z kstate_scheme" where
  "mem_close c s = s\<lparr>cr0 := c, intr := True\<rparr>"

definition set_mem :: "mem \<Rightarrow> 'z kstate_scheme \<Rightarrow> 'z kstate_scheme" where
  "set_mem m s = s\<lparr>kmem := m\<rparr>"

named_theorems kernel_simps \<open>what the small services leave alone\<close>

lemma log_call_simps [kernel_simps]:
  "kmem (log_call c s) = kmem s" "pool (log_call c s) = pool s" "cr0 (log_call c s) = cr0 s"
  "intr (log_call c s) = intr s" "irql (log_call c s) = irql s"
  "calls (log_call c s) = calls s @ [c]"
  by (simp_all add: log_call_def)

lemma mem_free_simps [kernel_simps]:
  "kmem (mem_free p s) = kmem s" "pool (mem_free p s) = pool s" "cr0 (mem_free p s) = cr0 s"
  "intr (mem_free p s) = intr s" "irql (mem_free p s) = irql s"
  "calls (mem_free p s) = calls s @ [PoolFree p]"
  by (simp_all add: mem_free_def kernel_simps)

lemma set_mem_simps [kernel_simps]:
  "kmem (set_mem m s) = m" "pool (set_mem m s) = pool s" "cr0 (set_mem m s) = cr0 s"
  "intr (set_mem m s) = intr s" "irql (set_mem m s) = irql s" "calls (set_mem m s) = calls s"
  by (simp_all add: set_mem_def)

lemma mem_close_simps [kernel_simps]:
  "kmem (mem_close c s) = kmem s" "pool (mem_close c s) = pool s" "cr0 (mem_close c s) = c"
  "intr (mem_close c s) = True" "irql (mem_close c s) = irql s"
  "calls (mem_close c s) = calls s"
  by (simp_all add: mem_close_def)

lemma mem_allocE:
  assumes "mem_alloc n s = (p, t)"
  shows "kmem t = kmem s" and "cr0 t = cr0 s" and "intr t = intr s" and "irql t = irql s"
    and "calls t = calls s @ [PoolAlloc n p]" and "pool s \<noteq> [] \<Longrightarrow> p = hd (pool s)"
    and "pool t = tl (pool s)" and "pool s = [] \<Longrightarrow> p = NULL"
  using assms by (auto simp: mem_alloc_def kernel_simps split: list.splits)

lemma mem_alloc_Cons:
  "pool s = p # ps \<Longrightarrow> mem_alloc n s = (p, log_call (PoolAlloc n p) (s\<lparr>pool := ps\<rparr>))"
  by (simp add: mem_alloc_def)

text \<open>The pool blocks a piece of the log allocated and did not free.\<close>

fun pool_live :: "kcall list \<Rightarrow> addr list \<Rightarrow> addr list" where
  "pool_live [] ps = ps"
| "pool_live (PoolAlloc n p # cs) ps = pool_live cs (if p = NULL then ps else p # ps)"
| "pool_live (PoolFree p # cs) ps = pool_live cs (remove1 p ps)"
| "pool_live (_ # cs) ps = pool_live cs ps"

end
