(* ===== verification/Code_Hook.thy ===== *)
theory Code_Hook
  imports Kernel Ldasm
begin

text \<open>
  The hooking engine of \<open>src/kernel/sys/code_hook.c\<close>: \<open>hot_patch\<close> for functions compiled
  with room for a hot patch (and for functions that were hot patched before), \<open>hook_code\<close>
  for the others, and \<open>set_hook\<close>, which tries them in this order and records what was done.
  \<open>old_proc\<close> is the address of the pointer variable that receives the entry to the original
  code, so its contents live in the same memory as the code that is patched.
\<close>

section \<open>State\<close>

abbreviation (input) HOOK_TYPE_SPLICING :: u32 where "HOOK_TYPE_SPLICING \<equiv> 1"
abbreviation (input) HOOK_TYPE_HOT_PATCH :: u32 where "HOOK_TYPE_HOT_PATCH \<equiv> 2"
abbreviation (input) HOOK_TYPE_DOUBLE_HOT_PATCH :: u32 where "HOOK_TYPE_DOUBLE_HOT_PATCH \<equiv> 3"

record hook_descriptor =
  hook_type :: u32
  src_proc :: addr
  old_proc :: addr
  new_proc :: addr
  old_code_size :: u32

text \<open>
  The descriptors by address, and the list they are chained into. The list entry inside the
  structure is represented by the position in \<open>hook_descriptor_list\<close>.
\<close>

record hstate = kstate +
  descs :: "addr \<rightharpoonup> hook_descriptor"
  hook_descriptor_list :: "addr list"

definition set_desc :: "addr \<Rightarrow> hook_descriptor \<Rightarrow> 'z hstate_scheme \<Rightarrow> 'z hstate_scheme" where
  "set_desc a d s = s\<lparr>descs := (descs s)(a \<mapsto> d)\<rparr>"

definition sizeof_hook_descriptor :: u32 where
  "sizeof_hook_descriptor = 28"

section \<open>Jumps\<close>

text \<open>\<open>set_jump(a,b)\<close> of \<open>inc/defines.h\<close>.\<close>

definition set_jump :: "mem \<Rightarrow> addr \<Rightarrow> addr \<Rightarrow> mem" where
  "set_jump m a b = wr32 (wr8 m a 0xE9) (a + 1) (b - a - 5)"

section \<open>hot_patch\<close>

text \<open>\<open>check hot patch ability\<close>: five bytes of padding before the function.\<close>

definition hot_patch_room :: "mem \<Rightarrow> addr \<Rightarrow> bool" where
  "hot_patch_room m src \<longleftrightarrow>
     m (src - 5) = 0x90 \<and> rd32 m (src - 4) = 0x90909090
   \<or> m (src - 5) = 0xCC \<and> rd32 m (src - 4) = 0xCCCCCCCC"

text \<open>
  The inner \<open>if\<close> that sets \<open>*old_proc\<close>: either the function starts with \<open>mov edi,edi\<close>, or its
  first instruction has two bytes, which then move to a fresh buffer followed by a jump back.
  The flag says whether patching goes on; when it is false the descriptor is already freed.
\<close>

definition hot_patch_old ::
  "addr \<Rightarrow> addr \<Rightarrow> addr \<Rightarrow> 'z hstate_scheme \<Rightarrow> (bool \<times> 'z hstate_scheme) option" where
  "hot_patch_old src old hook_desc s =
     (if rd16 (kmem s) src = 0xFF8B
      then Some (True, set_mem (wr32 (kmem s) old (src + 2)) s)
      else case size_of_code (kmem s) src of
        None \<Rightarrow> None
      | Some (cmd_len, opcd) \<Rightarrow>
          if cmd_len \<noteq> 2 then Some (False, mem_free hook_desc s)
          else let (dst_addr, s) = mem_alloc 16 s in
            if dst_addr = NULL then Some (False, mem_free hook_desc s)
            else let m = wr32 (kmem s) old dst_addr;
                     m = memcpy m dst_addr src (unat cmd_len);
                     m = set_jump m (dst_addr + cmd_len) (src + cmd_len)
                 in Some (True, set_mem m s))"

definition hot_patch ::
  "addr \<Rightarrow> addr \<Rightarrow> addr \<Rightarrow> 'z hstate_scheme \<Rightarrow> (addr \<times> 'z hstate_scheme) option" where
  "hot_patch src new old s =
     (if new = NULL \<or> src = NULL \<or> old = NULL then Some (NULL, s)
      else let (hook_desc, s) = mem_alloc sizeof_hook_descriptor s in
      if hook_desc = NULL then Some (NULL, s)
      else if hot_patch_room (kmem s) src then
        (case hot_patch_old src old hook_desc s of
           None \<Rightarrow> None
         | Some (False, s) \<Rightarrow> Some (NULL, s)
         | Some (True, s) \<Rightarrow>
             let (c, s) = mem_open s;
                 m = set_jump (kmem s) (src - 5) new;
                 m = wr16 m src 0xF9EB;
                 s = mem_close c (set_mem m s)
             in Some (hook_desc, set_desc hook_desc
                  \<lparr>hook_type = HOOK_TYPE_HOT_PATCH, src_proc = src,
                   old_proc = rd32 (kmem s) old, new_proc = new, old_code_size = 2\<rparr> s))
      else if rd16 (kmem s) src = 0xF9EB \<and> kmem s (src - 5) = 0xE9 then
        (let m = wr32 (kmem s) old (rd32 (kmem s) (src - 4));
             m = wr32 m old (addof src (rd32 m old));
             (c, s) = mem_open (set_mem m s);
             s = set_mem (wr32 (kmem s) (src - 4) (new - src)) s;
             s = set_desc hook_desc
                  \<lparr>hook_type = HOOK_TYPE_DOUBLE_HOT_PATCH, src_proc = src,
                   old_proc = rd32 (kmem s) old, new_proc = new, old_code_size = 0\<rparr> s
         in Some (hook_desc, mem_close c s))
      else Some (NULL, s))"

section \<open>hook_code\<close>

text \<open>
  The copy loop. Each round moves one instruction to the buffer and corrects a 32-bit relative
  branch by the distance moved; a short branch, which cannot be corrected, stops it. The loop
  ends once five bytes are moved: \<open>Some (dst_addr, src_addr, all_len)\<close>, or \<open>None\<close> where the
  function frees its blocks and returns \<open>NULL\<close>.
\<close>

definition relocate_branch :: "mem \<Rightarrow> addr \<Rightarrow> addr \<Rightarrow> u32 \<Rightarrow> mem" where
  "relocate_branch m dst src flags =
     (if flags AND OP_REL32 \<noteq> 0
      then (if flags AND OP_EXTENDED \<noteq> 0
            then wr32 m (dst + 2) (rd32 m (dst + 2) + (src - dst))
            else wr32 m (dst + 1) (rd32 m (dst + 1) + (src - dst)))
      else m)"

partial_function (option) splice_loop ::
  "mem \<Rightarrow> addr \<Rightarrow> addr \<Rightarrow> u32 \<Rightarrow> (mem \<times> (addr \<times> addr \<times> u32) option) option" where
  "splice_loop m dst src all_len =
     Option.bind (size_of_code m src) (\<lambda>(cmd_len, opcd).
       let flags = x_code_flags m src in
       if cmd_len = 0 \<or> flags AND OP_REL8 \<noteq> 0 then Some (m, None)
       else let m = relocate_branch (memcpy m dst src (unat cmd_len)) dst src flags in
         if all_len + cmd_len < 5
         then splice_loop m (dst + cmd_len) (src + cmd_len) (all_len + cmd_len)
         else Some (m, Some (dst + cmd_len, src + cmd_len, all_len + cmd_len)))"

text \<open>
  \<open>global_lock\<close> and \<open>global_unlock\<close> as the calling processor sees them once their waits are
  over; the protocol between the processors is the theory \<open>Global_Lock\<close>. The block for the
  DPC objects comes from the must-succeed pool.
\<close>

definition global_lock_effect :: "u32 \<Rightarrow> 'z kstate_scheme \<Rightarrow> u8 \<times> 'z kstate_scheme" where
  "global_lock_effect n_cpu s =
     (let (cpu_dpc, s) = mem_alloc (32 * n_cpu) s
      in (irql s, s\<lparr>irql := 2, intr := False\<rparr>))"

definition global_unlock_effect :: "u8 \<Rightarrow> 'z kstate_scheme \<Rightarrow> 'z kstate_scheme" where
  "global_unlock_effect old_irql s = s\<lparr>intr := True, irql := old_irql\<rparr>"

definition hook_code ::
  "u32 \<Rightarrow> addr \<Rightarrow> addr \<Rightarrow> addr \<Rightarrow> 'z hstate_scheme \<Rightarrow> (addr \<times> 'z hstate_scheme) option" where
  "hook_code n_cpu src new old s =
     (if new = NULL \<or> src = NULL \<or> old = NULL then Some (NULL, s)
      else let (hook_desc, s) = mem_alloc sizeof_hook_descriptor s in
      if hook_desc = NULL then Some (NULL, s)
      else let (buf_addr, s) = mem_alloc 64 s in
      if buf_addr = NULL then Some (NULL, mem_free hook_desc s)
      else case splice_loop (kmem s) buf_addr src 0 of
        None \<Rightarrow> None
      | Some (m, None) \<Rightarrow> Some (NULL, mem_free buf_addr (mem_free hook_desc (set_mem m s)))
      | Some (m, Some (dst_addr, src_addr, all_len)) \<Rightarrow>
          let m = wr8 m dst_addr 0xE9;
              m = wr32 m (dst_addr + 1) (src_addr - dst_addr - 5);
              m = wr32 m old buf_addr;
              (irq, s) = global_lock_effect n_cpu (set_mem m s);
              (c, s) = mem_open s;
              s = mem_close c (set_mem (set_jump (kmem s) src new) s);
              s = global_unlock_effect irq s
          in Some (hook_desc, set_desc hook_desc
               \<lparr>hook_type = HOOK_TYPE_SPLICING, src_proc = src,
                old_proc = rd32 (kmem s) old, new_proc = new, old_code_size = all_len\<rparr> s))"

section \<open>set_hook\<close>

definition insert_hook :: "addr \<Rightarrow> 'z hstate_scheme \<Rightarrow> 'z hstate_scheme" where
  "insert_hook h s = s\<lparr>hook_descriptor_list := hook_descriptor_list s @ [h]\<rparr>"

definition set_hook ::
  "u32 \<Rightarrow> addr \<Rightarrow> addr \<Rightarrow> addr \<Rightarrow> 'z hstate_scheme \<Rightarrow> (bool \<times> 'z hstate_scheme) option" where
  "set_hook n_cpu src new old s =
     (case hot_patch src new old s of
        None \<Rightarrow> None
      | Some (h, s) \<Rightarrow>
          if h \<noteq> NULL then Some (True, insert_hook h s)
          else case hook_code n_cpu src new old s of
            None \<Rightarrow> None
          | Some (h, s) \<Rightarrow> if h \<noteq> NULL then Some (True, insert_hook h s) else Some (False, s))"

definition init_hook_list :: "'z hstate_scheme \<Rightarrow> bool \<times> 'z hstate_scheme" where
  "init_hook_list s = (True, s\<lparr>hook_descriptor_list := []\<rparr>)"

end
