(* ===== verification/Hook_Facts.thy ===== *)
theory Hook_Facts
  imports Code_Hook Ldasm_Size
begin

text \<open>
  What hooking a function achieves: which jump the patched entry executes, what the pointer to
  the old function leads to, which bytes change, and when the attempt is refused. Jumps are
  followed with \<open>jump_to\<close>, the meaning of the two unconditional relative jumps.
\<close>

section \<open>Jumps in memory\<close>

definition jump_to :: "mem \<Rightarrow> addr \<Rightarrow> addr option" where
  "jump_to m a =
     (if m a = 0xE9 then Some (a + 5 + rd32 m (a + 1))
      else if m a = 0xEB then Some (a + 2 + scast (m (a + 1)))
      else None)"

lemma set_jump_to: "jump_to (set_jump m a b) a = Some b"
proof -
  have "set_jump m a b a = 0xE9"
    by (simp add: set_jump_def wr8_def wr32_def)
  then show ?thesis by (simp add: jump_to_def set_jump_def)
qed

lemma set_jump_other [mem_simps]: "\<not> in_range a 5 x \<Longrightarrow> set_jump m a b x = m x"
proof -
  assume x: "\<not> in_range a 5 x"
  then have "x \<noteq> a" "\<not> in_range (a + 1) 4 x" using in_range_Suc [of 4 a x] by auto
  then show ?thesis by (simp add: set_jump_def wr32_other wr8_other)
qed

lemma jump_to_cong:
  assumes "\<And>x. in_range a 5 x \<Longrightarrow> m' x = m x"
  shows "jump_to m' a = jump_to m a"
proof -
  have "m' (a + word_of_nat k) = m (a + word_of_nat k)" if "k < 5" for k
    using that assms in_range_add [of k 5 a] by simp
  from this [of 0] this [of 1] this [of 2] this [of 3] this [of 4]
  have b: "m' a = m a" "m' (a + 1) = m (a + 1)" "m' (a + 2) = m (a + 2)"
    "m' (a + 3) = m (a + 3)" "m' (a + 4) = m (a + 4)"
    by simp_all
  then have "rd32 m' (a + 1) = rd32 m (a + 1)" by (simp add: rd32_def add.assoc)
  with b show ?thesis by (simp add: jump_to_def)
qed

text \<open>\<open>0xF9EB\<close> stored at a function is a short jump to five bytes before it.\<close>

lemma short_jump_back: "jump_to (wr16 m a 0xF9EB) a = Some (a - 5)"
  by (simp add: jump_to_def wr16_def byte_of_def)

section \<open>Pool and frame\<close>

lemma hstate_log_simps [kernel_simps]:
  "descs (log_call c s) = descs s" "hook_descriptor_list (log_call c s) = hook_descriptor_list s"
  "descs (mem_free p s) = descs s" "hook_descriptor_list (mem_free p s) = hook_descriptor_list s"
  "descs (set_mem m s) = descs s" "hook_descriptor_list (set_mem m s) = hook_descriptor_list s"
  "descs (mem_close v s) = descs s" "hook_descriptor_list (mem_close v s) = hook_descriptor_list s"
  by (simp_all add: log_call_def mem_free_def set_mem_def mem_close_def)

lemma set_desc_simps [kernel_simps]:
  "kmem (set_desc a d s) = kmem s" "pool (set_desc a d s) = pool s" "calls (set_desc a d s) = calls s"
  "cr0 (set_desc a d s) = cr0 s" "intr (set_desc a d s) = intr s" "irql (set_desc a d s) = irql s"
  "descs (set_desc a d s) = (descs s)(a \<mapsto> d)"
  "hook_descriptor_list (set_desc a d s) = hook_descriptor_list s"
  by (simp_all add: set_desc_def)

lemma hot_patch_frame:
  fixes m :: mem and src new :: addr
  defines "m' \<equiv> wr16 (set_jump m (src - 5) new) src 0xF9EB"
  shows "jump_to m' src = Some (src - 5)"
    and "jump_to m' (src - 5) = Some new"
    and "\<And>x. \<not> in_range (src - 5) 7 x \<Longrightarrow> m' x = m x"
proof -
  show "jump_to m' src = Some (src - 5)" unfolding m'_def by (rule short_jump_back)
  have "jump_to m' (src - 5) = jump_to (set_jump m (src - 5) new) (src - 5)"
  proof (rule jump_to_cong)
    fix x assume "in_range (src - 5) 5 x"
    then obtain k where "k < 5" and x: "x = src - 5 + word_of_nat k" by (rule in_rangeE)
    then have "k \<in> {0, 1, 2, 3, 4}" by auto
    then have "\<not> in_range src 2 x" by (auto simp: x in_range_def unsigned_minus_1_eq_mask mask_eq_exp_minus_1)
    then show "m' x = set_jump m (src - 5) new x" by (simp add: m'_def wr16_other)
  qed
  then show "jump_to m' (src - 5) = Some new" by (simp add: set_jump_to)
  fix x assume "\<not> in_range (src - 5) 7 x"
  moreover have "in_range (src - 5) 7 x" if r: "in_range src 2 x"
  proof -
    from r obtain k where "k < 2" and x: "x = src + word_of_nat k" by (rule in_rangeE)
    then have "x = src - 5 + word_of_nat (k + 5)" by simp
    then show ?thesis using \<open>k < 2\<close> in_range_add [of "k + 5" 7 "src - 5"] by simp
  qed
  ultimately have "\<not> in_range src 2 x" and "\<not> in_range (src - 5) 5 x"
    using in_range_mono [of "src - 5" 5 x 7] by auto
  then show "m' x = m x" by (simp add: m'_def wr16_other set_jump_other)
qed

section \<open>Hot patching\<close>

text \<open>
  The layouts under which a hook can be reasoned about: the pointer variable lies outside the
  bytes that are patched, and the pool's next answers are usable blocks.
\<close>

definition hot_patch_bytes_free :: "addr \<Rightarrow> addr \<Rightarrow> bool" where
  "hot_patch_bytes_free src old \<longleftrightarrow> disjoint_blocks (src - 5) 7 old 4"

lemma rd32_keep:
  assumes "\<And>x. in_range a 4 x \<Longrightarrow> m' x = m x" shows "rd32 m' a = rd32 m a"
proof -
  have "m' (a + word_of_nat k) = m (a + word_of_nat k)" if "k < 4" for k
    using that assms in_range_add [of k 4 a] by simp
  from this [of 0] this [of 1] this [of 2] this [of 3] show ?thesis by (simp add: rd32_def)
qed

lemma rd32_outside:
  assumes "disjoint_blocks b n a 4" and "\<And>x. \<not> in_range b n x \<Longrightarrow> m' x = m x"
  shows "rd32 m' a = rd32 m a"
  by (rule rd32_keep) (use assms in \<open>auto simp: disjoint_blocks_def\<close>)

lemma wr32_outside:
  assumes "disjoint_blocks b n a 4" and "in_range b n x"
  shows "wr32 m a v x = m x"
  using assms by (intro wr32_other) (auto simp: disjoint_blocks_def)

lemma hot_patch_mov_edi:
  assumes nn: "src \<noteq> NULL" "new \<noteq> NULL" "old \<noteq> NULL"
    and pool: "pool s = h # ps" "h \<noteq> NULL"
    and room: "hot_patch_room (kmem s) src" and mov: "rd16 (kmem s) src = 0xFF8B"
    and free: "hot_patch_bytes_free src old"
  shows "\<exists>t. hot_patch src new old s = Some (h, t)
    \<and> jump_to (kmem t) src = Some (src - 5) \<and> jump_to (kmem t) (src - 5) = Some new
    \<and> rd32 (kmem t) old = src + 2
    \<and> (\<forall>x. \<not> in_range (src - 5) 7 x \<and> \<not> in_range old 4 x \<longrightarrow> kmem t x = kmem s x)
    \<and> cr0 t = cr0 s
    \<and> descs t h = Some \<lparr>hook_type = HOOK_TYPE_HOT_PATCH, src_proc = src,
        old_proc = src + 2, new_proc = new, old_code_size = 2\<rparr>"
proof -
  let ?m = "wr32 (kmem s) old (src + 2)"
  let ?m' = "wr16 (set_jump ?m (src - 5) new) src 0xF9EB"
  note frame = hot_patch_frame [where m = ?m and src = src and new = new]
  have rd: "rd32 ?m' old = src + 2"
    using rd32_outside [OF free [unfolded hot_patch_bytes_free_def] frame(3), of "\<lambda>x. x"] by simp
  define t where "t = snd (the (hot_patch src new old s))"
  have hp: "hot_patch src new old s = Some (h, t)" and km: "kmem t = ?m'" and c: "cr0 t = cr0 s"
    and d: "descs t h = Some \<lparr>hook_type = HOOK_TYPE_HOT_PATCH, src_proc = src,
        old_proc = rd32 ?m' old, new_proc = new, old_code_size = 2\<rparr>"
    using assms by (simp_all add: t_def hot_patch_def mem_alloc_Cons hot_patch_old_def mem_open_def
        kernel_simps Let_def)
  show ?thesis
    using frame rd by (intro exI [of _ t]) (simp add: hp km c d wr32_other)
qed

text \<open>Patching a function that is hot patched already puts the new hook in front of the old one.\<close>

definition hot_patched :: "mem \<Rightarrow> addr \<Rightarrow> bool" where
  "hot_patched m src \<longleftrightarrow> rd16 m src = 0xF9EB \<and> m (src - 5) = 0xE9"

lemma hot_patched_no_room: "hot_patched m src \<Longrightarrow> \<not> hot_patch_room m src"
  by (simp add: hot_patched_def hot_patch_room_def)

lemma hot_patched_jumps:
  assumes "hot_patched m src"
  shows "jump_to m src = Some (src - 5)" and "jump_to m (src - 5) = Some (src + rd32 m (src - 4))"
proof -
  have w: "wr16 m src (rd16 m src) = m"
  proof
    fix x
    have "byte_of 0 (rd16 m src) = m src" "byte_of 1 (rd16 m src) = m (src + 1)"
      by (rule bit_word_eqI; auto simp: byte_of_def rd16_def bit_simps dest: bit_imp_le_length)+
    then show "wr16 m src (rd16 m src) x = m x" by (simp add: wr16_def)
  qed
  show "jump_to m src = Some (src - 5)"
    using short_jump_back [of m src] w assms by (simp add: hot_patched_def)
  show "jump_to m (src - 5) = Some (src + rd32 m (src - 4))"
    using assms by (simp add: hot_patched_def jump_to_def)
qed

lemma hot_patch_makes_hot_patched:
  "hot_patched (wr16 (set_jump m (src - 5) new) src 0xF9EB) src"
proof -
  have "\<not> in_range src 2 (src - 5)" by (simp add: in_range_def)
  then show ?thesis by (simp add: hot_patched_def wr16_other)
      (simp add: set_jump_def wr8_def wr32_def)
qed

lemma hot_patch_mov_edi_state:
  assumes "src \<noteq> NULL" "new \<noteq> NULL" "old \<noteq> NULL" and "pool s = h # ps" "h \<noteq> NULL"
    and "hot_patch_room (kmem s) src" and "rd16 (kmem s) src = 0xFF8B"
    and "hot_patch src new old s = Some (h, t)"
  shows "pool t = ps" and "hot_patched (kmem t) src"
  using assms hot_patch_makes_hot_patched
  by (auto simp: hot_patch_def mem_alloc_Cons hot_patch_old_def mem_open_def kernel_simps Let_def)

lemma hot_patch_again:
  assumes nn: "src \<noteq> NULL" "new \<noteq> NULL" "old \<noteq> NULL"
    and pool: "pool s = h # ps" "h \<noteq> NULL"
    and patched: "hot_patched (kmem s) src" and free: "hot_patch_bytes_free src old"
  shows "\<exists>t. hot_patch src new old s = Some (h, t)
    \<and> hot_patched (kmem t) src \<and> jump_to (kmem t) (src - 5) = Some new
    \<and> Some (rd32 (kmem t) old) = jump_to (kmem s) (src - 5)
    \<and> (\<forall>x. \<not> in_range (src - 4) 4 x \<and> \<not> in_range old 4 x \<longrightarrow> kmem t x = kmem s x)
    \<and> cr0 t = cr0 s"
proof -
  let ?v = "src + rd32 (kmem s) (src - 4)"
  let ?m = "wr32 (wr32 (kmem s) old (rd32 (kmem s) (src - 4))) old ?v"
  let ?m' = "wr32 ?m (src - 4) (new - src)"
  define t where "t = snd (the (hot_patch src new old s))"
  have hp: "hot_patch src new old s = Some (h, t)" and km: "kmem t = ?m'" and c: "cr0 t = cr0 s"
    using nn pool patched hot_patched_no_room [OF patched]
    by (simp_all add: t_def hot_patch_def hot_patched_def mem_alloc_Cons mem_open_def
        kernel_simps Let_def addof_def)
  have small: "in_range (src - 5) 7 x" if "in_range (src - 4) 4 x" for x
  proof -
    from that obtain k where "k < 4" and x: "x = src - 4 + word_of_nat k" by (rule in_rangeE)
    then have "x = src - 5 + word_of_nat (Suc k)" by simp
    then show ?thesis using \<open>k < 4\<close> in_range_add [of "Suc k" 7 "src - 5"] by simp
  qed
  then have disj: "disjoint_blocks (src - 4) 4 old 4"
    using free by (auto simp: hot_patch_bytes_free_def disjoint_blocks_def)
  have "rd32 ?m' old = rd32 ?m old"
    by (rule rd32_outside [OF disj]) (rule wr32_other)
  then have rd: "rd32 ?m' old = ?v" by simp
  have keep: "?m' x = kmem s x" if "in_range (src - 5) 7 x" "\<not> in_range (src - 4) 4 x" for x
    using that free
    by (simp add: wr32_other wr32_outside [OF free [unfolded hot_patch_bytes_free_def]])
  have "?m' (src + k) = kmem s (src + k)" if "k \<in> {- 5, 0, 1}" for k
    by (rule keep) (use that in \<open>auto simp: in_range_def unsigned_minus_1_eq_mask mask_eq_exp_minus_1\<close>)
  from this [of "- 5"] this [of 0] this [of 1]
  have "?m' (src - 5) = kmem s (src - 5)" "?m' src = kmem s src" "?m' (src + 1) = kmem s (src + 1)"
    by simp_all
  then have patched': "hot_patched ?m' src"
    using patched by (simp add: hot_patched_def rd16_def)
  have "jump_to ?m' (src - 5) = Some new"
    using hot_patched_jumps(2) [OF patched'] by simp
  then show ?thesis
    using rd patched' hot_patched_jumps(2) [OF patched]
    by (intro exI [of _ t]) (simp add: hp km c wr32_other)
qed

text \<open>Where there is neither room nor an earlier patch, the descriptor block is lost.\<close>

lemma hot_patch_leak:
  assumes "src \<noteq> NULL" "new \<noteq> NULL" "old \<noteq> NULL" and "pool s = h # ps" "h \<noteq> NULL"
    and "\<not> hot_patch_room (kmem s) src" and "\<not> hot_patched (kmem s) src"
  shows "\<exists>t. hot_patch src new old s = Some (NULL, t)
    \<and> calls t = calls s @ [PoolAlloc sizeof_hook_descriptor h] \<and> kmem t = kmem s \<and> pool t = ps
    \<and> descs t = descs s \<and> hook_descriptor_list t = hook_descriptor_list s"
  using assms unfolding hot_patch_def hot_patched_def
  by (auto simp: mem_alloc_Cons log_call_def)

end
