(* ===== verification/Hook_Splice.thy ===== *)
theory Hook_Splice
  imports Hook_Facts
begin

text \<open>
  The copy loop of \<open>hook_code\<close>: it ends, it stays inside its buffer, and what it leaves there
  is the beginning of the function, instruction by instruction, with every 32-bit relative
  branch still leading where it led before.
\<close>

section \<open>Moved code\<close>

text \<open>
  The instruction of \<open>n\<close> bytes at \<open>s\<close> in \<open>m\<close> was moved to \<open>d\<close> in \<open>m'\<close>: a relative branch has
  the same opcode and the same target, any other instruction has the same bytes.
\<close>

definition relocated_insn :: "mem \<Rightarrow> mem \<Rightarrow> addr \<Rightarrow> addr \<Rightarrow> u32 \<Rightarrow> bool" where
  "relocated_insn m m' s d n \<longleftrightarrow>
     (let f = x_code_flags m s; k = (if f AND OP_EXTENDED \<noteq> 0 then 2 else 1 :: nat) in
      if f AND OP_REL32 \<noteq> 0
      then n = word_of_nat (k + 4)
        \<and> (\<forall>i<k. m' (d + word_of_nat i) = m (s + word_of_nat i))
        \<and> d + n + rd32 m' (d + word_of_nat k) = s + n + rd32 m (s + word_of_nat k)
      else \<forall>i<unat n. m' (d + word_of_nat i) = m (s + word_of_nat i))"

lemma relocated_insn_branch:
  assumes "x_code_flags m s AND OP_REL32 \<noteq> 0"
    and "k = (if x_code_flags m s AND OP_EXTENDED \<noteq> 0 then 2 else 1 :: nat)"
  shows "relocated_insn m m' s d n \<longleftrightarrow> n = word_of_nat (k + 4)
        \<and> (\<forall>i<k. m' (d + word_of_nat i) = m (s + word_of_nat i))
        \<and> d + n + rd32 m' (d + word_of_nat k) = s + n + rd32 m (s + word_of_nat k)"
  using assms by (simp add: relocated_insn_def Let_def del: of_nat_add)

lemma relocated_insn_plain:
  "x_code_flags m s AND OP_REL32 = 0 \<Longrightarrow> relocated_insn m m' s d n \<longleftrightarrow>
     (\<forall>i<unat n. m' (d + word_of_nat i) = m (s + word_of_nat i))"
  by (simp add: relocated_insn_def Let_def)

fun relocated :: "mem \<Rightarrow> mem \<Rightarrow> addr \<Rightarrow> addr \<Rightarrow> u32 list \<Rightarrow> bool" where
  "relocated m m' s d [] \<longleftrightarrow> True"
| "relocated m m' s d (n # ns) \<longleftrightarrow>
     (\<exists>opcd. size_of_code m s = Some (n, opcd)) \<and> x_code_flags m s AND OP_REL8 = 0
     \<and> relocated_insn m m' s d n \<and> relocated m m' (s + n) (d + n) ns"

lemma rd32_bytes_cong:
  "(\<And>i. i < 4 \<Longrightarrow> m' (a' + word_of_nat i) = m (a + word_of_nat i)) \<Longrightarrow> rd32 m' a' = rd32 m a"
proof -
  assume b: "\<And>i. i < 4 \<Longrightarrow> m' (a' + word_of_nat i) = m (a + word_of_nat i)"
  from b [of 0] b [of 1] b [of 2] b [of 3] show ?thesis by (simp add: rd32_def)
qed

lemma relocated_insn_cong:
  assumes "relocated_insn m m1 s d n" and n: "unat n \<le> 32"
    and same: "\<And>x. in_range d (unat n) x \<Longrightarrow> m2 x = m1 x"
  shows "relocated_insn m m2 s d n"
proof -
  have b: "m2 (d + word_of_nat i) = m1 (d + word_of_nat i)" if "i < unat n" for i
    by (rule same, rule in_range_add [OF that]) (use n in simp)
  have "rd32 m2 (d + word_of_nat k) = rd32 m1 (d + word_of_nat k)" if "k + 4 \<le> unat n" for k
  proof (rule rd32_bytes_cong)
    fix i :: nat assume "i < 4"
    then show "m2 (d + word_of_nat k + word_of_nat i) = m1 (d + word_of_nat k + word_of_nat i)"
      using b [of "k + i"] that by (simp add: add.assoc)
  qed
  then have rd: "rd32 m2 (d + word_of_nat k) = rd32 m1 (d + word_of_nat k)" if "n = word_of_nat (k + 4)" "k < 3" for k
    using that unat_small [of "k + 4"] by (simp del: of_nat_add)
  show ?thesis
  proof (cases "x_code_flags m s AND OP_REL32 = 0")
    case True
    with assms(1) b show ?thesis by (simp add: relocated_insn_plain)
  next
    case False
    define k where "k = (if x_code_flags m s AND OP_EXTENDED \<noteq> 0 then 2 else 1 :: nat)"
    note br = relocated_insn_branch [OF False k_def]
    have len: "n = word_of_nat (k + 4)" and k: "k < 3" using assms(1) br by (auto simp: k_def)
    have "unat n = k + 4" unfolding len by (rule unat_small) (use k in simp)
    with b have "\<forall>i<k. m2 (d + word_of_nat i) = m1 (d + word_of_nat i)" by simp
    with assms(1) rd [OF len k] show ?thesis unfolding br by simp
  qed
qed

lemma relocated_cong:
  assumes "relocated m m1 s d ns" and "sum_list (map unat ns) \<le> 32"
    and "\<And>x. in_range d (sum_list (map unat ns)) x \<Longrightarrow> m2 x = m1 x"
  shows "relocated m m2 s d ns"
  using assms
proof (induction ns arbitrary: s d)
  case (Cons n ns)
  let ?k = "sum_list (map unat ns)"
  have "m2 x = m1 x" if "in_range d (unat n) x" for x
    using Cons.prems(3) in_range_mono [OF that, of "unat n + ?k"] by simp
  then have "relocated_insn m m2 s d n"
    using Cons.prems by (intro relocated_insn_cong [of m m1 s d n m2]) auto
  moreover have "m2 x = m1 x" if "in_range (d + n) ?k x" for x
    using Cons.prems(2,3) in_range_sub [of d "unat n" ?k x "unat n + ?k"] that by simp
  then have "relocated m m2 (s + n) (d + n) ns"
    using Cons.prems by (intro Cons.IH) auto
  ultimately show ?case using Cons.prems by simp
qed simp

lemma relocated_insn_src_cong:
  assumes "relocated_insn m m' s d n" and n: "unat n \<le> 28" and f: "x_code_flags m2 s = x_code_flags m s"
    and same: "\<And>x. in_range s (unat n) x \<Longrightarrow> m2 x = m x"
  shows "relocated_insn m2 m' s d n"
proof -
  have b: "m2 (s + word_of_nat i) = m (s + word_of_nat i)" if "i < unat n" for i
    by (rule same, rule in_range_add [OF that]) (use n in simp)
  show ?thesis
  proof (cases "x_code_flags m s AND OP_REL32 = 0")
    case True
    then show ?thesis using assms(1) b by (simp add: relocated_insn_plain f)
  next
    case False
    define k where "k = (if x_code_flags m s AND OP_EXTENDED \<noteq> 0 then 2 else 1 :: nat)"
    have False2: "x_code_flags m2 s AND OP_REL32 \<noteq> 0" using False by (simp add: f)
    note br = relocated_insn_branch [OF False k_def]
      relocated_insn_branch [OF False2, of k, unfolded f, OF k_def]
    have len: "n = word_of_nat (k + 4)" using assms(1) by (simp only: br)
    have un: "unat n = k + 4" unfolding len by (rule unat_small) (simp add: k_def)
    have "rd32 m2 (s + word_of_nat k) = rd32 m (s + word_of_nat k)"
    proof (rule rd32_bytes_cong)
      fix i :: nat assume "i < 4"
      then show "m2 (s + word_of_nat k + word_of_nat i) = m (s + word_of_nat k + word_of_nat i)"
        using b [of "k + i"] un by (simp add: add.assoc)
    qed
    with assms(1) b un show ?thesis by (simp only: br) simp
  qed
qed

section \<open>One round\<close>

text \<open>What one round writes: nothing outside the \<open>n\<close> bytes at \<open>dst\<close>.\<close>

lemma round_footprint:
  assumes n: "size_of_code m src = Some (n, opcd)" "unat n \<le> 28"
    and x: "\<not> in_range dst (unat n) x"
  shows "relocate_branch (memcpy m dst src (unat n)) dst src (x_code_flags m src) x = m x"
proof -
  let ?f = "x_code_flags m src"
  have cp: "memcpy m dst src (unat n) x = m x" using n x by (intro memcpy_other) auto
  show ?thesis
  proof (cases "?f AND OP_REL32 \<noteq> 0")
    case True
    then have len: "n = (if ?f AND OP_EXTENDED \<noteq> 0 then 6 else 5)"
      using ldasm.decode_rel32 n by (auto split: if_splits)
    have "\<not> in_range (dst + word_of_nat k) 4 x" if "k + 4 \<le> unat n" for k
      using that x n in_range_sub [of dst k 4 x "unat n"] by auto
    from this [of 1] this [of 2] show ?thesis
      using True len cp by (auto simp: relocate_branch_def wr32_other)
  qed (simp add: relocate_branch_def cp)
qed

lemma round_relocates:
  assumes n: "size_of_code m src = Some (n, opcd)" "unat n \<le> 28"
    and disj: "disjoint_blocks dst (unat n) src (unat n)"
  shows "relocated_insn m (relocate_branch (memcpy m dst src (unat n)) dst src (x_code_flags m src))
           src dst n"
proof -
  let ?f = "x_code_flags m src" and ?m = "memcpy m dst src (unat n)"
  have b: "?m (dst + word_of_nat i) = m (src + word_of_nat i)" if "i < unat n" for i
    using that n disj by (intro memcpy_bytes) auto
  show ?thesis
  proof (cases "?f AND OP_REL32 \<noteq> 0")
    case False
    then show ?thesis using b by (simp add: relocated_insn_plain relocate_branch_def)
  next
    case True
    define k where "k = (if ?f AND OP_EXTENDED \<noteq> 0 then 2 else 1 :: nat)"
    have len: "n = word_of_nat (k + 4)"
      using True ldasm.decode_rel32 n by (auto simp: k_def split: if_splits)
    then have un: "unat n = k + 4" by (simp add: k_def)
    let ?m' = "wr32 ?m (dst + word_of_nat k) (rd32 ?m (dst + word_of_nat k) + (src - dst))"
    have m': "relocate_branch ?m dst src ?f = ?m'"
      using True by (simp add: relocate_branch_def k_def)
    have rd: "rd32 ?m (dst + word_of_nat k) = rd32 m (src + word_of_nat k)"
      by (rule rd32_bytes_cong) (use b un in \<open>simp add: add.assoc flip: of_nat_add\<close>)
    have "?m' (dst + word_of_nat i) = m (src + word_of_nat i)" if "i < k" for i
    proof -
      have "\<not> in_range (dst + word_of_nat k) 4 (dst + word_of_nat i)"
        using in_range_apart [of dst i 1 "dst + word_of_nat i" k 4] that by (auto simp: k_def)
      then show ?thesis using b that un by (simp add: wr32_other)
    qed
    then show ?thesis
      unfolding relocated_insn_branch [OF True k_def] m'
      using len rd by (simp add: algebra_simps)
  qed
qed

section \<open>The loop\<close>

text \<open>
  The layout: the buffer of 64 bytes does not overlap the first 40 bytes of the function, and
  every place among the first five bytes where an instruction can start holds a short one.
\<close>

definition splice_layout :: "mem \<Rightarrow> addr \<Rightarrow> addr \<Rightarrow> bool" where
  "splice_layout m src buf \<longleftrightarrow>
     disjoint_blocks buf 64 src 40 \<and> (\<forall>i<5. short_insn m (src + word_of_nat i))"

text \<open>The result of the loop begun at offset \<open>k\<close> with memory \<open>m\<close>.\<close>

definition splice_post ::
  "mem \<Rightarrow> mem \<Rightarrow> addr \<Rightarrow> addr \<Rightarrow> nat \<Rightarrow> mem \<Rightarrow> (addr \<times> addr \<times> u32) option \<Rightarrow> bool" where
  "splice_post m0 m buf src k m' r \<longleftrightarrow>
     (\<forall>x. \<not> in_range (buf + word_of_nat k) (32 - k) x \<longrightarrow> m' x = m x)
   \<and> (case r of
        None \<Rightarrow> \<exists>i<5. x_code_flags m0 (src + word_of_nat i) AND OP_REL8 \<noteq> 0
      | Some (d, s, a) \<Rightarrow> \<exists>L ns. 5 \<le> L \<and> L \<le> 32 \<and> k < L \<and> d = buf + word_of_nat L
          \<and> s = src + word_of_nat L \<and> a = word_of_nat L \<and> sum_list (map unat ns) = L - k
          \<and> relocated m0 m' (src + word_of_nat k) (buf + word_of_nat k) ns)"

lemma splice_post_SomeI:
  assumes "\<And>x. \<not> in_range (buf + word_of_nat k) (32 - k) x \<Longrightarrow> m' x = m x"
    and "5 \<le> L" "L \<le> 32" "k < L" "sum_list (map unat ns) = L - k"
    and "relocated m0 m' (src + word_of_nat k) (buf + word_of_nat k) ns"
  shows "splice_post m0 m buf src k m' (Some (buf + word_of_nat L, src + word_of_nat L, word_of_nat L))"
proof -
  have "\<exists>L' ns'. 5 \<le> L' \<and> L' \<le> 32 \<and> k < L' \<and> buf + word_of_nat L = buf + word_of_nat L'
          \<and> src + word_of_nat L = src + word_of_nat L' \<and> (word_of_nat L :: u32) = word_of_nat L'
          \<and> sum_list (map unat ns') = L' - k
          \<and> relocated m0 m' (src + word_of_nat k) (buf + word_of_nat k) ns'"
    using assms by (intro exI [of _ L] exI [of _ ns]) simp
  then show ?thesis using assms(1) unfolding splice_post_def by simp
qed

text \<open>The slots of the buffer: bytes outside the last \<open>32 - k\<close> are outside each part of them.\<close>

lemma slot_outside:
  assumes "\<not> in_range (buf + word_of_nat k) (32 - k) x" and "k + l \<le> 32"
  shows "\<not> in_range (buf + word_of_nat k) l x"
    and "\<not> in_range (buf + word_of_nat (k + l)) (32 - (k + l)) x"
proof -
  show "\<not> in_range (buf + word_of_nat k) l x"
    using assms in_range_mono [of "buf + word_of_nat k" l x "32 - k"] by linarith
  show "\<not> in_range (buf + word_of_nat (k + l)) (32 - (k + l)) x"
  proof
    assume "in_range (buf + word_of_nat (k + l)) (32 - (k + l)) x"
    then have "in_range (buf + word_of_nat k + word_of_nat l) (32 - (k + l)) x" by (simp add: add.assoc)
    then have "in_range (buf + word_of_nat k) (32 - k) x"
      by (rule in_range_sub) (use assms(2) in simp_all)
    with assms(1) show False by simp
  qed
qed

lemma splice_post_last:
  assumes l: "5 \<le> k + l" "k < 5" "0 < l" "l \<le> 28" and n: "n = word_of_nat l"
    and foot: "\<And>x. \<not> in_range (buf + word_of_nat k) l x \<Longrightarrow> m1 x = m x"
    and sz: "size_of_code m0 (src + word_of_nat k) = Some (n, opcd)"
    and r8: "x_code_flags m0 (src + word_of_nat k) AND OP_REL8 = 0"
    and rel: "relocated_insn m0 m1 (src + word_of_nat k) (buf + word_of_nat k) n"
  shows "splice_post m0 m buf src k m1 (Some (buf + word_of_nat (k + l),
      src + word_of_nat (k + l), word_of_nat (k + l)))"
proof -
  have foot': "m1 x = m x" if "\<not> in_range (buf + word_of_nat k) (32 - k) x" for x
    using slot_outside(1) [OF that, of l] foot l by simp
  have rels: "relocated m0 m1 (src + word_of_nat k) (buf + word_of_nat k) [n]"
    using sz r8 rel by simp
  have "sum_list (map unat [n]) = k + l - k" using l n by (simp add: unat_small)
  then show ?thesis using l by (intro splice_post_SomeI [OF foot' _ _ _ _ rels]) simp_all
qed

lemma splice_post_step:
  assumes post: "splice_post m0 m1 buf src (k + l) m' r" and l: "k + l < 5" "0 < l"
    and n: "n = word_of_nat l"
    and foot: "\<And>x. \<not> in_range (buf + word_of_nat k) l x \<Longrightarrow> m1 x = m x"
    and sz: "size_of_code m0 (src + word_of_nat k) = Some (n, opcd)"
    and r8: "x_code_flags m0 (src + word_of_nat k) AND OP_REL8 = 0"
    and rel: "relocated_insn m0 m1 (src + word_of_nat k) (buf + word_of_nat k) n"
  shows "splice_post m0 m buf src k m' r"
proof -
  have un: "unat n = l" using l n by (simp add: unat_small)
  have foot2: "m' x = m1 x" if "\<not> in_range (buf + word_of_nat (k + l)) (32 - (k + l)) x" for x
    using post that by (simp add: splice_post_def)
  have foot': "m' x = m x" if x: "\<not> in_range (buf + word_of_nat k) (32 - k) x" for x
    using slot_outside [OF x, of l] foot foot2 l by simp
  have rel': "relocated_insn m0 m' (src + word_of_nat k) (buf + word_of_nat k) n"
  proof (rule relocated_insn_cong [OF rel])
    show "unat n \<le> 32" using l un by simp
    fix x assume "in_range (buf + word_of_nat k) (unat n) x"
    then have x: "in_range (buf + word_of_nat k) l x" by (simp add: un)
    show "m' x = m1 x"
      by (rule foot2) (use in_range_apart [OF x, of "k + l" "32 - (k + l)"] l in auto)
  qed
  have rels: "relocated m0 m' (src + word_of_nat k) (buf + word_of_nat k) (n # ns)"
    if "relocated m0 m' (src + word_of_nat (k + l)) (buf + word_of_nat (k + l)) ns" for ns
    using that sz r8 rel' n by (simp add: add.assoc)
  show ?thesis
  proof (cases r)
    case (Some t)
    obtain d s a where t: "t = (d, s, a)" by (cases t)
    with post Some obtain L ns where L: "5 \<le> L" "L \<le> 32" "k + l < L" "d = buf + word_of_nat L"
        "s = src + word_of_nat L" "a = word_of_nat L" and sum: "sum_list (map unat ns) = L - (k + l)"
      and rs: "relocated m0 m' (src + word_of_nat (k + l)) (buf + word_of_nat (k + l)) ns"
      by (auto simp: splice_post_def)
    have "sum_list (map unat (n # ns)) = L - k" using L un sum by simp
    then show ?thesis unfolding Some t L(4-6)
      using L by (intro splice_post_SomeI [OF foot' _ _ _ _ rels [OF rs]]) simp_all
  next
    case None
    with post foot' show ?thesis by (simp add: splice_post_def)
  qed
qed

lemma splice_round:
  assumes sz: "size_of_code m src = Some (n, opcd)" and n: "n \<noteq> 0"
  shows "splice_loop m dst src all_len =
     (let f = x_code_flags m src; m1 = relocate_branch (memcpy m dst src (unat n)) dst src f in
      if f AND OP_REL8 \<noteq> 0 then Some (m, None)
      else if all_len + n < 5 then splice_loop m1 (dst + n) (src + n) (all_len + n)
      else Some (m1, Some (dst + n, src + n, all_len + n)))"
  by (subst splice_loop.simps) (simp add: sz n Let_def)

lemma splice_loop_post:
  assumes lay: "splice_layout m0 src buf" and k: "k < 5"
    and agree: "\<And>x. in_range src 40 x \<Longrightarrow> m x = m0 x"
  shows "\<exists>m' r. splice_loop m (buf + word_of_nat k) (src + word_of_nat k) (word_of_nat k) = Some (m', r)
    \<and> splice_post m0 m buf src k m' r"
  using k agree
proof (induction "5 - k" arbitrary: k m rule: less_induct)
  case (less k m)
  let ?s = "src + word_of_nat k" and ?d = "buf + word_of_nat k"
  have short: "short_insn m0 ?s" using lay less.prems by (simp add: splice_layout_def)
  then obtain n opcd where sz0: "size_of_code m0 ?s = Some (n, opcd)"
    and n: "0 < unat n" "unat n \<le> 28" using ldasm.decode_short by blast
  define l where "l = unat n"
  have l: "0 < l" "l \<le> 28" and nl: "n = word_of_nat l" using n by (simp_all add: l_def)
  have same: "m x = m0 x" if "in_range ?s (unat n) x" for x
  proof (rule less.prems(2))
    show "in_range src 40 x"
      by (rule in_range_sub [OF that]) (use less.prems(1) l in \<open>simp_all add: l_def\<close>)
  qed
  from ldasm.decode_frame [OF short sz0 this]
  have sz: "size_of_code m ?s = Some (n, opcd)" and fl: "x_code_flags m ?s = x_code_flags m0 ?s"
    by auto
  let ?f = "x_code_flags m ?s"
  let ?m1 = "relocate_branch (memcpy m ?d ?s (unat n)) ?d ?s ?f"
  have nz: "n \<noteq> 0" using l by (auto simp: l_def)
  note round = splice_round [OF sz nz, of ?d "word_of_nat k", unfolded Let_def]
  show ?case
  proof (cases "?f AND OP_REL8 \<noteq> 0")
    case True
    then have "splice_post m0 m buf src k m None" using fl less.prems by (auto simp: splice_post_def)
    then show ?thesis using True round by auto
  next
    case False
    have d64: "disjoint_blocks buf 64 src 40" using lay by (simp add: splice_layout_def)
    have disj: "disjoint_blocks ?d (unat n) ?s (unat n)"
      using disjoint_blocks_sub [OF d64, of k l k l] l less.prems by (simp add: l_def)
    have foot: "?m1 x = m x" if "\<not> in_range ?d l x" for x
      using round_footprint [OF sz n(2)] that by (simp add: l_def)
    have agree1: "?m1 x = m0 x" if "in_range src 40 x" for x
    proof -
      have "\<not> in_range ?d l x"
        using that d64 l less.prems in_range_sub [of buf k l x 64] by (auto simp: disjoint_blocks_def)
      then show ?thesis using foot less.prems that by simp
    qed
    have rel1: "relocated_insn m ?m1 ?s ?d n" by (rule round_relocates [OF sz n(2) disj])
    have rel0: "relocated_insn m0 ?m1 ?s ?d n"
      by (rule relocated_insn_src_cong [OF rel1 n(2)]) (simp_all add: fl same)
    have kl: "word_of_nat k + n = (word_of_nat (k + l) :: u32)" by (simp add: nl)
    have lt: "word_of_nat k + n < (5 :: u32) \<longleftrightarrow> k + l < 5"
      unfolding kl using l less.prems
      by (simp add: word_less_nat_alt unat_small del: of_nat_add)
    show ?thesis
    proof (cases "k + l < 5")
      case True
      have dec: "5 - (k + l) < 5 - k" using True l by simp
      from less.hyps [OF dec True agree1]
      obtain m' r where loop: "splice_loop ?m1 (buf + word_of_nat (k + l)) (src + word_of_nat (k + l))
          (word_of_nat (k + l)) = Some (m', r)" and post: "splice_post m0 ?m1 buf src (k + l) m' r"
        by blast
      have "splice_loop m ?d ?s (word_of_nat k) = Some (m', r)"
        using round False loop lt True by (simp add: nl add.assoc)
      moreover have "splice_post m0 m buf src k m' r"
        by (rule splice_post_step [OF post True l(1) nl foot sz0 _ rel0]) (use False fl in simp_all)
      ultimately show ?thesis by blast
    next
      case beyond: False
      have "splice_loop m ?d ?s (word_of_nat k) = Some (?m1, Some (buf + word_of_nat (k + l),
          src + word_of_nat (k + l), word_of_nat (k + l)))"
        using round False lt beyond by (simp add: nl add.assoc)
      moreover have "splice_post m0 m buf src k ?m1 (Some (buf + word_of_nat (k + l),
          src + word_of_nat (k + l), word_of_nat (k + l)))"
        by (rule splice_post_last [OF _ less.prems(1) l nl foot sz0 _ rel0]) (use beyond False fl in simp_all)
      ultimately show ?thesis by blast
    qed
  qed
qed

end
