(* ===== verification/Hook_Code.thy ===== *)
theory Hook_Code
  imports Hook_Splice
begin

text \<open>
  \<open>hook_code\<close> and \<open>set_hook\<close> as a whole: after a successful call the function starts with a
  jump to the new one, and the pointer to the old function leads to a block with the moved
  instructions followed by a jump to the rest; after a refusal the function is as it was.
\<close>

section \<open>What splicing leaves in memory\<close>

text \<open>
  \<open>m'\<close> is \<open>m\<close> with \<open>src\<close> redirected to \<open>new\<close>, the \<open>L\<close> bytes of its first instructions moved
  to \<open>buf\<close>, and nothing else changed than the first 37 bytes of the block, the first five
  bytes of the function and the pointer at \<open>old\<close>.
\<close>

definition spliced :: "mem \<Rightarrow> mem \<Rightarrow> addr \<Rightarrow> addr \<Rightarrow> addr \<Rightarrow> addr \<Rightarrow> nat \<Rightarrow> u32 list \<Rightarrow> bool" where
  "spliced m m' src new old buf L ns \<longleftrightarrow>
     5 \<le> L \<and> L \<le> 32 \<and> sum_list (map unat ns) = L
   \<and> relocated m m' src buf ns \<and> jump_to m' (buf + word_of_nat L) = Some (src + word_of_nat L)
   \<and> jump_to m' src = Some new \<and> rd32 m' old = buf
   \<and> (\<forall>x. \<not> in_range buf 37 x \<and> \<not> in_range src 5 x \<and> \<not> in_range old 4 x \<longrightarrow> m' x = m x)"

definition hook_layout :: "mem \<Rightarrow> addr \<Rightarrow> addr \<Rightarrow> addr \<Rightarrow> bool" where
  "hook_layout m src buf old \<longleftrightarrow> splice_layout m src buf
     \<and> disjoint_blocks buf 64 old 4 \<and> disjoint_blocks src 5 old 4"

lemma tail_jump: "wr32 (wr8 m d 0xE9) (d + 1) (s - d - 5) = set_jump m d s"
  by (simp add: set_jump_def)

lemma disjoint_out:
  "disjoint_blocks a n b k \<Longrightarrow> in_range b k x \<Longrightarrow> \<not> in_range a n x"
  "disjoint_blocks a n b k \<Longrightarrow> in_range a n x \<Longrightarrow> \<not> in_range b k x"
  by (auto simp: disjoint_blocks_def)

lemma spliced_memory:
  fixes new :: addr
  assumes lay: "hook_layout m src buf old"
    and loop: "\<And>x. \<not> in_range buf 32 x \<Longrightarrow> m1 x = m x"
    and L: "5 \<le> L" "L \<le> 32" "sum_list (map unat ns) = L"
    and rel: "relocated m m1 src buf ns"
  defines "m2 \<equiv> set_jump m1 (buf + word_of_nat L) (src + word_of_nat L)"
  defines "m4 \<equiv> set_jump (wr32 m2 old buf) src new"
  shows "spliced m m4 src new old buf L ns"
proof -
  have bs: "disjoint_blocks buf 64 src 40" and bo: "disjoint_blocks buf 64 old 4"
    and so: "disjoint_blocks src 5 old 4"
    using lay by (simp_all add: hook_layout_def splice_layout_def)
  have buf64: "in_range buf 64 x" if "in_range (buf + word_of_nat i) k x" "i + k \<le> 64" for i k x
    by (rule in_range_sub [OF that]) simp
  have m3: "m4 x = m2 x" if "in_range buf 64 x" for x
  proof -
    have "\<not> in_range old 4 x" "\<not> in_range src 5 x"
      using disjoint_out(2) [OF bo that] disjoint_out(2) [OF bs that] in_range_mono [of src 5 x 40]
      by auto
    then show ?thesis by (simp add: m4_def set_jump_other wr32_other)
  qed
  have m2: "m2 x = m1 x" if "\<not> in_range (buf + word_of_nat L) 5 x" for x
    using that by (simp add: m2_def set_jump_other)
  have "relocated m m4 src buf ns"
  proof (rule relocated_cong [OF rel])
    show "sum_list (map unat ns) \<le> 32" using L by simp
    fix x assume "in_range buf (sum_list (map unat ns)) x"
    then have x: "in_range buf L x" by (simp add: L)
    have "\<not> in_range (buf + word_of_nat L) 5 x"
      using in_range_apart [of buf 0 L x L 5] x L by auto
    moreover have "in_range buf 64 x" using buf64 [of 0 L] x L by simp
    ultimately show "m4 x = m1 x" by (simp add: m3 m2)
  qed
  moreover have "jump_to m4 (buf + word_of_nat L) = Some (src + word_of_nat L)"
  proof -
    have "jump_to m4 (buf + word_of_nat L) = jump_to m2 (buf + word_of_nat L)"
      by (rule jump_to_cong) (use m3 buf64 [of L 5] L in auto)
    then show ?thesis by (simp add: m2_def set_jump_to)
  qed
  moreover have "jump_to m4 src = Some new" by (simp add: m4_def set_jump_to)
  moreover have "rd32 m4 old = buf"
    using rd32_outside [OF so, of m4 "wr32 m2 old buf"] by (simp add: m4_def set_jump_other)
  moreover have "m4 x = m x" if x: "\<not> in_range buf 37 x" "\<not> in_range src 5 x" "\<not> in_range old 4 x" for x
  proof -
    have "\<not> in_range buf 32 x" using x(1) in_range_mono [of buf 32 x 37] by auto
    moreover have "\<not> in_range (buf + word_of_nat L) 5 x"
      using x(1) in_range_sub [of buf L 5 x 37] L by auto
    ultimately show ?thesis using x loop by (simp add: m4_def set_jump_other wr32_other m2)
  qed
  ultimately show ?thesis using L unfolding spliced_def by blast
qed

section \<open>hook_code\<close>

lemma mem_alloc_le:
  "kmem (snd (mem_alloc n s)) = kmem s" "cr0 (snd (mem_alloc n s)) = cr0 s"
  "intr (snd (mem_alloc n s)) = intr s" "irql (snd (mem_alloc n s)) = irql s"
  "descs (snd (mem_alloc n t)) = descs t"
  "hook_descriptor_list (snd (mem_alloc n t)) = hook_descriptor_list t"
  for s :: "'z kstate_scheme" and t :: "'y hstate_scheme"
  by (auto simp: mem_alloc_def log_call_def split: list.splits)

text \<open>
  With usable blocks and an acceptable layout \<open>hook_code\<close> returns; either the function is
  redirected, or a short relative branch was met among the first five bytes, both blocks are
  freed and only the buffer block was written to.
\<close>

lemma hook_code_cases:
  assumes nn: "src \<noteq> NULL" "new \<noteq> NULL" "old \<noteq> NULL"
    and pool: "pool s = h # buf # ps" "h \<noteq> NULL" "buf \<noteq> NULL"
    and lay: "hook_layout (kmem s) src buf old"
  shows "(\<exists>t L ns. hook_code n_cpu src new old s = Some (h, t)
      \<and> spliced (kmem s) (kmem t) src new old buf L ns
      \<and> cr0 t = cr0 s \<and> intr t \<and> irql t = irql s
      \<and> hook_descriptor_list t = hook_descriptor_list s
      \<and> descs t = (descs s)(h \<mapsto> \<lparr>hook_type = HOOK_TYPE_SPLICING, src_proc = src,
           old_proc = buf, new_proc = new, old_code_size = word_of_nat L\<rparr>))
    \<or> (\<exists>t. hook_code n_cpu src new old s = Some (NULL, t)
      \<and> (\<exists>i<5. x_code_flags (kmem s) (src + word_of_nat i) AND OP_REL8 \<noteq> 0)
      \<and> (\<forall>x. \<not> in_range buf 32 x \<longrightarrow> kmem t x = kmem s x)
      \<and> cr0 t = cr0 s \<and> intr t = intr s \<and> irql t = irql s
      \<and> calls t = calls s @ [PoolAlloc sizeof_hook_descriptor h, PoolAlloc 64 buf,
           PoolFree h, PoolFree buf]
      \<and> descs t = descs s \<and> hook_descriptor_list t = hook_descriptor_list s)"
proof -
  from lay have sl: "splice_layout (kmem s) src buf" by (simp add: hook_layout_def)
  from splice_loop_post [OF sl, of 0 "kmem s"]
  obtain m1 r where loop: "splice_loop (kmem s) buf src 0 = Some (m1, r)"
    and post: "splice_post (kmem s) (kmem s) buf src 0 m1 r" by auto
  note run = hook_code_def mem_alloc_Cons mem_open_def kernel_simps Let_def nn pool loop
  have frame: "m1 x = kmem s x" if "\<not> in_range buf 32 x" for x
    using post that by (simp add: splice_post_def)
  show ?thesis
  proof (cases r)
    case None
    with post have "\<exists>i<5. x_code_flags (kmem s) (src + word_of_nat i) AND OP_REL8 \<noteq> 0"
      by (simp add: splice_post_def)
    with frame show ?thesis by (intro disjI2) (simp add: run None)
  next
    case (Some d)
    obtain L ns where L: "5 \<le> L" "L \<le> 32" "sum_list (map unat ns) = L"
      and rel: "relocated (kmem s) m1 src buf ns"
      and d: "d = (buf + word_of_nat L, src + word_of_nat L, word_of_nat L)"
      using post unfolding Some splice_post_def by (cases d) auto
    define t where "t = snd (the (hook_code n_cpu src new old s))"
    note sp = spliced_memory [OF lay frame L rel, of new]
    have rd: "rd32 (set_jump (wr32 (set_jump m1 (buf + word_of_nat L) (src + word_of_nat L)) old buf)
        src new) old = buf" using sp by (simp add: spliced_def)
    have "hook_code n_cpu src new old s = Some (h, t)
      \<and> kmem t = set_jump (wr32 (set_jump m1 (buf + word_of_nat L) (src + word_of_nat L)) old buf) src new
      \<and> cr0 t = cr0 s \<and> intr t \<and> irql t = irql s
      \<and> hook_descriptor_list t = hook_descriptor_list s
      \<and> descs t = (descs s)(h \<mapsto> \<lparr>hook_type = HOOK_TYPE_SPLICING, src_proc = src,
           old_proc = buf, new_proc = new, old_code_size = word_of_nat L\<rparr>)"
      by (simp add: t_def run Some d set_jump_def [symmetric] global_lock_effect_def
          global_unlock_effect_def split_beta mem_alloc_le rd)
    with sp show ?thesis by (intro disjI1 exI [of _ t] exI [of _ L] exI [of _ ns]) simp
  qed
qed

section \<open>set_hook\<close>

text \<open>A call of the function ends up in the new one: directly, or over the five bytes before it.\<close>

definition redirected :: "mem \<Rightarrow> addr \<Rightarrow> addr \<Rightarrow> bool" where
  "redirected m src new \<longleftrightarrow> jump_to m src = Some new
     \<or> jump_to m src = Some (src - 5) \<and> jump_to m (src - 5) = Some new"

text \<open>What a descriptor says of a hook, read against memory.\<close>

definition describes :: "mem \<Rightarrow> hook_descriptor \<Rightarrow> addr \<Rightarrow> addr \<Rightarrow> addr \<Rightarrow> bool" where
  "describes m d src new old \<longleftrightarrow> src_proc d = src \<and> new_proc d = new \<and> old_proc d = rd32 m old
     \<and> hook_type d \<in> {HOOK_TYPE_SPLICING, HOOK_TYPE_HOT_PATCH, HOOK_TYPE_DOUBLE_HOT_PATCH}"

lemma hot_patch_old_rest:
  assumes "hot_patch_old src old h s = Some (b, t)"
  shows "descs t = descs s" and "hook_descriptor_list t = hook_descriptor_list s"
    and "cr0 t = cr0 s" and "irql t = irql s" and "\<not> b \<Longrightarrow> kmem t = kmem s" and "intr t = intr s"
  using assms unfolding hot_patch_old_def
  by (auto simp: kernel_simps mem_alloc_le Let_def split_beta split: if_splits option.splits)

lemma hot_patch_success:
  assumes "hot_patch src new old s = Some (h, t)" and "h \<noteq> NULL" and "hot_patch_bytes_free src old"
  shows "redirected (kmem t) src new \<and> hook_descriptor_list t = hook_descriptor_list s
    \<and> cr0 t = cr0 s \<and> irql t = irql s
    \<and> (\<exists>d. descs t = (descs s)(h \<mapsto> d) \<and> describes (kmem t) d src new old)"
proof -
  have nn: "src \<noteq> NULL" "new \<noteq> NULL" "old \<noteq> NULL" using assms by (auto simp: hot_patch_def)
  obtain c s1 where al: "mem_alloc sizeof_hook_descriptor s = (c, s1)" by fastforce
  then have s1: "kmem s1 = kmem s" "cr0 s1 = cr0 s" "irql s1 = irql s" "descs s1 = descs s"
      "hook_descriptor_list s1 = hook_descriptor_list s"
    using mem_alloc_le [of sizeof_hook_descriptor s] by simp_all
  show ?thesis
  proof (cases "hot_patch_room (kmem s) src")
    case True
    obtain s2 where old: "hot_patch_old src old c s1 = Some (True, s2)"
      using assms(1,2) nn al True s1 by (auto simp: hot_patch_def split: option.splits bool.splits if_splits)
    define u where "u = mem_close (cr0 s2) (set_mem (wr16 (set_jump (kmem s2) (src - 5) new) src 0xF9EB)
          (snd (mem_open s2)))"
    have t: "h = c" "t = set_desc c \<lparr>hook_type = HOOK_TYPE_HOT_PATCH, src_proc = src,
        old_proc = rd32 (kmem u) old, new_proc = new, old_code_size = 2\<rparr> u"
      using assms(1,2) nn al True s1 old
      by (auto simp: hot_patch_def mem_open_def kernel_simps Let_def u_def split: if_splits)
    note r = hot_patch_old_rest [OF old]
    have "redirected (kmem u) src new"
      unfolding redirected_def using hot_patch_frame by (simp add: u_def kernel_simps)
    moreover have "cr0 u = cr0 s" "irql u = irql s" "descs u = descs s"
        "hook_descriptor_list u = hook_descriptor_list s"
      using r s1 by (simp_all add: u_def kernel_simps mem_open_def)
    ultimately show ?thesis unfolding t by (auto simp: kernel_simps describes_def)
  next
    case False
    then have hp: "hot_patched (kmem s) src" and c: "h = c"
      using assms(1,2) nn al s1
      by (auto simp: hot_patch_def hot_patched_def mem_open_def kernel_simps Let_def split: if_splits)
    define u where "u = set_mem (wr32 (wr32 (wr32 (kmem s) old (rd32 (kmem s) (src - 4))) old
        (src + rd32 (kmem s) (src - 4))) (src - 4) (new - src)) (snd (mem_open s1))"
    have t: "t = mem_close (cr0 s) (set_desc c \<lparr>hook_type = HOOK_TYPE_DOUBLE_HOT_PATCH, src_proc = src,
        old_proc = rd32 (kmem u) old, new_proc = new, old_code_size = 0\<rparr> u)"
      using assms(1,2) nn al False s1 hp
      by (auto simp: hot_patch_def hot_patched_def mem_open_def kernel_simps Let_def u_def addof_def
          set_mem_def split: if_splits)
    have pool: "pool s = c # tl (pool s)" 
      using al assms(2) c by (auto simp: mem_alloc_def split: list.splits)
    from hot_patch_again [OF nn pool _ hp assms(3)] assms(1,2) c
    have "hot_patched (kmem t) src" "jump_to (kmem t) (src - 5) = Some new" by auto
    then have "redirected (kmem t) src new" using hot_patched_jumps by (auto simp: redirected_def)
    then have "redirected (kmem u) src new" unfolding t by (simp add: kernel_simps)
    moreover have "irql u = irql s" "descs u = descs s"
        "hook_descriptor_list u = hook_descriptor_list s"
      using s1 by (simp_all add: u_def kernel_simps mem_open_def)
    ultimately show ?thesis unfolding t c by (auto simp: kernel_simps describes_def)
  qed
qed

lemma hot_patch_failure:
  assumes "hot_patch src new old s = Some (NULL, t)"
  shows "kmem t = kmem s" and "descs t = descs s" and "hook_descriptor_list t = hook_descriptor_list s"
    and "cr0 t = cr0 s" and "irql t = irql s" and "intr t = intr s"
proof -
  obtain c s1 where al: "mem_alloc sizeof_hook_descriptor s = (c, s1)" by fastforce
  then have s1: "kmem s1 = kmem s" "cr0 s1 = cr0 s" "irql s1 = irql s" "descs s1 = descs s"
      "hook_descriptor_list s1 = hook_descriptor_list s" "intr s1 = intr s"
    using mem_alloc_le [of sizeof_hook_descriptor s] by simp_all
  have "t = s \<or> t = s1 \<or> hot_patch_old src old c s1 = Some (False, t)"
    using assms al by (auto simp: hot_patch_def split_beta Let_def split: if_splits option.splits bool.splits)
  then show "kmem t = kmem s" "descs t = descs s" "hook_descriptor_list t = hook_descriptor_list s"
    "cr0 t = cr0 s" "irql t = irql s" "intr t = intr s"
    using hot_patch_old_rest [of src old c s1 False t] s1 by auto
qed

lemma hook_code_success:
  assumes "hook_code n_cpu src new old s = Some (h, t)" and "h \<noteq> NULL"
  shows "redirected (kmem t) src new \<and> hook_descriptor_list t = hook_descriptor_list s
    \<and> cr0 t = cr0 s \<and> irql t = irql s
    \<and> (\<exists>d. descs t = (descs s)(h \<mapsto> d) \<and> describes (kmem t) d src new old)"
proof -
  have nn: "src \<noteq> NULL" "new \<noteq> NULL" "old \<noteq> NULL" using assms by (auto simp: hook_code_def)
  obtain c s1 where al1: "mem_alloc sizeof_hook_descriptor s = (c, s1)" by fastforce
  obtain buf s2 where al2: "mem_alloc 64 s1 = (buf, s2)" by fastforce
  have s2: "kmem s2 = kmem s" "cr0 s2 = cr0 s" "irql s2 = irql s" "descs s2 = descs s"
      "hook_descriptor_list s2 = hook_descriptor_list s"
    using mem_alloc_le [of sizeof_hook_descriptor s] mem_alloc_le [of 64 s1] al1 al2 by simp_all
  obtain m d a L where loop: "splice_loop (kmem s) buf src 0 = Some (m, Some (d, a, L))"
    and c: "c \<noteq> NULL" "buf \<noteq> NULL"
    using assms nn al1 al2 s2
    by (auto simp: hook_code_def Let_def kernel_simps split: if_splits option.splits)
  define s3 where "s3 = snd (mem_alloc (32 * n_cpu) (set_mem (wr32 (set_jump m d a) old buf) s2))"
  define u where "u = global_unlock_effect (irql s) (mem_close (cr0 s) (set_mem
      (set_jump (wr32 (set_jump m d a) old buf) src new) s3))"
  have s3: "kmem s3 = wr32 (set_jump m d a) old buf" "cr0 s3 = cr0 s" "irql s3 = irql s"
      "descs s3 = descs s" "hook_descriptor_list s3 = hook_descriptor_list s"
    unfolding s3_def using s2 by (simp_all add: mem_alloc_le kernel_simps)
  have "hook_code n_cpu src new old s = Some (c, set_desc c \<lparr>hook_type = HOOK_TYPE_SPLICING,
      src_proc = src, old_proc = rd32 (kmem u) old, new_proc = new, old_code_size = L\<rparr> u)"
    using nn al1 al2 loop c s2 s3
    by (simp add: hook_code_def Let_def set_jump_def [symmetric] global_lock_effect_def split_beta
        mem_open_def u_def s3_def [symmetric] kernel_simps)
      (simp add: global_unlock_effect_def kernel_simps set_mem_def set_desc_def mem_close_def)
  with assms have t: "h = c" "t = set_desc c \<lparr>hook_type = HOOK_TYPE_SPLICING,
      src_proc = src, old_proc = rd32 (kmem u) old, new_proc = new, old_code_size = L\<rparr> u" by auto
  have "redirected (kmem u) src new" "cr0 u = cr0 s" "irql u = irql s" "descs u = descs s"
      "hook_descriptor_list u = hook_descriptor_list s"
    using s3 by (simp_all add: u_def global_unlock_effect_def kernel_simps redirected_def set_jump_to)
  then show ?thesis unfolding t by (auto simp: kernel_simps describes_def)
qed

text \<open>A successful call redirects the function and chains its descriptor.\<close>

lemma set_hook_success:
  assumes "set_hook n_cpu src new old s = Some (True, t)" and "hot_patch_bytes_free src old"
  shows "redirected (kmem t) src new \<and> cr0 t = cr0 s \<and> irql t = irql s
    \<and> (\<exists>h d. hook_descriptor_list t = hook_descriptor_list s @ [h]
        \<and> descs t = (descs s)(h \<mapsto> d) \<and> describes (kmem t) d src new old)"
proof -
  obtain h s1 where hp: "hot_patch src new old s = Some (h, s1)"
    using assms(1) by (auto simp: set_hook_def split: option.splits)
  show ?thesis
  proof (cases "h = NULL")
    case False
    then have "t = insert_hook h s1" using assms(1) hp by (simp add: set_hook_def)
    with hot_patch_success [OF hp False assms(2)] show ?thesis by (auto simp: insert_hook_def)
  next
    case True
    then obtain h2 s2 where hc: "hook_code n_cpu src new old s1 = Some (h2, s2)" and "h2 \<noteq> NULL"
      and "t = insert_hook h2 s2"
      using assms(1) hp by (auto simp: set_hook_def split: option.splits if_splits)
    with hook_code_success [OF hc] hot_patch_failure [OF hp [unfolded True]]
    show ?thesis by (auto simp: insert_hook_def)
  qed
qed

section \<open>What else a hook writes\<close>

text \<open>
  The bytes a hook may change: around the entry of the function, the pointer to the old
  function, and the blocks the pool has left.
\<close>

definition hook_writes :: "addr \<Rightarrow> addr \<Rightarrow> addr list \<Rightarrow> addr \<Rightarrow> bool" where
  "hook_writes src old ps x \<longleftrightarrow> in_range (src - 5) 10 x \<or> in_range old 4 x
     \<or> (\<exists>b\<in>set ps. b \<noteq> NULL \<and> in_range b 64 x)"

lemma before_entry: "in_range (src - 5) (k + 5) x" if "in_range src k x" "k < 2 ^ 31" for src :: addr
  using in_range_sub [of "src - 5" 5 k x "k + 5"] that by simp

lemma mem_alloc_pool:
  "mem_alloc n s = (p, t) \<Longrightarrow> set (pool t) \<subseteq> set (pool s)"
  "mem_alloc n s = (p, t) \<Longrightarrow> p \<noteq> NULL \<Longrightarrow> p \<in> set (pool s)"
  "b \<in> set (pool (snd (mem_alloc n s))) \<Longrightarrow> b \<in> set (pool s)"
  by (auto simp: mem_alloc_def kernel_simps split: list.splits)

lemma hot_patch_old_writes:
  assumes "hot_patch_old src old h s = Some (b, t)" and "\<not> hook_writes src old (pool s) x"
  shows "kmem t x = kmem s x" and "set (pool t) \<subseteq> set (pool s)"
proof -
  show "set (pool t) \<subseteq> set (pool s)"
    using assms(1) unfolding hot_patch_old_def
    by (auto simp: kernel_simps Let_def split_beta dest: mem_alloc_pool(3) split: if_splits option.splits)
  show "kmem t x = kmem s x"
  proof (cases "rd16 (kmem s) src = 0xFF8B")
    case True
    then show ?thesis using assms by (auto simp: hot_patch_old_def hook_writes_def kernel_simps wr32_other)
  next
    case False
    obtain d s1 where al: "mem_alloc 16 s = (d, s1)" by fastforce
    have km: "kmem s1 = kmem s" using mem_alloc_le(1) [of 16 s] al by simp
    have out: "\<not> in_range d 64 x" if "d \<noteq> NULL"
      using assms(2) mem_alloc_pool(2) [OF al that] that by (auto simp: hook_writes_def)
    have o1: "\<not> in_range d 2 x" "\<not> in_range (d + 2) 5 x" if "d \<noteq> NULL"
      using out [OF that] in_range_mono [of d 2 x 64] in_range_sub [of d 2 5 x 64] by auto
    show ?thesis
      using assms False al km o1
      by (auto simp: hot_patch_old_def hook_writes_def kernel_simps Let_def wr32_other
          set_jump_other memcpy_other split: if_splits option.splits)
  qed
qed

lemma hook_writes_mono:
  "hook_writes src old ps x \<Longrightarrow> set ps \<subseteq> set qs \<Longrightarrow> hook_writes src old qs x"
  by (auto simp: hook_writes_def)

lemma entry_writes:
  assumes "\<not> in_range (src - 5) 10 x"
  shows "\<not> in_range (src - 5) 5 x" "\<not> in_range src 2 x" "\<not> in_range src 5 x" "\<not> in_range (src - 4) 4 x"
  using assms in_range_mono [of "src - 5" 5 x 10] in_range_sub [of "src - 5" 5 2 x 10]
    in_range_sub [of "src - 5" 5 5 x 10] in_range_sub [of "src - 5" 1 4 x 10]
  by (auto simp: algebra_simps)

lemma hot_patch_writes:
  assumes hp: "hot_patch src new old s = Some (h, t)" and x: "\<not> hook_writes src old (pool s) x"
  shows "kmem t x = kmem s x" and "set (pool t) \<subseteq> set (pool s)"
proof -
  obtain c s1 where al: "mem_alloc sizeof_hook_descriptor s = (c, s1)" by fastforce
  have km: "kmem s1 = kmem s" using mem_alloc_le(1) [of sizeof_hook_descriptor s] al by simp
  note sub = mem_alloc_pool(1) [OF al]
  have x1: "\<not> hook_writes src old (pool s1) x" using x hook_writes_mono sub by blast
  have e: "\<not> in_range (src - 5) 10 x" "\<not> in_range old 4 x" using x by (simp_all add: hook_writes_def)
  note old = hot_patch_old_writes [where src = src and old = old and h = c and s = s1, OF _ x1]
  have "kmem t x = kmem s x \<and> set (pool t) \<subseteq> set (pool s)"
  proof (cases "src = NULL \<or> new = NULL \<or> old = NULL \<or> c = NULL")
    case True
    then have "t = s \<or> t = s1" using hp al by (auto simp: hot_patch_def split: if_splits)
    then show ?thesis using km sub by auto
  next
    case False
    note run = hot_patch_def mem_open_def kernel_simps Let_def al
    show ?thesis
    proof (cases "hot_patch_room (kmem s) src")
      case True
      with False hp obtain b s2 where o: "hot_patch_old src old c s1 = Some (b, s2)"
        by (auto simp: run km split: option.splits)
      from old [OF this] have "kmem s2 x = kmem s x" "set (pool s2) \<subseteq> set (pool s)"
        using km sub by auto
      then show ?thesis
        using hp False True o e km entry_writes [OF e(1)]
        by (cases b) (auto simp: run set_jump_other wr16_other)
    next
      case no: False
      then show ?thesis
        using hp False e entry_writes [OF e(1)] sub km
        by (auto simp: run wr32_other split: if_splits)
    qed
  qed
  then show "kmem t x = kmem s x" and "set (pool t) \<subseteq> set (pool s)" by auto
qed

text \<open>
  The copy loop stays in the block when the code it copies is short; the blocks the pool has
  left must not overlap the code and the pointer.
\<close>

definition hook_site :: "mem \<Rightarrow> addr \<Rightarrow> addr \<Rightarrow> addr list \<Rightarrow> bool" where
  "hook_site m src old ps \<longleftrightarrow> hot_patch_bytes_free src old
     \<and> (\<forall>b\<in>set ps. b \<noteq> NULL \<longrightarrow> hook_layout m src b old)"

lemma hook_code_writes:
  assumes hc: "hook_code n_cpu src new old s = Some (h, t)" and x: "\<not> hook_writes src old (pool s) x"
    and site: "\<And>b. b \<in> set (pool s) \<Longrightarrow> b \<noteq> NULL \<Longrightarrow> hook_layout (kmem s) src b old"
  shows "kmem t x = kmem s x \<and> set (pool t) \<subseteq> set (pool s)"
proof -
  obtain c s1 where al1: "mem_alloc sizeof_hook_descriptor s = (c, s1)" by fastforce
  obtain buf s2 where al2: "mem_alloc 64 s1 = (buf, s2)" by fastforce
  have km: "kmem s2 = kmem s" "kmem s1 = kmem s"
    using mem_alloc_le(1) [of sizeof_hook_descriptor s] mem_alloc_le(1) [of 64 s1] al1 al2 by simp_all
  note sub1 = mem_alloc_pool(1) [OF al1] and sub2 = mem_alloc_pool(1) [OF al2]
  note run = hook_code_def Let_def kernel_simps al1 al2 km
  have e: "\<not> in_range (src - 5) 10 x" "\<not> in_range old 4 x" using x by (simp_all add: hook_writes_def)
  show ?thesis
  proof (cases "src = NULL \<or> new = NULL \<or> old = NULL \<or> c = NULL \<or> buf = NULL")
    case True
    then have "t = s \<or> t = s1 \<or> t = mem_free c s2"
      using hc al1 al2 by (auto simp: hook_code_def split: if_splits)
    then show ?thesis using km sub1 sub2 by (auto simp: kernel_simps)
  next
    case False
    then have buf: "buf \<in> set (pool s)" using mem_alloc_pool(2) [OF al2] sub1 by auto
    then have lay: "splice_layout (kmem s) src buf" using site False by (auto simp: hook_layout_def)
    have out: "\<not> in_range buf 64 x" using x buf False by (auto simp: hook_writes_def)
    from splice_loop_post [OF lay, of 0 "kmem s"]
    obtain m r where loop: "splice_loop (kmem s) buf src 0 = Some (m, r)"
      and post: "splice_post (kmem s) (kmem s) buf src 0 m r" by auto
    have m: "m x = kmem s x"
      using post out in_range_mono [of buf 32 x 64] by (auto simp: splice_post_def)
    show ?thesis
    proof (cases r)
      case None
      then show ?thesis using hc False loop m sub1 sub2 by (auto simp: run)
    next
      case (Some d)
      obtain L where L: "L \<le> 32" and d: "d = (buf + word_of_nat L, src + word_of_nat L, word_of_nat L)"
        using post unfolding Some splice_post_def by (cases d) auto
      have x5: "\<not> in_range (buf + word_of_nat L) 5 x"
        using out L in_range_sub [of buf L 5 x 64] by auto
      have sub3: "b \<in> set (pool s)" if "b \<in> set (pool (snd (mem_alloc k (set_mem m' s2))))" for b k m'
        using mem_alloc_pool(3) [OF that] sub1 sub2 by (auto simp: kernel_simps)
      show ?thesis
        using hc False loop m e entry_writes [OF e(1)] unfolding Some d
        by (simp add: run set_jump_def [symmetric] global_lock_effect_def split_beta mem_open_def
            mem_alloc_le global_unlock_effect_def)
          (auto simp: kernel_simps set_jump_other wr32_other x5 dest: sub3)
    qed
  qed
qed

text \<open>The pool only loses blocks.\<close>

lemma hot_patch_old_pool: "hot_patch_old src old h s = Some (b, t) \<Longrightarrow> set (pool t) \<subseteq> set (pool s)"
  unfolding hot_patch_old_def
  by (auto simp: kernel_simps Let_def split_beta dest: mem_alloc_pool(3) split: if_splits option.splits)

lemma hot_patch_pool:
  assumes "hot_patch src new old s = Some (h, t)" shows "set (pool t) \<subseteq> set (pool s)"
proof -
  obtain c s1 where al: "mem_alloc sizeof_hook_descriptor s = (c, s1)" by fastforce
  have "set (pool t) \<subseteq> set (pool s1) \<or> t = s"
    using assms al hot_patch_old_pool [of src old c s1]
    by (auto simp: hot_patch_def mem_open_def kernel_simps Let_def split: if_splits option.splits bool.splits)
      blast+
  with mem_alloc_pool(1) [OF al] show ?thesis by auto
qed

lemma hook_code_pool:
  assumes "hook_code n_cpu src new old s = Some (h, t)" shows "set (pool t) \<subseteq> set (pool s)"
proof -
  obtain c s1 where al1: "mem_alloc sizeof_hook_descriptor s = (c, s1)" by fastforce
  obtain buf s2 where al2: "mem_alloc 64 s1 = (buf, s2)" by fastforce
  have d: "b \<in> set (pool s2)" if "b \<in> set (pool (snd (mem_alloc k (set_mem m s2))))" for b k m
    using mem_alloc_pool(3) [OF that] by (simp add: kernel_simps)
  have "\<forall>b \<in> set (pool t). b \<in> set (pool s2) \<or> b \<in> set (pool s1) \<or> b \<in> set (pool s)"
    using assms al1 al2
    by (auto simp: hook_code_def mem_open_def kernel_simps Let_def global_lock_effect_def split_beta
        global_unlock_effect_def dest: d split: if_splits option.splits)
  with mem_alloc_pool(1) [OF al1] mem_alloc_pool(1) [OF al2] show ?thesis by auto
qed

lemma set_hook_pool: "set_hook n_cpu src new old s = Some (r, t) \<Longrightarrow> set (pool t) \<subseteq> set (pool s)"
  using hot_patch_pool [of src new old s] hook_code_pool [of n_cpu src new old]
  unfolding set_hook_def
  by (auto simp: insert_hook_def split: option.splits if_splits) blast+

lemma set_hook_writes:
  assumes run: "set_hook n_cpu src new old s = Some (r, t)"
    and x: "\<not> hook_writes src old (pool s) x" and site: "hook_site (kmem s) src old (pool s)"
  shows "kmem t x = kmem s x"
proof -
  obtain h s1 where hp: "hot_patch src new old s = Some (h, s1)"
    using run by (auto simp: set_hook_def split: option.splits)
  note w = hot_patch_writes [OF hp x]
  show ?thesis
  proof (cases "h = NULL")
    case False
    then show ?thesis using run hp w by (auto simp: set_hook_def insert_hook_def)
  next
    case True
    note f = hot_patch_failure [OF hp [unfolded True]]
    obtain h2 s2 where hc: "hook_code n_cpu src new old s1 = Some (h2, s2)"
      and t: "t = s2 \<or> t = insert_hook h2 s2"
      using run hp True by (auto simp: set_hook_def split: option.splits if_splits)
    have "kmem s2 x = kmem s1 x \<and> set (pool s2) \<subseteq> set (pool s1)"
    proof (rule hook_code_writes [OF hc])
      show "\<not> hook_writes src old (pool s1) x" using x w(2) hook_writes_mono by blast
      show "hook_layout (kmem s1) src b old" if "b \<in> set (pool s1)" "b \<noteq> NULL" for b
        using that site w(2) f by (auto simp: hook_site_def)
    qed
    then show ?thesis using t f by (auto simp: insert_hook_def)
  qed
qed

section \<open>The engine provides its interface\<close>

definition hook_clear :: "addr list \<Rightarrow> addr \<Rightarrow> addr \<Rightarrow> addr \<Rightarrow> bool" where
  "hook_clear ps src old f \<longleftrightarrow> (\<forall>x. in_range (f - 5) 45 x \<longrightarrow> \<not> hook_writes src old ps x)"

definition hooks_kept :: "'z kstate_scheme \<Rightarrow> (addr \<times> addr) list \<Rightarrow> addr \<Rightarrow> bool" where
  "hooks_kept s H f \<longleftrightarrow> (\<forall>(src, old)\<in>set H. hook_clear (pool s) src old f)"

definition hooks_ready :: "'z kstate_scheme \<Rightarrow> (addr \<times> addr) list \<Rightarrow> bool" where
  "hooks_ready s H \<longleftrightarrow> (\<forall>(src, old)\<in>set H. hook_site (kmem s) src old (pool s))
     \<and> sorted_wrt (\<lambda>(f, old) (f', old'). hook_clear (pool s) f old f' \<and> hook_clear (pool s) f' old' f) H"

lemma hook_clear_mono: "hook_clear qs src old f \<Longrightarrow> set ps \<subseteq> set qs \<Longrightarrow> hook_clear ps src old f"
  unfolding hook_clear_def using hook_writes_mono by blast

lemma short_insn_cong:
  assumes "short_insn m a" and "\<And>x. in_range a 15 x \<Longrightarrow> m' x = m x"
  shows "short_insn m' a"
proof -
  from assms(1) obtain k where k: "k < 15" and run: "prefix_run m a k" by (auto simp: short_insn_def)
  have "prefix_run m' a k = prefix_run m a k"
    by (rule prefix_run_cong) (use k assms(2) in_range_add [of _ 15 a] in simp)
  with run k show ?thesis by (auto simp: short_insn_def)
qed

lemma hook_layout_cong:
  assumes "hook_layout m src b old" and same: "\<And>x. in_range src 40 x \<Longrightarrow> m' x = m x"
  shows "hook_layout m' src b old"
proof -
  have "short_insn m' (src + word_of_nat i)" if "i < 5" for i
  proof (rule short_insn_cong)
    show "short_insn m (src + word_of_nat i)"
      using assms(1) that by (simp add: hook_layout_def splice_layout_def)
    show "m' x = m x" if "in_range (src + word_of_nat i) 15 x" for x
      by (rule same, rule in_range_sub [OF that]) (use \<open>i < 5\<close> in simp_all)
  qed
  with assms(1) show ?thesis by (simp add: hook_layout_def splice_layout_def)
qed

lemma hook_site_cong:
  assumes "hook_site m f old ps" and "\<And>x. in_range (f - 5) 45 x \<Longrightarrow> m' x = m x"
    and "set qs \<subseteq> set ps"
  shows "hook_site m' f old qs"
proof -
  have "m' x = m x" if "in_range f 40 x" for x
    using assms(2) before_entry [OF that] by simp
  with assms(1,3) hook_layout_cong show ?thesis unfolding hook_site_def by blast
qed

lemma redirected_cong:
  assumes "redirected m f g" and same: "\<And>x. in_range (f - 5) 45 x \<Longrightarrow> m' x = m x"
  shows "redirected m' f g"
proof -
  have "jump_to m' f = jump_to m f"
    by (rule jump_to_cong, rule same) (use in_range_sub [of "f - 5" 5 5 _ 45] in simp)
  moreover have "jump_to m' (f - 5) = jump_to m (f - 5)"
    by (rule jump_to_cong, rule same) (use in_range_mono [of "f - 5" 5 _ 45] in simp)
  ultimately show ?thesis using assms(1) by (simp add: redirected_def)
qed

lemma clear_frame:
  assumes run: "set_hook n_cpu f g old s = Some (r, t)" and site: "hook_site (kmem s) f old (pool s)"
    and clear: "hook_clear (pool s) f old f'" and x: "in_range (f' - 5) 45 x"
  shows "kmem t x = kmem s x"
  by (rule set_hook_writes [OF run _ site]) (use clear x in \<open>simp add: hook_clear_def\<close>)

interpretation engine: hook_installer "set_hook n_cpu :: _ \<Rightarrow> _ \<Rightarrow> _ \<Rightarrow> 'z hstate_scheme \<Rightarrow> _"
  "\<lambda>s. redirected (kmem s)" hooks_ready hooks_kept for n_cpu
proof
  fix s t :: "'z hstate_scheme" and f g old H
  assume ready: "hooks_ready s ((f, old) # H)" and run: "set_hook n_cpu f g old s = Some (True, t)"
  from ready have site: "hook_site (kmem s) f old (pool s)" by (simp add: hooks_ready_def)
  note frame = clear_frame [OF run site] and sub = set_hook_pool [OF run]
  have "redirected (kmem t) f g"
    using set_hook_success [OF run] site by (simp add: hook_site_def)
  moreover have "hook_site (kmem t) f' old' (pool t)" if "(f', old') \<in> set H" for f' old'
  proof (rule hook_site_cong [OF _ frame sub])
    show "hook_site (kmem s) f' old' (pool s)" "hook_clear (pool s) f old f'"
      using ready that by (auto simp: hooks_ready_def)
  qed
  moreover have "sorted_wrt (\<lambda>(f, old) (f', old'). hook_clear (pool t) f old f' \<and> hook_clear (pool t) f' old' f) H"
    using ready by (auto simp: hooks_ready_def intro: hook_clear_mono [OF _ sub] elim!: sorted_wrt_mono_rel [rotated])
  moreover have "hooks_kept t H f"
    using ready hook_clear_mono [OF _ sub] by (fastforce simp: hooks_ready_def hooks_kept_def)
  ultimately show "redirected (kmem t) f g \<and> hooks_ready t H \<and> hooks_kept t H f"
    by (auto simp: hooks_ready_def)
next
  fix s t :: "'z hstate_scheme" and f g old H f' g'
  assume ready: "hooks_ready s ((f, old) # H)" and kept: "hooks_kept s ((f, old) # H) f'"
    and r: "redirected (kmem s) f' g'" and run: "set_hook n_cpu f g old s = Some (True, t)"
  from ready have site: "hook_site (kmem s) f old (pool s)" by (simp add: hooks_ready_def)
  have "hook_clear (pool s) f old f'" using kept by (simp add: hooks_kept_def)
  then have "redirected (kmem t) f' g'"
    by (intro redirected_cong [OF r] clear_frame [OF run site])
  moreover have "hooks_kept t H f'"
    using kept hook_clear_mono [OF _ set_hook_pool [OF run]] by (fastforce simp: hooks_kept_def)
  ultimately show "redirected (kmem t) f' g' \<and> hooks_kept t H f'" by simp
qed

end
