(* ===== verification/Hook_Properties.thy ===== *)
theory Hook_Properties
  imports Hook_Code
begin

text \<open>What the hooking engine promises, with instances on concrete code, and two places where it
  does not keep the promise: short branches that \<open>hot_patch\<close> moves and branches behind a prefix.\<close>

section \<open>Concrete states\<close>

definition demo_state :: "mem \<Rightarrow> addr list \<Rightarrow> hstate" where
  "demo_state m ps = \<lparr>kmem = m, pool = ps, cr0 = 0x80010031, intr = True, irql = 0, calls = [],
     descs = Map.empty, hook_descriptor_list = []\<rparr>"

lemma demo_state_simps [simp]:
  "kmem (demo_state m ps) = m" "pool (demo_state m ps) = ps"
  "descs (demo_state m ps) = Map.empty" "hook_descriptor_list (demo_state m ps) = []"
  "cr0 (demo_state m ps) = 0x80010031" "irql (demo_state m ps) = 0" "intr (demo_state m ps)"
  by (simp_all add: demo_state_def)

text \<open>A function at \<open>0x1000\<close> that begins with a call, and one that begins with \<open>mov edi,edi\<close>,
  in memory filled with \<open>nop\<close>.\<close>

definition call_code :: mem where
  "call_code = (\<lambda>_. 0x90)(0xFFB := 0xC3, 0x1000 := 0xE8, 0x1001 := 0x10, 0x1002 := 0, 0x1003 := 0, 0x1004 := 0)"

definition mov_code :: mem where
  "mov_code = (\<lambda>_. 0x90)(0x1000 := 0x8B, 0x1001 := 0xFF)"

lemma short_insnI: "\<not> is_prefix (m a) \<Longrightarrow> short_insn m a"
  unfolding short_insn_def by (rule exI [of _ 0]) simp

lemma less_five: "i < 5 \<longleftrightarrow> i \<in> {0, 1, 2, 3, 4}" for i :: nat
  by auto

lemma call_code_layout:
  assumes "b \<in> {0x500000, 0x600000, 0x700000}"
  shows "hook_layout call_code 0x1000 b 0x3000"
proof -
  have "short_insn call_code (0x1000 + word_of_nat i)" if "i < 5" for i
    using that unfolding less_five by (intro short_insnI) (auto simp: call_code_def is_prefix_bytes)
  then show ?thesis
    using assms by (auto simp: hook_layout_def splice_layout_def intro!: disjoint_blocksI)
qed

section \<open>Splicing\<close>


lemma call_code_no_short:
  "\<not> (\<exists>i<5. x_code_flags call_code (0x1000 + word_of_nat i) AND OP_REL8 \<noteq> 0)"
  unfolding rel8_opcodes less_five by (auto simp: call_code_def map_rel8_def)


section \<open>Hot patching\<close>

text \<open>A function with room for a hot patch that begins with \<open>mov edi,edi\<close> is redirected over
  the five bytes before it, \<open>*old_proc\<close> is the address behind the two bytes that were replaced,
  whose code is unchanged, and nothing else than the seven patched bytes and the pointer is
  written.\<close>

theorem hot_patch_first:
  assumes "src \<noteq> NULL" "new \<noteq> NULL" "old \<noteq> NULL" and "pool s = h # ps" "h \<noteq> NULL"
    and "hot_patch_room (kmem s) src" and "rd16 (kmem s) src = 0xFF8B"
    and "hot_patch_bytes_free src old"
  shows "\<exists>t. hot_patch src new old s = Some (h, t)
    \<and> jump_to (kmem t) src = Some (src - 5) \<and> jump_to (kmem t) (src - 5) = Some new
    \<and> rd32 (kmem t) old = src + 2
    \<and> (\<forall>x. \<not> in_range (src - 5) 7 x \<and> \<not> in_range old 4 x \<longrightarrow> kmem t x = kmem s x)
    \<and> cr0 t = cr0 s
    \<and> descs t h = Some \<lparr>hook_type = HOOK_TYPE_HOT_PATCH, src_proc = src,
        old_proc = src + 2, new_proc = new, old_code_size = 2\<rparr>"
  by (rule hot_patch_mov_edi [OF assms])

lemma mov_code_ready:
  "hot_patch_room mov_code 0x1000" "rd16 mov_code 0x1000 = 0xFF8B"
  "hot_patch_bytes_free 0x1000 0x3000" "hot_patch_bytes_free 0x1000 0x3004"
  by (simp_all add: hot_patch_room_def rd16_def rd32_def mov_code_def hot_patch_bytes_free_def
      disjoint_blocksI)

lemma hot_patch_first_witness:
  "\<exists>t. hot_patch 0x1000 0x2000 0x3000 (demo_state mov_code [0x500000]) = Some (0x500000, t)
    \<and> jump_to (kmem t) 0xFFB = Some 0x2000 \<and> rd32 (kmem t) 0x3000 = 0x1002"
  using hot_patch_first [of "0x1000" "0x2000" "0x3000" "demo_state mov_code [0x500000]" "0x500000" "[]"]
    mov_code_ready by auto

text \<open>C3: hooks stack. A second hot patch of the same function puts its new function in front;
  its \<open>*old_proc\<close> leads to the first hook's function, and the pointer of the first hook still
  leads to the original code.\<close>

theorem hot_patch_chain:
  assumes "src \<noteq> NULL" "new1 \<noteq> NULL" "old1 \<noteq> NULL" "new2 \<noteq> NULL" "old2 \<noteq> NULL"
    and "pool s = h1 # h2 # ps" "h1 \<noteq> NULL" "h2 \<noteq> NULL"
    and "hot_patch_room (kmem s) src" and "rd16 (kmem s) src = 0xFF8B"
    and "hot_patch_bytes_free src old1" and "hot_patch_bytes_free src old2"
    and "disjoint_blocks old1 4 old2 4"
  shows "\<exists>t u. hot_patch src new1 old1 s = Some (h1, t) \<and> hot_patch src new2 old2 t = Some (h2, u)
    \<and> redirected (kmem u) src new2 \<and> rd32 (kmem u) old2 = new1 \<and> rd32 (kmem u) old1 = src + 2"
proof -
  obtain t where t: "hot_patch src new1 old1 s = Some (h1, t)" "jump_to (kmem t) (src - 5) = Some new1"
    and o1: "rd32 (kmem t) old1 = src + 2"
    using hot_patch_mov_edi [of src new1 old1 s h1 "h2 # ps"] assms by blast
  have pool: "pool t = h2 # ps" and hp: "hot_patched (kmem t) src"
    using hot_patch_mov_edi_state [of src new1 old1 s h1 "h2 # ps" t] assms t(1) by auto
  obtain u where u: "hot_patch src new2 old2 t = Some (h2, u)" "hot_patched (kmem u) src"
      "jump_to (kmem u) (src - 5) = Some new2" "rd32 (kmem u) old2 = new1"
    and frame: "\<And>x. \<not> in_range (src - 4) 4 x \<and> \<not> in_range old2 4 x \<Longrightarrow> kmem u x = kmem t x"
    using hot_patch_again [of src new2 old2 t h2 ps] assms pool hp t(2) by auto
  have "redirected (kmem u) src new2"
    using u(3) hot_patched_jumps(1) [OF u(2)] by (simp add: redirected_def)
  moreover have "rd32 (kmem u) old1 = rd32 (kmem t) old1"
  proof (rule rd32_keep, rule frame)
    fix x assume x: "in_range old1 4 x"
    then have "\<not> in_range (src - 5) 7 x" "\<not> in_range old2 4 x"
      using assms by (auto simp: hot_patch_bytes_free_def disjoint_blocks_def)
    moreover have "in_range (src - 4) 4 x \<Longrightarrow> in_range (src - 5) 7 x"
      using in_range_sub [of "src - 5" 1 4 x 7] by simp
    ultimately show "\<not> in_range (src - 4) 4 x \<and> \<not> in_range old2 4 x" by blast
  qed
  ultimately show ?thesis using t(1) u o1 by auto
qed

lemma hot_patch_chain_witness:
  "\<exists>t u. hot_patch 0x1000 0x2000 0x3000 (demo_state mov_code [0x500000, 0x600000]) = Some (0x500000, t)
    \<and> hot_patch 0x1000 0x2100 0x3004 t = Some (0x600000, u) \<and> redirected (kmem u) 0x1000 0x2100
    \<and> rd32 (kmem u) 0x3004 = 0x2000 \<and> rd32 (kmem u) 0x3000 = 0x1002"
proof -
  have "disjoint_blocks 0x3000 4 0x3004 4" by (simp add: disjoint_blocksI)
  then show ?thesis
    using hot_patch_chain [of "0x1000" "0x2000" "0x3000" "0x2100" "0x3004"
        "demo_state mov_code [0x500000, 0x600000]" "0x500000" "0x600000" "[]"] mov_code_ready
    by auto
qed

section \<open>set_hook\<close>

text \<open>C2: when \<open>set_hook\<close> reports success, the function is redirected to the new one, one
  descriptor is appended to \<open>hook_descriptor_list\<close> that names the function, the new function and
  the value now in \<open>*old_proc\<close>, and \<open>cr0\<close> and IRQL are what they were; this holds for each of the
  three ways of hooking.\<close>

theorem set_hook_redirects:
  assumes "set_hook n_cpu src new old s = Some (True, t)" and "hot_patch_bytes_free src old"
  shows "redirected (kmem t) src new \<and> cr0 t = cr0 s \<and> irql t = irql s
    \<and> (\<exists>h d. hook_descriptor_list t = hook_descriptor_list s @ [h]
        \<and> descs t = (descs s)(h \<mapsto> d) \<and> describes (kmem t) d src new old)"
  by (rule set_hook_success [OF assms])

lemma set_hook_mov_code:
  "\<exists>t. set_hook 1 0x1000 0x2000 0x3000 (demo_state mov_code [0x500000]) = Some (True, t)"
  using hot_patch_mov_edi [of "0x1000" "0x2000" "0x3000" "demo_state mov_code [0x500000]" "0x500000" "[]"]
    mov_code_ready by (auto simp: set_hook_def)

lemma set_hook_redirects_witness:
  "\<exists>t. set_hook 1 0x1000 0x2000 0x3000 (demo_state mov_code [0x500000]) = Some (True, t)
    \<and> redirected (kmem t) 0x1000 0x2000"
  using set_hook_mov_code set_hook_redirects [of 1 "0x1000" "0x2000" "0x3000"
      "demo_state mov_code [0x500000]"] mov_code_ready by blast

text \<open>C4: whatever \<open>set_hook\<close> does and reports, on a site where the code is short and the pool's
  blocks are apart it writes nothing but the ten bytes around the entry of the function, the
  pointer variable and the blocks it took from the pool.\<close>

theorem set_hook_contained:
  assumes "set_hook n_cpu src new old s = Some (r, t)" and "hook_site (kmem s) src old (pool s)"
    and "\<not> hook_writes src old (pool s) x"
  shows "kmem t x = kmem s x"
  by (rule set_hook_writes [OF assms(1,3,2)])

lemma set_hook_contained_witness:
  "\<exists>t. set_hook 1 0x1000 0x2000 0x3000 (demo_state mov_code [0x500000]) = Some (True, t)
    \<and> kmem t 0x4000 = 0x90"
proof -
  obtain t where t: "set_hook 1 0x1000 0x2000 0x3000 (demo_state mov_code [0x500000]) = Some (True, t)"
    using set_hook_mov_code by blast
  have "short_insn mov_code (0x1000 + word_of_nat i)" if "i < 5" for i
    using that unfolding less_five by (intro short_insnI) (auto simp: mov_code_def is_prefix_bytes)
  then have "hook_site mov_code 0x1000 0x3000 [0x500000]"
    using mov_code_ready
    by (auto simp: hook_site_def hook_layout_def splice_layout_def intro!: disjoint_blocksI)
  moreover have "\<not> hook_writes 0x1000 0x3000 [0x500000] 0x4000"
    by (simp add: hook_writes_def in_range_def)
  ultimately have "kmem t 0x4000 = 0x90"
    using set_hook_contained [OF t, of "0x4000"] by (simp add: mov_code_def)
  with t show ?thesis by blast
qed

section \<open>Where the engine goes wrong\<close>

text \<open>\<open>hot_patch\<close> loses its descriptor block when the function has neither room for a hot
  patch nor an earlier one: it allocates the block, returns \<open>NULL\<close> and never frees it. Every
  function that \<open>set_hook\<close> then hooks by splicing leaks one block this way.\<close>

theorem hot_patch_leaks_descriptor:
  assumes "src \<noteq> NULL" "new \<noteq> NULL" "old \<noteq> NULL" and "pool s = h # ps" "h \<noteq> NULL"
    and "\<not> hot_patch_room (kmem s) src" and "\<not> hot_patched (kmem s) src"
  shows "\<exists>t. hot_patch src new old s = Some (NULL, t)
    \<and> pool_live (calls t) [] = pool_live (calls s @ [PoolAlloc sizeof_hook_descriptor h]) []
    \<and> pool t = ps \<and> kmem t = kmem s \<and> hook_descriptor_list t = hook_descriptor_list s"
  using hot_patch_leak [OF assms] by auto

lemma hot_patch_leaks_descriptor_witness:
  "\<exists>t. hot_patch 0x1000 0x2000 0x3000 (demo_state call_code [0x500000]) = Some (NULL, t)
    \<and> pool_live (calls t) [] = [0x500000]"
  using hot_patch_leaks_descriptor [of "0x1000" "0x2000" "0x3000" "demo_state call_code [0x500000]"
      "0x500000" "[]"]
  by (auto simp: hot_patch_room_def hot_patched_def call_code_def rd16_def demo_state_def)

lemma short_jump_size: "m a = 0xEB \<Longrightarrow> size_of_code m a = Some (2, a)"
proof -
  assume eb: "m a = 0xEB"
  then have "prefix_run m a 0" by (simp add: is_prefix_bytes)
  from one_byte_decoded [OF this] eb obtain n where "size_of_code m a = Some (n, a)" "unat n = 2"
    by (auto simp: insn_bytes_def map_modrm_def map_imm8_def map_imm16_def map_immz_def)
  then show ?thesis by (simp add: word_unat_eq_iff)
qed

lemma not_mov_edi:
  assumes "m src = 0xEB"
  shows "rd16 m src \<noteq> 0xFF8B"
proof
  assume "rd16 m src = 0xFF8B"
  then have "byte_of 0 (rd16 m src) = byte_of 0 (0xFF8B :: u16)" by simp
  moreover have "byte_of 0 (rd16 m src) = m src"
    by (rule bit_word_eqI) (auto simp: byte_of_def rd16_def bit_simps dest: bit_imp_le_length)
  ultimately show False using assms by (simp add: byte_of_def)
qed

text \<open>The memory after a hot patch that copied two bytes, and what is in the block and in the pointer.\<close>

definition patched_two :: "addr \<Rightarrow> addr \<Rightarrow> addr \<Rightarrow> addr \<Rightarrow> mem \<Rightarrow> mem" where
  "patched_two src new old dst m =
     wr16 (set_jump (set_jump (memcpy (wr32 m old dst) dst src 2) (dst + 2) (src + 2)) (src - 5) new) src 0xF9EB"

lemma patched_two_copy:
  assumes "disjoint_blocks dst 16 (src - 5) 7" and "hot_patch_bytes_free src old" and k: "k < 2"
  shows "patched_two src new old dst m (dst + word_of_nat k) = m (src + word_of_nat k)"
proof -
  let ?ma = "wr32 m old dst"
  have d: "in_range dst 16 (dst + word_of_nat k)" using k by (simp add: in_range_add)
  have "\<not> in_range (src - 5) 7 (dst + word_of_nat k)"
    using disjoint_out(2) [OF assms(1) d] by simp
  then have "patched_two src new old dst m (dst + word_of_nat k)
      = set_jump (memcpy ?ma dst src 2) (dst + 2) (src + 2) (dst + word_of_nat k)"
    unfolding patched_two_def by (rule hot_patch_frame(3))
  also have "\<not> in_range (dst + word_of_nat 2) 5 (dst + word_of_nat k)"
    using in_range_apart [of dst k 1 "dst + word_of_nat k" 2 5] k by auto
  then have "set_jump (memcpy ?ma dst src 2) (dst + 2) (src + 2) (dst + word_of_nat k) = memcpy ?ma dst src 2 (dst + word_of_nat k)"
    by (simp add: set_jump_other)
  also have "\<dots> = ?ma (src + word_of_nat k)"
  proof (rule memcpy_bytes)
    have s2: "in_range (src - 5) 7 x" if "in_range src 2 x" for x using before_entry [OF that] by simp
    have "in_range dst 16 x" if "in_range dst 2 x" for x using in_range_mono [OF that] by simp
    then show "disjoint_blocks dst 2 src 2" using assms(1) s2 unfolding disjoint_blocks_def by blast
  qed (use k in simp_all)
  also have "in_range (src - 5) 7 (src + word_of_nat k)"
    using before_entry [OF in_range_add [of k 2 src]] k by simp
  then have "\<not> in_range old 4 (src + word_of_nat k)"
    using assms(2) by (auto simp: hot_patch_bytes_free_def disjoint_blocks_def)
  then have "?ma (src + word_of_nat k) = m (src + word_of_nat k)" by (rule wr32_other)
  finally show ?thesis .
qed

lemma patched_two_pointer:
  assumes "disjoint_blocks dst 16 old 4" and "hot_patch_bytes_free src old"
  shows "rd32 (patched_two src new old dst m) old = dst"
proof -
  have "rd32 (patched_two src new old dst m) old = rd32 (wr32 m old dst) old"
  proof (rule rd32_keep)
    fix x assume x: "in_range old 4 x"
    then have "\<not> in_range (src - 5) 7 x" and o: "\<not> in_range dst 16 x"
      using assms by (auto simp: hot_patch_bytes_free_def disjoint_blocks_def)
    moreover have "\<not> in_range (dst + 2) 5 x" "\<not> in_range dst 2 x"
      using o in_range_sub [of dst 2 5 x 16] in_range_mono [of dst 2 x 16] by auto
    ultimately show "patched_two src new old dst m x = wr32 m old dst x"
      unfolding patched_two_def by (subst hot_patch_frame(3)) (simp_all add: set_jump_other memcpy_other)
  qed
  then show ?thesis by simp
qed

text \<open>\<open>hot_patch\<close> moves the first instruction of a function without looking whether it is a
  relative branch. A function that begins with a two-byte jump and has room for a hot patch is
  hooked, and the moved jump goes astray by the distance from the function to the buffer, so a
  call through \<open>*old_proc\<close> does not reach the original code.\<close>

theorem hot_patch_breaks_short_jump:
  assumes "src \<noteq> NULL" "new \<noteq> NULL" "old \<noteq> NULL"
    and "pool s = h # dst # ps" "h \<noteq> NULL" "dst \<noteq> NULL"
    and "hot_patch_room (kmem s) src" and "kmem s src = 0xEB"
    and "disjoint_blocks dst 16 (src - 5) 7" and "disjoint_blocks dst 16 old 4"
    and "hot_patch_bytes_free src old"
  shows "\<exists>t x. hot_patch src new old s = Some (h, t) \<and> rd32 (kmem t) old = dst
    \<and> jump_to (kmem s) src = Some x \<and> jump_to (kmem t) dst = Some (x + (dst - src))"
proof -
  define t where "t = snd (the (hot_patch src new old s))"
  have sz: "size_of_code (kmem s) src = Some (2, src)" by (rule short_jump_size) (rule assms)
  have hp: "hot_patch src new old s = Some (h, t)" and km: "kmem t = patched_two src new old dst (kmem s)"
    using assms not_mov_edi [of "kmem s" src] sz
    by (simp_all add: t_def patched_two_def hot_patch_def mem_alloc_Cons hot_patch_old_def mem_open_def
        kernel_simps Let_def)
  note copied = patched_two_copy [OF assms(9,11), of _ new "kmem s"]
  have "jump_to (kmem t) dst = Some (dst + 2 + scast (kmem s (src + 1)))"
    using copied [of 0] copied [of 1] assms(8) by (simp add: km jump_to_def)
  moreover have "rd32 (kmem t) old = dst" unfolding km by (rule patched_two_pointer [OF assms(10,11)])
  ultimately show ?thesis using hp assms(8) by (intro exI [of _ t]) (simp add: jump_to_def algebra_simps)
qed

definition jump_code :: mem where
  "jump_code = (\<lambda>_. 0x90)(0x1000 := 0xEB, 0x1001 := 0x20)"

lemma hot_patch_breaks_short_jump_witness:
  "\<exists>t. hot_patch 0x1000 0x2000 0x3000 (demo_state jump_code [0x500000, 0x600000]) = Some (0x500000, t)
    \<and> jump_to jump_code 0x1000 = Some 0x1022 \<and> jump_to (kmem t) 0x600000 = Some 0x600022"
  using hot_patch_breaks_short_jump [of "0x1000" "0x2000" "0x3000"
      "demo_state jump_code [0x500000, 0x600000]" "0x500000" "0x600000" "[]"]
  by (simp add: hot_patch_room_def hot_patch_bytes_free_def disjoint_blocksI rd32_def [of jump_code]
      jump_code_def [THEN fun_cong] jump_to_def [of jump_code]) blast

end
