(* ===== verification/Global_Lock.thy ===== *)
theory Global_Lock
  imports Prelude
begin

text \<open>
  \<open>global_lock\<close> and \<open>global_unlock\<close> of \<open>src/kernel/sys/code_hook.c\<close>: one processor stops all the
  others while it patches code. The processors are numbered below \<open>n_cpu\<close>, \<open>me\<close> is the one that
  locks. Each processor has a program counter; a step of the relation is one access to the shared
  counters by one processor, in any order between processors. A processor that spins is a
  processor whose next step waits for its condition. DPC delivery is a step of its own and can
  happen at any time after the DPC is queued.
\<close>

section \<open>State\<close>

text \<open>Where the DPC routine of a processor is: \<open>global_lock_proc\<close>, line by line.\<close>

datatype dpc_pc =
    Not_Queued | In_Queue          \<comment> \<open>before \<open>KeInsertQueueDpc\<close>, before delivery\<close>
  | Dec_Inp                        \<comment> \<open>\<open>_disable()\<close> done, at \<open>lock_dec(&inp_dpcs)\<close>\<close>
  | Spin_Locked                    \<comment> \<open>\<open>while (locked != 0)\<close>\<close>
  | Dec_Refs                       \<comment> \<open>\<open>_enable()\<close> done, at \<open>lock_dec(&dpc_refs) == 0\<close>\<close>
  | Free_Dpc                       \<comment> \<open>\<open>ExFreePool(cpu_dpc)\<close>\<close>
  | Dec_Out                        \<comment> \<open>\<open>lock_dec(&out_dpcs)\<close>\<close>
  | Dpc_Done

text \<open>Where the locking processor is: \<open>global_lock\<close>, the critical section, \<open>global_unlock\<close>.\<close>

datatype lock_pc =
    Set_Locked | Set_Inp | Set_Out | Set_Refs
  | Insert_Dpc nat                 \<comment> \<open>the \<open>for\<close> loop, at \<open>i\<close>\<close>
  | Wait_Inp                       \<comment> \<open>\<open>while (inp_dpcs != 0)\<close>\<close>
  | Lock_Held                      \<comment> \<open>\<open>_disable()\<close> done, \<open>global_lock\<close> has returned\<close>
  | Wait_Out                       \<comment> \<open>\<open>locked = 0\<close> done, \<open>while (out_dpcs != 0)\<close>\<close>
  | Unlocked                       \<comment> \<open>\<open>_enable()\<close> done, \<open>global_unlock\<close> has returned\<close>

record lock_state =
  locked :: u32
  inp_dpcs :: u32
  out_dpcs :: u32
  dpc_refs :: u32
  lpc :: lock_pc
  dpcs :: "nat \<Rightarrow> dpc_pc"
  intr_on :: "nat \<Rightarrow> bool"
  dpc_freed :: nat

section \<open>Steps\<close>

text \<open>One step of the DPC routine on processor \<open>i\<close>; \<open>None\<close> while it waits.\<close>

definition set_pc :: "nat \<Rightarrow> dpc_pc \<Rightarrow> lock_state \<Rightarrow> lock_state" where
  "set_pc i pc s = s\<lparr>dpcs := (dpcs s)(i := pc)\<rparr>"

definition global_lock_proc :: "nat \<Rightarrow> lock_state \<Rightarrow> lock_state option" where
  "global_lock_proc i s =
     (case dpcs s i of
        Not_Queued \<Rightarrow> None
      | In_Queue \<Rightarrow> Some (set_pc i Dec_Inp (s\<lparr>intr_on := (intr_on s)(i := False)\<rparr>))
      | Dec_Inp \<Rightarrow> Some (set_pc i Spin_Locked (s\<lparr>inp_dpcs := inp_dpcs s - 1\<rparr>))
      | Spin_Locked \<Rightarrow>
          if locked s \<noteq> 0 then None
          else Some (set_pc i Dec_Refs (s\<lparr>intr_on := (intr_on s)(i := True)\<rparr>))
      | Dec_Refs \<Rightarrow>
          let refs = dpc_refs s - 1
          in Some (set_pc i (if refs = 0 then Free_Dpc else Dec_Out) (s\<lparr>dpc_refs := refs\<rparr>))
      | Free_Dpc \<Rightarrow> Some (set_pc i Dec_Out (s\<lparr>dpc_freed := dpc_freed s + 1\<rparr>))
      | Dec_Out \<Rightarrow> Some (set_pc i Dpc_Done (s\<lparr>out_dpcs := out_dpcs s - 1\<rparr>))
      | Dpc_Done \<Rightarrow> None)"

text \<open>One step of \<open>global_lock\<close>, up to its return.\<close>

definition global_lock :: "nat \<Rightarrow> nat \<Rightarrow> lock_state \<Rightarrow> lock_state option" where
  "global_lock n_cpu me s =
     (case lpc s of
        Set_Locked \<Rightarrow> Some (s\<lparr>locked := 1, lpc := Set_Inp\<rparr>)
      | Set_Inp \<Rightarrow> Some (s\<lparr>inp_dpcs := word_of_nat n_cpu - 1, lpc := Set_Out\<rparr>)
      | Set_Out \<Rightarrow> Some (s\<lparr>out_dpcs := inp_dpcs s, lpc := Set_Refs\<rparr>)
      | Set_Refs \<Rightarrow> Some (s\<lparr>dpc_refs := inp_dpcs s, lpc := Insert_Dpc 0\<rparr>)
      | Insert_Dpc i \<Rightarrow>
          if i < n_cpu
          then let s = (if i \<noteq> me then set_pc i In_Queue s else s)
               in Some (s\<lparr>lpc := Insert_Dpc (i + 1)\<rparr>)
          else Some (s\<lparr>lpc := Wait_Inp\<rparr>)
      | Wait_Inp \<Rightarrow>
          if inp_dpcs s \<noteq> 0 then None
          else Some (s\<lparr>intr_on := (intr_on s)(me := False), lpc := Lock_Held\<rparr>)
      | _ \<Rightarrow> None)"

text \<open>One step of \<open>global_unlock\<close>.\<close>

definition global_unlock :: "nat \<Rightarrow> lock_state \<Rightarrow> lock_state option" where
  "global_unlock me s =
     (case lpc s of
        Lock_Held \<Rightarrow> Some (s\<lparr>locked := 0, lpc := Wait_Out\<rparr>)
      | Wait_Out \<Rightarrow>
          if out_dpcs s \<noteq> 0 then None
          else Some (s\<lparr>intr_on := (intr_on s)(me := True), lpc := Unlocked\<rparr>)
      | _ \<Rightarrow> None)"

inductive lock_step :: "nat \<Rightarrow> nat \<Rightarrow> lock_state \<Rightarrow> lock_state \<Rightarrow> bool" for n_cpu me where
  step_dpc: "i < n_cpu \<Longrightarrow> i \<noteq> me \<Longrightarrow> global_lock_proc i s = Some t \<Longrightarrow> lock_step n_cpu me s t"
| step_lock: "global_lock n_cpu me s = Some t \<Longrightarrow> lock_step n_cpu me s t"
| step_unlock: "global_unlock me s = Some t \<Longrightarrow> lock_step n_cpu me s t"

inductive_cases lock_stepE: "lock_step n_cpu me s t"

definition lock_start :: "lock_state \<Rightarrow> bool" where
  "lock_start s \<longleftrightarrow> lpc s = Set_Locked \<and> (\<forall>i. dpcs s i = Not_Queued) \<and> (\<forall>i. intr_on s i)
     \<and> dpc_freed s = 0"

inductive lock_reach :: "nat \<Rightarrow> nat \<Rightarrow> lock_state \<Rightarrow> bool" for n_cpu me where
  reach_start: "lock_start s \<Longrightarrow> lock_reach n_cpu me s"
| reach_step: "lock_reach n_cpu me s \<Longrightarrow> lock_step n_cpu me s t \<Longrightarrow> lock_reach n_cpu me t"

section \<open>Counting processors\<close>

text \<open>How far a routine is, and the number of other processors up to a stage.\<close>

fun stage :: "dpc_pc \<Rightarrow> nat" where
  "stage Not_Queued = 0"
| "stage In_Queue = 1"
| "stage Dec_Inp = 2"
| "stage Spin_Locked = 3"
| "stage Dec_Refs = 4"
| "stage Free_Dpc = 5"
| "stage Dec_Out = 6"
| "stage Dpc_Done = 7"

definition others :: "nat \<Rightarrow> nat \<Rightarrow> nat set" where
  "others n_cpu me = {..<n_cpu} - {me}"

definition behind :: "nat \<Rightarrow> nat \<Rightarrow> nat \<Rightarrow> (nat \<Rightarrow> dpc_pc) \<Rightarrow> nat" where
  "behind n_cpu me k f = card {i \<in> others n_cpu me. stage (f i) \<le> k}"

lemma finite_others [simp]: "finite (others n_cpu me)"
  by (simp add: others_def)

lemma card_others: "me < n_cpu \<Longrightarrow> card (others n_cpu me) = n_cpu - 1"
  by (simp add: others_def)

lemma behind_le: "me < n_cpu \<Longrightarrow> behind n_cpu me k f \<le> n_cpu - 1"
  unfolding behind_def using card_others by (metis (no_types, lifting) card_mono finite_others mem_Collect_eq subsetI)

lemma behind_zero: "behind n_cpu me k f = 0 \<longleftrightarrow> (\<forall>i \<in> others n_cpu me. k < stage (f i))"
  by (auto simp: behind_def not_le)

lemma behind_mono: "j \<le> k \<Longrightarrow> behind n_cpu me j f \<le> behind n_cpu me k f"
  unfolding behind_def by (rule card_mono) auto

lemma behind_all: "(\<And>i. i \<in> others n_cpu me \<Longrightarrow> stage (f i) \<le> k) \<Longrightarrow> me < n_cpu \<Longrightarrow> behind n_cpu me k f = n_cpu - 1"
proof -
  assume a: "\<And>i. i \<in> others n_cpu me \<Longrightarrow> stage (f i) \<le> k" and m: "me < n_cpu"
  have "{i \<in> others n_cpu me. stage (f i) \<le> k} = others n_cpu me" using a by auto
  then show ?thesis using m by (simp add: behind_def card_others)
qed

text \<open>Moving one processor from one stage to a later one.\<close>

lemma behind_step:
  assumes i: "i \<in> others n_cpu me" and le: "stage (f i) \<le> stage pc"
  shows "behind n_cpu me k (f(i := pc)) =
    (if stage (f i) \<le> k \<and> k < stage pc then behind n_cpu me k f - 1 else behind n_cpu me k f)"
proof -
  let ?A = "{j \<in> others n_cpu me. stage (f j) \<le> k}"
  have "{j \<in> others n_cpu me. stage ((f(i := pc)) j) \<le> k}
      = (if stage pc \<le> k then insert i ?A else ?A - {i})" using i by auto
  then show ?thesis using i le by (auto simp: behind_def insert_absorb)
qed

lemma behind_pos: "i \<in> others n_cpu me \<Longrightarrow> stage (f i) \<le> k \<Longrightarrow> 0 < behind n_cpu me k f"
  using behind_zero [of n_cpu me k f] by force

section \<open>The invariant\<close>

text \<open>The counters hold the number of processors that have still to decrement them.\<close>

definition counters_ok :: "nat \<Rightarrow> nat \<Rightarrow> lock_state \<Rightarrow> bool" where
  "counters_ok n_cpu me s \<longleftrightarrow> inp_dpcs s = word_of_nat (behind n_cpu me 2 (dpcs s))
     \<and> out_dpcs s = word_of_nat (behind n_cpu me 6 (dpcs s))
     \<and> dpc_refs s = word_of_nat (behind n_cpu me 4 (dpcs s))"

text \<open>The block of DPC objects: freed or about to be freed by one processor, once all are counted off.\<close>

definition freed_ok :: "nat \<Rightarrow> nat \<Rightarrow> lock_state \<Rightarrow> bool" where
  "freed_ok n_cpu me s \<longleftrightarrow>
     dpc_freed s + behind n_cpu me 5 (dpcs s) =
       behind n_cpu me 4 (dpcs s) + (if behind n_cpu me 4 (dpcs s) = 0 \<and> 1 < n_cpu then 1 else 0)"

definition intr_ok :: "nat \<Rightarrow> nat \<Rightarrow> lock_state \<Rightarrow> bool" where
  "intr_ok n_cpu me s \<longleftrightarrow>
     (\<forall>i \<in> others n_cpu me. intr_on s i \<longleftrightarrow> stage (dpcs s i) \<noteq> 2 \<and> stage (dpcs s i) \<noteq> 3)
     \<and> (intr_on s me \<longleftrightarrow> lpc s \<noteq> Lock_Held \<and> lpc s \<noteq> Wait_Out)"

text \<open>What the locking processor's position says of the others.\<close>

fun phase_ok :: "nat \<Rightarrow> nat \<Rightarrow> lock_state \<Rightarrow> lock_pc \<Rightarrow> bool" where
  "phase_ok n_cpu me s Set_Locked \<longleftrightarrow> (\<forall>i \<in> others n_cpu me. stage (dpcs s i) = 0)"
| "phase_ok n_cpu me s Set_Inp \<longleftrightarrow> (\<forall>i \<in> others n_cpu me. stage (dpcs s i) = 0) \<and> locked s = 1"
| "phase_ok n_cpu me s Set_Out \<longleftrightarrow> (\<forall>i \<in> others n_cpu me. stage (dpcs s i) = 0) \<and> locked s = 1
     \<and> inp_dpcs s = word_of_nat (n_cpu - 1)"
| "phase_ok n_cpu me s Set_Refs \<longleftrightarrow> (\<forall>i \<in> others n_cpu me. stage (dpcs s i) = 0) \<and> locked s = 1
     \<and> inp_dpcs s = word_of_nat (n_cpu - 1) \<and> out_dpcs s = word_of_nat (n_cpu - 1)"
| "phase_ok n_cpu me s (Insert_Dpc k) \<longleftrightarrow> locked s = 1 \<and> counters_ok n_cpu me s
     \<and> (\<forall>i \<in> others n_cpu me. stage (dpcs s i) \<le> 3 \<and> (k \<le> i \<longleftrightarrow> stage (dpcs s i) = 0))"
| "phase_ok n_cpu me s Wait_Inp \<longleftrightarrow> locked s = 1 \<and> counters_ok n_cpu me s
     \<and> (\<forall>i \<in> others n_cpu me. 1 \<le> stage (dpcs s i) \<and> stage (dpcs s i) \<le> 3)"
| "phase_ok n_cpu me s Lock_Held \<longleftrightarrow> locked s = 1 \<and> counters_ok n_cpu me s
     \<and> (\<forall>i \<in> others n_cpu me. stage (dpcs s i) = 3)"
| "phase_ok n_cpu me s Wait_Out \<longleftrightarrow> locked s = 0 \<and> counters_ok n_cpu me s
     \<and> (\<forall>i \<in> others n_cpu me. 3 \<le> stage (dpcs s i))"
| "phase_ok n_cpu me s Unlocked \<longleftrightarrow> locked s = 0 \<and> counters_ok n_cpu me s
     \<and> (\<forall>i \<in> others n_cpu me. stage (dpcs s i) = 7)"

definition lock_inv :: "nat \<Rightarrow> nat \<Rightarrow> lock_state \<Rightarrow> bool" where
  "lock_inv n_cpu me s \<longleftrightarrow> freed_ok n_cpu me s \<and> intr_ok n_cpu me s \<and> phase_ok n_cpu me s (lpc s)"

lemma stage_simps [simp]: "stage pc \<le> 7"
  by (cases pc) auto

lemma stage_eq:
  "stage pc = 0 \<longleftrightarrow> pc = Not_Queued" "stage pc = 3 \<longleftrightarrow> pc = Spin_Locked" "stage pc = 7 \<longleftrightarrow> pc = Dpc_Done"
  by (cases pc; simp)+

lemma dec_count: "x = word_of_nat c \<Longrightarrow> 0 < c \<Longrightarrow> x - 1 = word_of_nat (c - 1)" for x :: u32
  by (simp add: of_nat_diff)

lemma count_zero: "c < 2 ^ 32 \<Longrightarrow> (word_of_nat c :: u32) = 0 \<longleftrightarrow> c = 0"
  by (simp add: word_unat_eq_iff unat_of_nat take_bit_nat_eq_self)

lemma lock_inv_start: "lock_start s \<Longrightarrow> me < n_cpu \<Longrightarrow> lock_inv n_cpu me s"
  by (auto simp: lock_start_def lock_inv_def freed_ok_def intr_ok_def behind_all)

lemma dpc_phase:
  assumes "phase_ok n_cpu me s (lpc s)" and "i \<in> others n_cpu me" and "dpcs s i \<noteq> Not_Queued"
  shows "counters_ok n_cpu me s"
  using assms by (cases "lpc s") (auto simp: stage_eq)

lemma phase_step:
  assumes ph: "phase_ok n_cpu me s (lpc s)" and o: "i \<in> others n_cpu me"
    and t: "dpcs t = (dpcs s)(i := pc)" "lpc t = lpc s" "locked t = locked s"
    and cn: "counters_ok n_cpu me t" and old: "1 \<le> stage (dpcs s i)" "stage (dpcs s i) < stage pc"
    and spin: "3 \<le> stage (dpcs s i) \<Longrightarrow> 3 < stage (dpcs s i) \<or> locked s = 0"
    and new: "stage (dpcs s i) < 3 \<Longrightarrow> stage pc \<le> 3"
  shows "phase_ok n_cpu me t (lpc t)"
proof (cases "lpc s")
  case (Insert_Dpc k)
  from ph have l: "locked s = 1" and q: "\<And>j. j \<in> others n_cpu me \<Longrightarrow>
      stage (dpcs s j) \<le> 3 \<and> (k \<le> j \<longleftrightarrow> stage (dpcs s j) = 0)"
    by (simp_all add: Insert_Dpc)
  have "stage (dpcs s i) < 3" using spin q [OF o] l by force
  then have "stage (dpcs t j) \<le> 3 \<and> (k \<le> j \<longleftrightarrow> stage (dpcs t j) = 0)" if "j \<in> others n_cpu me" for j
    using q [OF that] new old by (cases "j = i") (simp_all add: t)
  with cn l show ?thesis by (simp add: t Insert_Dpc)
next
  case Wait_Inp
  from ph have l: "locked s = 1" and q: "\<And>j. j \<in> others n_cpu me \<Longrightarrow>
      1 \<le> stage (dpcs s j) \<and> stage (dpcs s j) \<le> 3"
    by (simp_all add: Wait_Inp)
  have "stage (dpcs s i) < 3" using spin q [OF o] l by force
  then have "1 \<le> stage (dpcs t j) \<and> stage (dpcs t j) \<le> 3" if "j \<in> others n_cpu me" for j
    using q [OF that] new old by (cases "j = i") (simp_all add: t)
  with cn l show ?thesis by (simp add: t Wait_Inp)
next
  case Wait_Out
  from ph have l: "locked s = 0" and q: "\<And>j. j \<in> others n_cpu me \<Longrightarrow> 3 \<le> stage (dpcs s j)"
    by (simp_all add: Wait_Out)
  have "3 \<le> stage (dpcs t j)" if "j \<in> others n_cpu me" for j
    using q [OF that] old by (cases "j = i") (simp_all add: t)
  with cn l show ?thesis by (simp add: t Wait_Out)
next
  case Lock_Held
  with ph o have "stage (dpcs s i) = 3" "locked s = 1" by simp_all
  with spin show ?thesis by simp
next
  case Unlocked
  with ph o have "stage (dpcs s i) = 7" by simp
  with old stage_simps [of pc] show ?thesis by simp
qed (use ph o old in simp_all)

lemma intr_step:
  assumes "intr_ok n_cpu me s" and "i \<in> others n_cpu me" and "lpc t = lpc s"
    and "dpcs t = (dpcs s)(i := pc)" and "\<And>j. j \<noteq> i \<Longrightarrow> intr_on t j = intr_on s j"
    and "intr_on t i \<longleftrightarrow> stage pc \<noteq> 2 \<and> stage pc \<noteq> 3"
  shows "intr_ok n_cpu me t"
  using assms by (auto simp: intr_ok_def others_def)

lemma dpc_step_inv:
  assumes inv: "lock_inv n_cpu me s" and i: "i < n_cpu" "i \<noteq> me" and n: "me < n_cpu" "n_cpu \<le> 127"
    and run: "global_lock_proc i s = Some t"
  shows "lock_inv n_cpu me t"
proof -
  have o: "i \<in> others n_cpu me" using i by (simp add: others_def)
  have nq: "dpcs s i \<noteq> Not_Queued" using run by (auto simp: global_lock_proc_def)
  have ph: "phase_ok n_cpu me s (lpc s)" and fr: "freed_ok n_cpu me s" and io: "intr_ok n_cpu me s"
    using inv by (simp_all add: lock_inv_def)
  have cn: "counters_ok n_cpu me s" by (rule dpc_phase [OF ph o nq])
  let ?b = "\<lambda>k. behind n_cpu me k (dpcs s)"
  have pos: "stage (dpcs s i) \<le> k \<Longrightarrow> 0 < ?b k" for k by (rule behind_pos [OF o])
  have small: "?b k < 2 ^ 32" for k using behind_le [OF n(1), of k "dpcs s"] n by simp
  have mono: "?b 4 \<le> ?b 5" by (rule behind_mono) simp
  note bs = behind_step [OF o, of "dpcs s"]
  show ?thesis
  proof (cases "dpcs s i")
    case In_Queue
    then have t: "t = set_pc i Dec_Inp (s\<lparr>intr_on := (intr_on s)(i := False)\<rparr>)"
      using run by (simp add: global_lock_proc_def)
    have "counters_ok n_cpu me t" "freed_ok n_cpu me t"
      using cn fr In_Queue by (simp_all add: t counters_ok_def freed_ok_def set_pc_def bs)
    then show ?thesis using In_Queue unfolding lock_inv_def
      by (intro conjI phase_step [OF ph o, of t Dec_Inp] intr_step [OF io o, of t Dec_Inp])
        (simp_all add: t set_pc_def)
  next
    case Dec_Inp
    have "inp_dpcs s - 1 = word_of_nat (?b 2 - 1)"
      by (rule dec_count) (use cn pos [of 2] Dec_Inp in \<open>simp_all add: counters_ok_def\<close>)
    then have t: "t = set_pc i Spin_Locked (s\<lparr>inp_dpcs := word_of_nat (?b 2 - 1)\<rparr>)"
      using run Dec_Inp by (simp add: global_lock_proc_def)
    have "counters_ok n_cpu me t" "freed_ok n_cpu me t"
      using cn fr Dec_Inp by (simp_all add: t counters_ok_def freed_ok_def set_pc_def bs)
    then show ?thesis using Dec_Inp unfolding lock_inv_def
      by (intro conjI phase_step [OF ph o, of t Spin_Locked] intr_step [OF io o, of t Spin_Locked])
        (use io o in \<open>simp_all add: t set_pc_def intr_ok_def\<close>)
  next
    case Spin_Locked
    then have t: "t = set_pc i Dec_Refs (s\<lparr>intr_on := (intr_on s)(i := True)\<rparr>)" and l: "locked s = 0"
      using run by (simp_all add: global_lock_proc_def split: if_splits)
    have "counters_ok n_cpu me t" "freed_ok n_cpu me t"
      using cn fr Spin_Locked by (simp_all add: t counters_ok_def freed_ok_def set_pc_def bs)
    then show ?thesis using Spin_Locked l unfolding lock_inv_def
      by (intro conjI phase_step [OF ph o, of t Dec_Refs] intr_step [OF io o, of t Dec_Refs])
        (simp_all add: t set_pc_def)
  next
    case Dec_Refs
    let ?pc = "if ?b 4 = 1 then Free_Dpc else Dec_Out"
    have refs: "dpc_refs s - 1 = word_of_nat (?b 4 - 1)"
      by (rule dec_count) (use cn pos [of 4] Dec_Refs in \<open>simp_all add: counters_ok_def\<close>)
    have z: "(word_of_nat (?b 4 - 1) :: u32) = 0 \<longleftrightarrow> ?b 4 = 1"
      using count_zero [of "?b 4 - 1"] small [of 4] pos [of 4] Dec_Refs by auto
    have t: "t = set_pc i ?pc (s\<lparr>dpc_refs := word_of_nat (?b 4 - 1)\<rparr>)"
      using run Dec_Refs z by (simp add: global_lock_proc_def Let_def refs)
    have "counters_ok n_cpu me t"
      using cn Dec_Refs by (simp add: t counters_ok_def set_pc_def bs)
    moreover have "freed_ok n_cpu me t"
      using fr Dec_Refs pos [of 4] pos [of 5] mono i n by (auto simp: t freed_ok_def set_pc_def bs)
    ultimately show ?thesis using Dec_Refs unfolding lock_inv_def
      by (intro conjI phase_step [OF ph o, of t ?pc] intr_step [OF io o, of t ?pc])
        (use io o in \<open>simp_all add: t set_pc_def intr_ok_def\<close>)
  next
    case Free_Dpc
    then have t: "t = set_pc i Dec_Out (s\<lparr>dpc_freed := dpc_freed s + 1\<rparr>)"
      using run by (simp add: global_lock_proc_def)
    have "counters_ok n_cpu me t" "freed_ok n_cpu me t"
      using cn fr Free_Dpc pos [of 5] by (simp_all add: t counters_ok_def freed_ok_def set_pc_def bs)
    then show ?thesis using Free_Dpc unfolding lock_inv_def
      by (intro conjI phase_step [OF ph o, of t Dec_Out] intr_step [OF io o, of t Dec_Out])
        (use io o in \<open>simp_all add: t set_pc_def intr_ok_def\<close>)
  next
    case Dec_Out
    have "out_dpcs s - 1 = word_of_nat (?b 6 - 1)"
      by (rule dec_count) (use cn pos [of 6] Dec_Out in \<open>simp_all add: counters_ok_def\<close>)
    then have t: "t = set_pc i Dpc_Done (s\<lparr>out_dpcs := word_of_nat (?b 6 - 1)\<rparr>)"
      using run Dec_Out by (simp add: global_lock_proc_def)
    have "counters_ok n_cpu me t" "freed_ok n_cpu me t"
      using cn fr Dec_Out by (simp_all add: t counters_ok_def freed_ok_def set_pc_def bs)
    then show ?thesis using Dec_Out unfolding lock_inv_def
      by (intro conjI phase_step [OF ph o, of t Dpc_Done] intr_step [OF io o, of t Dpc_Done])
        (use io o in \<open>simp_all add: t set_pc_def intr_ok_def\<close>)
  qed (use run nq in \<open>simp_all add: global_lock_proc_def\<close>)
qed

lemma unchanged_freed:
  "dpcs t = dpcs s \<Longrightarrow> dpc_freed t = dpc_freed s \<Longrightarrow> freed_ok n_cpu me s \<Longrightarrow> freed_ok n_cpu me t"
  by (simp add: freed_ok_def)

lemma all_behind: "phase_ok n_cpu me s Set_Locked \<Longrightarrow> me < n_cpu \<Longrightarrow> behind n_cpu me k (dpcs s) = n_cpu - 1"
  by (intro behind_all) auto

lemma lock_step_inv:
  assumes inv: "lock_inv n_cpu me s" and n: "me < n_cpu" "n_cpu \<le> 127"
    and run: "global_lock n_cpu me s = Some t"
  shows "lock_inv n_cpu me t"
proof -
  have ph: "phase_ok n_cpu me s (lpc s)" and fr: "freed_ok n_cpu me s" and io: "intr_ok n_cpu me s"
    using inv by (simp_all add: lock_inv_def)
  have me: "me \<notin> others n_cpu me" by (simp add: others_def)
  show ?thesis
  proof (cases "lpc s")
    case Set_Locked
    then have t: "t = s\<lparr>locked := 1, lpc := Set_Inp\<rparr>" using run by (simp add: global_lock_def)
    show ?thesis using ph fr io Set_Locked by (simp add: t lock_inv_def freed_ok_def intr_ok_def)
  next
    case Set_Inp
    then have t: "t = s\<lparr>inp_dpcs := word_of_nat (n_cpu - 1), lpc := Set_Out\<rparr>"
      using run n by (simp add: global_lock_def of_nat_diff)
    show ?thesis using ph fr io Set_Inp by (simp add: t lock_inv_def freed_ok_def intr_ok_def)
  next
    case Set_Out
    then have t: "t = s\<lparr>out_dpcs := inp_dpcs s, lpc := Set_Refs\<rparr>" using run by (simp add: global_lock_def)
    show ?thesis using ph fr io Set_Out by (simp add: t lock_inv_def freed_ok_def intr_ok_def)
  next
    case Set_Refs
    then have t: "t = s\<lparr>dpc_refs := inp_dpcs s, lpc := Insert_Dpc 0\<rparr>" using run by (simp add: global_lock_def)
    have "behind n_cpu me k (dpcs s) = n_cpu - 1" for k
      using all_behind [of n_cpu me s k] ph n Set_Refs by simp
    then have "counters_ok n_cpu me t" using ph Set_Refs by (simp add: t counters_ok_def)
    then show ?thesis using ph fr io Set_Refs by (simp add: t lock_inv_def freed_ok_def intr_ok_def)
  next
    case (Insert_Dpc k)
    then have q: "\<And>j. j \<in> others n_cpu me \<Longrightarrow> stage (dpcs s j) \<le> 3 \<and> (k \<le> j \<longleftrightarrow> stage (dpcs s j) = 0)"
      and l: "locked s = 1" and cn: "counters_ok n_cpu me s"
      using ph by simp_all
    consider (me) "k < n_cpu" "k = me" | (other) "k < n_cpu" "k \<noteq> me" | (all) "\<not> k < n_cpu" by blast
    then show ?thesis
    proof cases
      case me
      then have t: "t = s\<lparr>lpc := Insert_Dpc (k + 1)\<rparr>" using run Insert_Dpc by (simp add: global_lock_def)
      have "stage (dpcs s j) \<le> 3 \<and> (k + 1 \<le> j \<longleftrightarrow> stage (dpcs s j) = 0)" if "j \<in> others n_cpu me" for j
        using q [OF that] that me by (auto simp: others_def)
      then show ?thesis using fr io l cn Insert_Dpc
        by (simp add: t lock_inv_def freed_ok_def intr_ok_def counters_ok_def)
    next
      case other
      then have t: "t = set_pc k In_Queue s\<lparr>lpc := Insert_Dpc (k + 1)\<rparr>"
        using run Insert_Dpc by (simp add: global_lock_def)
      have o: "k \<in> others n_cpu me" using other by (simp add: others_def)
      have k: "stage (dpcs s k) = 0" using q [OF o] by simp
      note bs = behind_step [OF o, of "dpcs s" In_Queue]
      have "stage (dpcs t j) \<le> 3 \<and> (k + 1 \<le> j \<longleftrightarrow> stage (dpcs t j) = 0)" if "j \<in> others n_cpu me" for j
        using q [OF that] by (cases "j = k") (auto simp: t set_pc_def)
      moreover have "counters_ok n_cpu me t" "freed_ok n_cpu me t"
        using cn fr k by (simp_all add: t counters_ok_def freed_ok_def set_pc_def bs)
      moreover have "intr_ok n_cpu me t"
        using io k Insert_Dpc by (auto simp: t intr_ok_def set_pc_def)
      ultimately show ?thesis using l by (simp add: lock_inv_def) (simp add: t set_pc_def)
    next
      case all
      then have t: "t = s\<lparr>lpc := Wait_Inp\<rparr>" using run Insert_Dpc by (simp add: global_lock_def)
      have "1 \<le> stage (dpcs s j) \<and> stage (dpcs s j) \<le> 3" if "j \<in> others n_cpu me" for j
        using q [OF that] that all by (auto simp: others_def)
      then show ?thesis using fr io l cn Insert_Dpc
        by (simp add: t lock_inv_def freed_ok_def intr_ok_def counters_ok_def)
    qed
  next
    case Wait_Inp
    then have t: "t = s\<lparr>intr_on := (intr_on s)(me := False), lpc := Lock_Held\<rparr>" and z: "inp_dpcs s = 0"
      using run by (simp_all add: global_lock_def split: if_splits)
    have q: "\<And>j. j \<in> others n_cpu me \<Longrightarrow> 1 \<le> stage (dpcs s j) \<and> stage (dpcs s j) \<le> 3"
      and l: "locked s = 1" and cn: "counters_ok n_cpu me s"
      using ph Wait_Inp by simp_all
    have "behind n_cpu me 2 (dpcs s) = 0"
      using cn z behind_le [OF n(1), of 2 "dpcs s"] n count_zero [of "behind n_cpu me 2 (dpcs s)"]
      by (simp add: counters_ok_def)
    then have "stage (dpcs s j) = 3" if "j \<in> others n_cpu me" for j
      using q [OF that] that unfolding behind_zero by force
    then show ?thesis using fr io l cn Wait_Inp me
      by (auto simp: t lock_inv_def freed_ok_def intr_ok_def counters_ok_def)
  qed (use run in \<open>simp_all add: global_lock_def\<close>)
qed

lemma unlock_step_inv:
  assumes inv: "lock_inv n_cpu me s" and n: "me < n_cpu" "n_cpu \<le> 127"
    and run: "global_unlock me s = Some t"
  shows "lock_inv n_cpu me t"
proof -
  have ph: "phase_ok n_cpu me s (lpc s)" and fr: "freed_ok n_cpu me s" and io: "intr_ok n_cpu me s"
    using inv by (simp_all add: lock_inv_def)
  have me: "me \<notin> others n_cpu me" by (simp add: others_def)
  show ?thesis
  proof (cases "lpc s")
    case Lock_Held
    then have t: "t = s\<lparr>locked := 0, lpc := Wait_Out\<rparr>" using run by (simp add: global_unlock_def)
    show ?thesis using ph fr io Lock_Held
      by (auto simp: t lock_inv_def freed_ok_def intr_ok_def counters_ok_def)
  next
    case Wait_Out
    then have t: "t = s\<lparr>intr_on := (intr_on s)(me := True), lpc := Unlocked\<rparr>" and z: "out_dpcs s = 0"
      using run by (simp_all add: global_unlock_def split: if_splits)
    have cn: "counters_ok n_cpu me s" and l: "locked s = 0" using ph Wait_Out by simp_all
    have "behind n_cpu me 6 (dpcs s) = 0"
      using cn z behind_le [OF n(1), of 6 "dpcs s"] n count_zero [of "behind n_cpu me 6 (dpcs s)"]
      by (simp add: counters_ok_def)
    then have "6 < stage (dpcs s j)" if "j \<in> others n_cpu me" for j
      using that unfolding behind_zero by blast
    then have "stage (dpcs s j) = 7" if "j \<in> others n_cpu me" for j
      using that by (cases "dpcs s j") force+
    then show ?thesis using fr io l cn Wait_Out me
      by (auto simp: t lock_inv_def freed_ok_def intr_ok_def counters_ok_def)
  qed (use run in \<open>simp_all add: global_unlock_def\<close>)
qed

lemma lock_reach_inv:
  "lock_reach n_cpu me s \<Longrightarrow> me < n_cpu \<Longrightarrow> n_cpu \<le> 127 \<Longrightarrow> lock_inv n_cpu me s"
proof (induction rule: lock_reach.induct)
  case (reach_step s t)
  then have inv: "lock_inv n_cpu me s" by blast
  from reach_step(2) show ?case
    by (rule lock_stepE) (use inv reach_step(4,5) dpc_step_inv lock_step_inv unlock_step_inv in blast)+
qed (rule lock_inv_start)

section \<open>Work left\<close>

fun lock_left :: "nat \<Rightarrow> lock_pc \<Rightarrow> nat" where
  "lock_left n_cpu Set_Locked = n_cpu + 8"
| "lock_left n_cpu Set_Inp = n_cpu + 7"
| "lock_left n_cpu Set_Out = n_cpu + 6"
| "lock_left n_cpu Set_Refs = n_cpu + 5"
| "lock_left n_cpu (Insert_Dpc i) = n_cpu - i + 4"
| "lock_left n_cpu Wait_Inp = 3"
| "lock_left n_cpu Lock_Held = 2"
| "lock_left n_cpu Wait_Out = 1"
| "lock_left n_cpu Unlocked = 0"

definition lock_work :: "nat \<Rightarrow> nat \<Rightarrow> lock_state \<Rightarrow> nat" where
  "lock_work n_cpu me s = lock_left n_cpu (lpc s) + (\<Sum>i \<in> others n_cpu me. 7 - stage (dpcs s i))"

lemma sum_stage_step:
  assumes "i \<in> A" "finite A" "stage (f i) < stage pc"
  shows "(\<Sum>j \<in> A. 7 - stage ((f(i := pc)) j)) < (\<Sum>j \<in> A. 7 - stage (f j))"
proof (rule sum_strict_mono_ex1)
  show "\<forall>j\<in>A. 7 - stage ((f(i := pc)) j) \<le> 7 - stage (f j)" using assms by auto
  have "7 - stage pc < 7 - stage (f i)"
    using assms(3) stage_simps [of pc] by linarith
  then show "\<exists>j\<in>A. 7 - stage ((f(i := pc)) j) < 7 - stage (f j)" using assms(1) by auto
qed (rule assms(2))

lemma lock_step_work:
  assumes "lock_inv n_cpu me s" and "lock_step n_cpu me s t"
  shows "lock_work n_cpu me t < lock_work n_cpu me s"
  using assms(2)
proof (rule lock_stepE)
  fix i assume i: "i < n_cpu" "i \<noteq> me" and run: "global_lock_proc i s = Some t"
  then have o: "i \<in> others n_cpu me" by (simp add: others_def)
  have "lpc t = lpc s \<and> (\<exists>pc. dpcs t = (dpcs s)(i := pc) \<and> stage (dpcs s i) < stage pc)"
    using run by (cases "dpcs s i") (auto simp: global_lock_proc_def set_pc_def Let_def split: if_splits)
  then show ?thesis using sum_stage_step [OF o finite_others, of "dpcs s"] by (auto simp: lock_work_def)
next
  assume run: "global_lock n_cpu me s = Some t"
  show ?thesis
  proof (cases "\<exists>k. lpc s = Insert_Dpc k \<and> k < n_cpu \<and> k \<noteq> me")
    case True
    then obtain k where k: "lpc s = Insert_Dpc k" "k < n_cpu" "k \<noteq> me" by blast
    then have o: "k \<in> others n_cpu me" by (simp add: others_def)
    have "phase_ok n_cpu me s (Insert_Dpc k)" using assms(1) k by (simp add: lock_inv_def)
    with o have "stage (dpcs s k) = 0" by auto
    then have "(\<Sum>j \<in> others n_cpu me. 7 - stage (((dpcs s)(k := In_Queue)) j))
        < (\<Sum>j \<in> others n_cpu me. 7 - stage (dpcs s j))"
      by (intro sum_stage_step o) simp_all
    moreover have "t = set_pc k In_Queue s\<lparr>lpc := Insert_Dpc (k + 1)\<rparr>"
      using run k by (simp add: global_lock_def)
    ultimately show ?thesis using k by (simp add: lock_work_def set_pc_def)
  next
    case False
    then have "dpcs t = dpcs s \<and> lock_left n_cpu (lpc t) < lock_left n_cpu (lpc s)"
      using run by (cases "lpc s") (auto simp: global_lock_def split: if_splits)
    then show ?thesis by (simp add: lock_work_def)
  qed
next
  assume "global_unlock me s = Some t"
  then have "dpcs t = dpcs s \<and> lock_left n_cpu (lpc t) < lock_left n_cpu (lpc s)"
    by (cases "lpc s") (auto simp: global_unlock_def split: if_splits)
  then show ?thesis by (simp add: lock_work_def)
qed

text \<open>Somebody can always move: a waiting processor waits for one that does not.\<close>

lemma lock_progress:
  assumes inv: "lock_inv n_cpu me s" and n: "me < n_cpu" "n_cpu \<le> 127" and open_: "lpc s \<noteq> Unlocked"
  shows "\<exists>t. lock_step n_cpu me s t"
proof -
  have ph: "phase_ok n_cpu me s (lpc s)" using inv by (simp add: lock_inv_def)
  have dpc: "\<exists>t. lock_step n_cpu me s t" if "i \<in> others n_cpu me" "stage (dpcs s i) \<noteq> 0"
    "stage (dpcs s i) \<noteq> 7" "stage (dpcs s i) \<noteq> 3 \<or> locked s = 0" for i
  proof -
    have "\<exists>t. global_lock_proc i s = Some t"
      using that(2-4) by (cases "dpcs s i") (auto simp: global_lock_proc_def Let_def)
    then show ?thesis using that(1) step_dpc unfolding others_def by blast
  qed
  have lock: "\<exists>t. lock_step n_cpu me s t" if "global_lock n_cpu me s \<noteq> None \<or> global_unlock me s \<noteq> None"
    using that step_lock step_unlock by blast
  consider (inp) "lpc s = Wait_Inp" "inp_dpcs s \<noteq> 0" | (out) "lpc s = Wait_Out" "out_dpcs s \<noteq> 0"
    | (run) "global_lock n_cpu me s \<noteq> None \<or> global_unlock me s \<noteq> None"
    using open_ by (cases "lpc s"; cases "inp_dpcs s = 0"; cases "out_dpcs s = 0")
      (auto simp: global_lock_def global_unlock_def)
  then show ?thesis
  proof cases
    case inp
    with ph have "behind n_cpu me 2 (dpcs s) \<noteq> 0" by (cases "behind n_cpu me 2 (dpcs s)") (simp_all add: counters_ok_def)
    then obtain i where "i \<in> others n_cpu me" "stage (dpcs s i) \<le> 2" unfolding behind_zero by (auto simp: not_less)
    moreover with ph inp have "1 \<le> stage (dpcs s i)" by simp
    ultimately show ?thesis by (intro dpc [of i]) auto
  next
    case out
    with ph have "behind n_cpu me 6 (dpcs s) \<noteq> 0" by (cases "behind n_cpu me 6 (dpcs s)") (simp_all add: counters_ok_def)
    then obtain i where "i \<in> others n_cpu me" "stage (dpcs s i) \<le> 6" unfolding behind_zero by (auto simp: not_less)
    moreover with ph out have "3 \<le> stage (dpcs s i)" "locked s = 0" by simp_all
    ultimately show ?thesis by (intro dpc [of i]) auto
  qed (rule lock)
qed

section \<open>What the lock promises\<close>

text \<open>C7: while \<open>global_lock\<close> has returned and \<open>global_unlock\<close> has not been called, every other
  processor spins in \<open>global_lock_proc\<close> with interrupts off, and the locking processor has its
  interrupts off too: nobody can run the code that is being patched.\<close>

theorem lock_excludes:
  assumes "lock_reach n_cpu me s" and "me < n_cpu" and "n_cpu \<le> 127" and "lpc s = Lock_Held"
  shows "(\<forall>i<n_cpu. i \<noteq> me \<longrightarrow> dpcs s i = Spin_Locked \<and> \<not> intr_on s i) \<and> \<not> intr_on s me \<and> locked s \<noteq> 0"
proof -
  from lock_reach_inv [OF assms(1-3)] assms(4)
  have ph: "locked s = 1" "\<forall>i \<in> others n_cpu me. stage (dpcs s i) = 3" and io: "intr_ok n_cpu me s"
    by (simp_all add: lock_inv_def)
  then show ?thesis using assms(4) by (auto simp: intr_ok_def others_def stage_eq)
qed

definition lock_demo :: lock_state where
  "lock_demo = \<lparr>locked = 0, inp_dpcs = 0, out_dpcs = 0, dpc_refs = 0, lpc = Set_Locked,
     dpcs = (\<lambda>_. Not_Queued), intr_on = (\<lambda>_. True), dpc_freed = 0\<rparr>"

text \<open>A run of two processors up to the moment the lock is held.\<close>

fun run_steps :: "nat \<Rightarrow> nat \<Rightarrow> nat list \<Rightarrow> lock_state \<Rightarrow> lock_state option" where
  "run_steps n_cpu me [] s = Some s"
| "run_steps n_cpu me (i # is) s =
     (case (if i \<noteq> me then if i < n_cpu then global_lock_proc i s else None
            else (case global_lock n_cpu me s of None \<Rightarrow> global_unlock me s | Some t \<Rightarrow> Some t)) of
        None \<Rightarrow> None
      | Some t \<Rightarrow> run_steps n_cpu me is t)"

lemma run_steps_reach:
  "lock_reach n_cpu me s \<Longrightarrow> run_steps n_cpu me is s = Some t \<Longrightarrow> lock_reach n_cpu me t"
proof (induction "is" arbitrary: s)
  case (Cons i "is")
  from Cons.prems(2) obtain u where u: "run_steps n_cpu me is u = Some t" "lock_step n_cpu me s u"
    by (auto split: if_splits option.splits intro: lock_step.intros)
  from Cons.IH [OF reach_step [OF Cons.prems(1) u(2)] u(1)] show ?case .
qed simp

lemma lock_demo_start: "lock_reach n_cpu me lock_demo"
  by (rule reach_start) (simp add: lock_start_def lock_demo_def)

lemmas run_simps = global_lock_def global_lock_proc_def global_unlock_def set_pc_def lock_demo_def

lemma demo_held: "\<exists>s. run_steps 2 0 [0,0,0,0,0,0,0,1,1,0] lock_demo = Some s \<and> lpc s = Lock_Held"
  by (simp add: run_simps numeral_eq_Suc)

lemma lock_excludes_witness:
  "\<exists>s. lock_reach 2 0 s \<and> lpc s = Lock_Held \<and> dpcs s 1 = Spin_Locked \<and> \<not> intr_on s 1"
proof -
  obtain s where s: "run_steps 2 0 [0,0,0,0,0,0,0,1,1,0] lock_demo = Some s" "lpc s = Lock_Held"
    using demo_held by blast
  from run_steps_reach [OF lock_demo_start s(1)] have "lock_reach 2 0 s" .
  with lock_excludes [OF this _ _ s(2)] s(2) show ?thesis by auto
qed

text \<open>C8: every run of the protocol ends and no run gets stuck: each step of a processor uses up
  some of a bounded amount of work, and as long as \<open>global_unlock\<close> has not returned some
  processor can make a step; when it has returned all DPC routines are done.\<close>

theorem lock_terminates:
  assumes "lock_reach n_cpu me s" and "me < n_cpu" and "n_cpu \<le> 127"
  shows "(\<forall>t. lock_step n_cpu me s t \<longrightarrow> lock_work n_cpu me t < lock_work n_cpu me s)
    \<and> ((\<exists>t. lock_step n_cpu me s t)
       \<or> lpc s = Unlocked \<and> (\<forall>i<n_cpu. i \<noteq> me \<longrightarrow> dpcs s i = Dpc_Done) \<and> (\<forall>i<n_cpu. intr_on s i))"
proof -
  note inv = lock_reach_inv [OF assms]
  show ?thesis
  proof (cases "lpc s = Unlocked")
    case True
    have ph: "phase_ok n_cpu me s Unlocked" using inv True by (simp add: lock_inv_def)
    have io: "intr_ok n_cpu me s" using inv by (simp add: lock_inv_def)
    have "dpcs s i = Dpc_Done" if "i < n_cpu" "i \<noteq> me" for i
      using ph that by (simp add: others_def stage_eq)
    moreover have "intr_on s i" if "i < n_cpu" for i
      using ph io that True by (cases "i = me") (auto simp: intr_ok_def others_def)
    ultimately show ?thesis using lock_step_work [OF inv] True by blast
  next
    case False
    then show ?thesis using lock_step_work [OF inv] lock_progress [OF inv assms(2,3)] by blast
  qed
qed

lemma lock_terminates_witness: "\<exists>t. lock_step 2 0 lock_demo t"
proof -
  have "lpc lock_demo \<noteq> Unlocked" by (simp add: lock_demo_def)
  then show ?thesis using lock_terminates [OF lock_demo_start, of 0 2] by auto
qed

text \<open>The block of DPC objects is never freed twice, and on more than one processor it has been
  freed exactly once when \<open>global_unlock\<close> returns. On a machine with one processor no DPC routine
  runs, so nobody frees it: every splice leaks it.\<close>

theorem lock_block_freed:
  assumes "lock_reach n_cpu me s" and "me < n_cpu" and "n_cpu \<le> 127"
  shows "dpc_freed s \<le> 1 \<and> (lpc s = Unlocked \<longrightarrow> dpc_freed s = (if n_cpu = 1 then 0 else 1))"
proof -
  note inv = lock_reach_inv [OF assms]
  then have fr: "freed_ok n_cpu me s" by (simp add: lock_inv_def)
  have "behind n_cpu me 4 (dpcs s) \<le> behind n_cpu me 5 (dpcs s)" by (rule behind_mono) simp
  with fr have "dpc_freed s \<le> 1" by (auto simp: freed_ok_def split: if_splits)
  moreover have "dpc_freed s = (if n_cpu = 1 then 0 else 1)" if u: "lpc s = Unlocked"
  proof -
    have "phase_ok n_cpu me s Unlocked" using inv u by (simp add: lock_inv_def)
    then have "behind n_cpu me k (dpcs s) = 0" if "k < 7" for k
      using that unfolding behind_zero by simp
    with fr assms(2) show ?thesis by (auto simp: freed_ok_def)
  qed
  ultimately show ?thesis by blast
qed

lemma demo_unlocked: "\<exists>s. run_steps 1 0 [0,0,0,0,0,0,0,0,0] lock_demo = Some s \<and> lpc s = Unlocked"
  by (simp add: run_simps numeral_eq_Suc)

lemma lock_block_freed_witness: "\<exists>s. lock_reach 1 0 s \<and> lpc s = Unlocked \<and> dpc_freed s = 0"
proof -
  obtain s where s: "run_steps 1 0 [0,0,0,0,0,0,0,0,0] lock_demo = Some s" "lpc s = Unlocked"
    using demo_unlocked by blast
  from run_steps_reach [OF lock_demo_start s(1)] have r: "lock_reach 1 0 s" .
  with lock_block_freed [OF r] s(2) show ?thesis by auto
qed

end
