(* ===== verification/Channel.thy ===== *)
theory Channel
  imports Kernel
begin

text \<open>
  The message channel of \<open>src/kernel/sys/channel.c\<close>: a rendezvous between the threads of a
  debugged process, which post an event and wait for a reply (\<open>channel_send_recv\<close>), and a
  debugger thread, which takes the event (\<open>channel_recv\<close>) and replies (\<open>channel_send\<close>).

  Each of these functions is a step function of one thread: its program counter is the next
  access to the channel (an event operation, an interlocked operation, a field, a copy from or
  to the data area), and the accesses of different threads interleave. The event objects belong
  to the executive and are a parameter \<open>K\<close>.
\<close>

section \<open>Event objects\<close>

text \<open>
  The operations of a \<open>KEVENT\<close> and whether a wait on it is satisfied. \<open>kevent_ok\<close> is the
  documented behaviour of a notification event: it stays signaled from \<open>KeSetEvent\<close> until
  \<open>KeClearEvent\<close>, and satisfies every wait while it is signaled.
\<close>

record 'e kevent_api =
  ke_init :: "bool \<Rightarrow> 'e"
  ke_set :: "'e \<Rightarrow> 'e"
  ke_clear :: "'e \<Rightarrow> 'e"
  ke_ready :: "'e \<Rightarrow> bool"

definition kevent_ok :: "'e kevent_api \<Rightarrow> bool" where
  "kevent_ok K \<longleftrightarrow> (\<forall>b. ke_ready K (ke_init K b) = b)
     \<and> (\<forall>e. ke_ready K (ke_set K e)) \<and> (\<forall>e. \<not> ke_ready K (ke_clear K e))"

text \<open>An event object as its signal state.\<close>

definition flag_event :: "bool kevent_api" where
  "flag_event = \<lparr>ke_init = (\<lambda>b. b), ke_set = (\<lambda>_. True), ke_clear = (\<lambda>_. False), ke_ready = (\<lambda>b. b)\<rparr>"

lemma flag_event_ok: "kevent_ok flag_event"
  by (simp add: kevent_ok_def flag_event_def)

text \<open>
  \<open>KeWaitForSingleObject\<close> without a timeout, in user mode: it returns when the event is
  signaled, or with \<open>STATUS_USER_APC\<close> when the thread is being terminated (\<open>apc\<close>); otherwise the
  thread stays where it is.
\<close>

definition wait_for :: "'e kevent_api \<Rightarrow> bool \<Rightarrow> 'e \<Rightarrow> ntstatus option" where
  "wait_for K apc e =
     (if apc then Some STATUS_USER_APC else if ke_ready K e then Some STATUS_SUCCESS else None)"

section \<open>The channel\<close>

abbreviation (input) CH_NULL :: u32 where "CH_NULL \<equiv> 0"
abbreviation (input) CH_SENT :: u32 where "CH_SENT \<equiv> 1"
abbreviation (input) CH_RECVED :: u32 where "CH_RECVED \<equiv> 2"
abbreviation (input) CH_REPLAYED :: u32 where "CH_REPLAYED \<equiv> 3"

record 'e channel =
  send_event :: 'e
  recv_event :: 'e
  rcvd_event :: 'e
  repl_event :: 'e
  thread :: addr
  state :: u32
  waiters :: u32
  released :: u32
  snd_size :: u32
  rcv_size :: u32
  data :: "u8 list"

text \<open>\<open>sizeof(channel)\<close>: four events of 16 bytes and six fields of 4.\<close>

definition sizeof_channel :: u32 where
  "sizeof_channel = 88"

text \<open>The fields \<open>channel_alloc\<close> sets; \<open>junk\<close> is what the fresh block holds behind them.\<close>

definition channel_init :: "'e kevent_api \<Rightarrow> u32 \<Rightarrow> u32 \<Rightarrow> u8 list \<Rightarrow> 'e channel" where
  "channel_init K snd_sz rcv_sz junk =
     \<lparr>send_event = ke_init K True, recv_event = ke_init K False, rcvd_event = ke_init K False,
      repl_event = ke_init K False, thread = NULL, state = CH_NULL, waiters = 0, released = 0,
      snd_size = snd_sz, rcv_size = rcv_sz, data = junk\<rparr>"

text \<open>\<open>lock_cmpxchg(&x, new, old)\<close>: the value found, and the value afterwards.\<close>

definition lock_cmpxchg :: "u32 \<Rightarrow> u32 \<Rightarrow> u32 \<Rightarrow> u32 \<times> u32" where
  "lock_cmpxchg x new old = (x, if x = old then new else x)"

text \<open>\<open>memcpy\<close> to an offset of the data area, and from there.\<close>

definition write_at :: "nat \<Rightarrow> u8 list \<Rightarrow> u8 list \<Rightarrow> u8 list" where
  "write_at off bs d = take off d @ bs @ drop (off + length bs) d"

definition send_part :: "'e channel \<Rightarrow> u8 list" where
  "send_part c = take (unat (snd_size c)) (data c)"

definition reply_part :: "'e channel \<Rightarrow> u8 list" where
  "reply_part c = take (unat (rcv_size c)) (drop (unat (snd_size c)) (data c))"

definition put_send :: "u8 list \<Rightarrow> 'e channel \<Rightarrow> 'e channel" where
  "put_send m c = c\<lparr>data := write_at 0 (take (unat (snd_size c)) m) (data c)\<rparr>"

definition put_reply :: "u8 list \<Rightarrow> 'e channel \<Rightarrow> 'e channel" where
  "put_reply m c = c\<lparr>data := write_at (unat (snd_size c)) (take (unat (rcv_size c)) m) (data c)\<rparr>"

section \<open>channel_send_recv\<close>

datatype sr_pc =
    SR_Inc | SR_Wait | SR_Woken ntstatus | SR_Cas | SR_Clear | SR_Copy | SR_Post
  | SR_Wait_Repl | SR_Woken_Repl ntstatus | SR_Copy_Out | SR_Clear_Repl | SR_Thread | SR_State
  | SR_Ready | SR_Dec | SR_Ret

text \<open>
  One step; the locals are \<open>succs\<close> and the buffer \<open>recv_msg\<close> points to. A failed exchange of the
  state runs into \<open>continue\<close>, which in a \<open>do ... while (0)\<close> leaves the loop.
\<close>

fun channel_send_recv ::
  "'e kevent_api \<Rightarrow> bool \<Rightarrow> u8 list \<Rightarrow> sr_pc \<times> u32 \<times> u8 list \<Rightarrow> 'e channel
   \<Rightarrow> ((sr_pc \<times> u32 \<times> u8 list) \<times> 'e channel) option" where
  "channel_send_recv K apc msg (SR_Inc, succs, out) c =
     Some ((SR_Wait, 0, out), c\<lparr>waiters := waiters c + 1\<rparr>)"
| "channel_send_recv K apc msg (SR_Wait, succs, out) c =
     map_option (\<lambda>st. ((SR_Woken st, succs, out), c)) (wait_for K apc (send_event c))"
| "channel_send_recv K apc msg (SR_Woken st, succs, out) c =
     Some ((if st = STATUS_USER_APC \<or> released c \<noteq> 0 then SR_Dec else SR_Cas, succs, out), c)"
| "channel_send_recv K apc msg (SR_Cas, succs, out) c =
     (let (found, st) = lock_cmpxchg (state c) CH_SENT CH_NULL
      in Some ((if found \<noteq> CH_NULL then SR_Dec else SR_Clear, succs, out), c\<lparr>state := st\<rparr>))"
| "channel_send_recv K apc msg (SR_Clear, succs, out) c =
     Some ((SR_Copy, succs, out), c\<lparr>send_event := ke_clear K (send_event c)\<rparr>)"
| "channel_send_recv K apc msg (SR_Copy, succs, out) c = Some ((SR_Post, succs, out), put_send msg c)"
| "channel_send_recv K apc msg (SR_Post, succs, out) c =
     Some ((SR_Wait_Repl, succs, out), c\<lparr>recv_event := ke_set K (recv_event c)\<rparr>)"
| "channel_send_recv K apc msg (SR_Wait_Repl, succs, out) c =
     map_option (\<lambda>st. ((SR_Woken_Repl st, succs, out), c)) (wait_for K apc (repl_event c))"
| "channel_send_recv K apc msg (SR_Woken_Repl st, succs, out) c =
     Some ((SR_Copy_Out, if st \<noteq> STATUS_USER_APC \<and> released c = 0 then 1 else succs, out), c)"
| "channel_send_recv K apc msg (SR_Copy_Out, succs, out) c =
     Some ((SR_Clear_Repl, succs, reply_part c), c)"
| "channel_send_recv K apc msg (SR_Clear_Repl, succs, out) c =
     Some ((SR_Thread, succs, out), c\<lparr>repl_event := ke_clear K (repl_event c)\<rparr>)"
| "channel_send_recv K apc msg (SR_Thread, succs, out) c = Some ((SR_State, succs, out), c\<lparr>thread := NULL\<rparr>)"
| "channel_send_recv K apc msg (SR_State, succs, out) c = Some ((SR_Ready, succs, out), c\<lparr>state := CH_NULL\<rparr>)"
| "channel_send_recv K apc msg (SR_Ready, succs, out) c =
     Some ((SR_Dec, succs, out), c\<lparr>send_event := ke_set K (send_event c)\<rparr>)"
| "channel_send_recv K apc msg (SR_Dec, succs, out) c =
     Some ((SR_Ret, succs, out), c\<lparr>waiters := waiters c - 1\<rparr>)"
| "channel_send_recv K apc msg (SR_Ret, succs, out) c = None"

section \<open>channel_recv\<close>

datatype rv_pc =
    RV_Inc | RV_Wait | RV_Woken ntstatus | RV_Cas | RV_Thread | RV_Clear | RV_Copy | RV_Signal
  | RV_Dec | RV_Ret

text \<open>\<open>me\<close> is \<open>PsGetCurrentThread()\<close>; here \<open>continue\<close> really goes back to the wait.\<close>

fun channel_recv ::
  "'e kevent_api \<Rightarrow> bool \<Rightarrow> addr \<Rightarrow> rv_pc \<times> u32 \<times> u8 list \<Rightarrow> 'e channel
   \<Rightarrow> ((rv_pc \<times> u32 \<times> u8 list) \<times> 'e channel) option" where
  "channel_recv K apc me (RV_Inc, succs, out) c =
     Some ((RV_Wait, 0, out), c\<lparr>waiters := waiters c + 1\<rparr>)"
| "channel_recv K apc me (RV_Wait, succs, out) c =
     map_option (\<lambda>st. ((RV_Woken st, succs, out), c)) (wait_for K apc (recv_event c))"
| "channel_recv K apc me (RV_Woken st, succs, out) c =
     Some ((if st = STATUS_USER_APC \<or> released c \<noteq> 0 then RV_Dec else RV_Cas, succs, out), c)"
| "channel_recv K apc me (RV_Cas, succs, out) c =
     (let (found, st) = lock_cmpxchg (state c) CH_RECVED CH_SENT
      in Some ((if found \<noteq> CH_SENT then RV_Wait else RV_Thread, succs, out), c\<lparr>state := st\<rparr>))"
| "channel_recv K apc me (RV_Thread, succs, out) c =
     (let (found, th) = lock_cmpxchg (thread c) me NULL
      in Some ((if found \<noteq> NULL then RV_Wait else RV_Clear, succs, out), c\<lparr>thread := th\<rparr>))"
| "channel_recv K apc me (RV_Clear, succs, out) c =
     Some ((RV_Copy, succs, out), c\<lparr>recv_event := ke_clear K (recv_event c)\<rparr>)"
| "channel_recv K apc me (RV_Copy, succs, out) c = Some ((RV_Signal, succs, send_part c), c)"
| "channel_recv K apc me (RV_Signal, succs, out) c =
     Some ((RV_Dec, 1, out), c\<lparr>rcvd_event := ke_set K (rcvd_event c)\<rparr>)"
| "channel_recv K apc me (RV_Dec, succs, out) c =
     Some ((RV_Ret, succs, out), c\<lparr>waiters := waiters c - 1\<rparr>)"
| "channel_recv K apc me (RV_Ret, succs, out) c = None"

section \<open>channel_send\<close>

datatype sd_pc =
    SD_Inc | SD_Wait | SD_Woken ntstatus | SD_Check | SD_Cas | SD_Clear | SD_Copy | SD_Signal
  | SD_Dec | SD_Ret

fun channel_send ::
  "'e kevent_api \<Rightarrow> bool \<Rightarrow> addr \<Rightarrow> u8 list \<Rightarrow> sd_pc \<times> u32 \<Rightarrow> 'e channel
   \<Rightarrow> ((sd_pc \<times> u32) \<times> 'e channel) option" where
  "channel_send K apc me msg (SD_Inc, succs) c = Some ((SD_Wait, 0), c\<lparr>waiters := waiters c + 1\<rparr>)"
| "channel_send K apc me msg (SD_Wait, succs) c =
     map_option (\<lambda>st. ((SD_Woken st, succs), c)) (wait_for K apc (rcvd_event c))"
| "channel_send K apc me msg (SD_Woken st, succs) c =
     Some ((if st = STATUS_USER_APC \<or> released c \<noteq> 0 then SD_Dec else SD_Check, succs), c)"
| "channel_send K apc me msg (SD_Check, succs) c =
     Some ((if thread c \<noteq> me then SD_Wait else SD_Cas, succs), c)"
| "channel_send K apc me msg (SD_Cas, succs) c =
     (let (found, st) = lock_cmpxchg (state c) CH_REPLAYED CH_RECVED
      in Some ((if found \<noteq> CH_RECVED then SD_Wait else SD_Clear, succs), c\<lparr>state := st\<rparr>))"
| "channel_send K apc me msg (SD_Clear, succs) c =
     Some ((SD_Copy, succs), c\<lparr>rcvd_event := ke_clear K (rcvd_event c)\<rparr>)"
| "channel_send K apc me msg (SD_Copy, succs) c = Some ((SD_Signal, succs), put_reply msg c)"
| "channel_send K apc me msg (SD_Signal, succs) c =
     Some ((SD_Dec, 1), c\<lparr>repl_event := ke_set K (repl_event c)\<rparr>)"
| "channel_send K apc me msg (SD_Dec, succs) c = Some ((SD_Ret, succs), c\<lparr>waiters := waiters c - 1\<rparr>)"
| "channel_send K apc me msg (SD_Ret, succs) c = None"

section \<open>channel_release and channel_free\<close>

datatype rl_pc = RL_Flag | RL_Send | RL_Recv | RL_Rcvd | RL_Repl | RL_Ret

fun channel_release :: "'e kevent_api \<Rightarrow> rl_pc \<Rightarrow> 'e channel \<Rightarrow> (rl_pc \<times> 'e channel) option" where
  "channel_release K RL_Flag c = Some (RL_Send, c\<lparr>released := 1\<rparr>)"
| "channel_release K RL_Send c = Some (RL_Recv, c\<lparr>send_event := ke_set K (send_event c)\<rparr>)"
| "channel_release K RL_Recv c = Some (RL_Rcvd, c\<lparr>recv_event := ke_set K (recv_event c)\<rparr>)"
| "channel_release K RL_Rcvd c = Some (RL_Repl, c\<lparr>rcvd_event := ke_set K (rcvd_event c)\<rparr>)"
| "channel_release K RL_Repl c = Some (RL_Ret, c\<lparr>repl_event := ke_set K (repl_event c)\<rparr>)"
| "channel_release K RL_Ret c = None"

text \<open>
  The loop of \<open>channel_free\<close>: it waits, ten milliseconds at a time, while there are waiters;
  the block is freed in the step that finds none.
\<close>

definition channel_free_ready :: "'e channel \<Rightarrow> bool" where
  "channel_free_ready c \<longleftrightarrow> waiters c = 0"

end
