(* ===== verification/Channel_Steps.thy ===== *)
theory Channel_Steps
  imports Channel
begin

text \<open>
  The channel under concurrency: any number of threads, each in one call of the channel at a
  time, with their steps interleaved. A ghost history records the messages that move; the
  abstract specification is a rendezvous that the history has to follow.
\<close>

section \<open>Threads\<close>

datatype call_state =
    Idle
  | In_Send_Recv "u8 list" sr_pc u32 "u8 list"   \<comment> \<open>message, position, \<open>succs\<close>, reply buffer\<close>
  | In_Recv rv_pc u32 "u8 list"
  | In_Send "u8 list" sd_pc u32
  | In_Release rl_pc

datatype chan_call = Send_Recv "u8 list" | Recv | Send "u8 list" | Release

text \<open>Messages on the move: posted and returned for a sender, taken and answered for a receiver.\<close>

datatype chan_event =
    Posted addr "u8 list" | Taken addr "u8 list" | Answered addr "u8 list" | Returned addr "u8 list"

record 'e chan_sys =
  chan :: "'e channel"
  calls_in :: "addr \<Rightarrow> call_state"
  history :: "chan_event list"

text \<open>A call begins in a thread that is in none, or whose last one has returned.\<close>

fun finished :: "call_state \<Rightarrow> bool" where
  "finished Idle \<longleftrightarrow> True"
| "finished (In_Send_Recv m pc succs out) \<longleftrightarrow> pc = SR_Ret"
| "finished (In_Recv pc succs out) \<longleftrightarrow> pc = RV_Ret"
| "finished (In_Send m pc succs) \<longleftrightarrow> pc = SD_Ret"
| "finished (In_Release pc) \<longleftrightarrow> pc = RL_Ret"

fun enter :: "chan_call \<Rightarrow> call_state" where
  "enter (Send_Recv m) = In_Send_Recv m SR_Inc 0 []"
| "enter Recv = In_Recv RV_Inc 0 []"
| "enter (Send m) = In_Send m SD_Inc 0"
| "enter Release = In_Release RL_Flag"

text \<open>The copies are what moves a message; \<open>c\<close> is the channel before the step.\<close>

fun moved :: "addr \<Rightarrow> call_state \<Rightarrow> 'e channel \<Rightarrow> chan_event list" where
  "moved t (In_Send_Recv m SR_Copy succs out) c = [Posted t m]"
| "moved t (In_Send_Recv m SR_Copy_Out succs out) c = [Returned t (reply_part c)]"
| "moved t (In_Recv RV_Copy succs out) c = [Taken t (send_part c)]"
| "moved t (In_Send m SD_Copy succs) c = [Answered t m]"
| "moved t _ c = []"

fun call_step :: "'e kevent_api \<Rightarrow> bool \<Rightarrow> addr \<Rightarrow> call_state \<Rightarrow> 'e channel
    \<Rightarrow> (call_state \<times> 'e channel) option" where
  "call_step K apc t Idle c = None"
| "call_step K apc t (In_Send_Recv m pc succs out) c =
     map_option (\<lambda>((pc, succs, out), c). (In_Send_Recv m pc succs out, c))
       (channel_send_recv K apc m (pc, succs, out) c)"
| "call_step K apc t (In_Recv pc succs out) c =
     map_option (\<lambda>((pc, succs, out), c). (In_Recv pc succs out, c)) (channel_recv K apc t (pc, succs, out) c)"
| "call_step K apc t (In_Send m pc succs) c =
     map_option (\<lambda>((pc, succs), c). (In_Send m pc succs, c)) (channel_send K apc t m (pc, succs) c)"
| "call_step K apc t (In_Release pc) c =
     map_option (\<lambda>(pc, c). (In_Release pc, c)) (channel_release K pc c)"

definition thread_step :: "'e kevent_api \<Rightarrow> bool \<Rightarrow> addr \<Rightarrow> 'e chan_sys \<Rightarrow> 'e chan_sys option" where
  "thread_step K apc t s =
     map_option (\<lambda>(cs, c). \<lparr>chan = c, calls_in = (calls_in s)(t := cs),
         history = history s @ moved t (calls_in s t) (chan s)\<rparr>)
       (call_step K apc t (calls_in s t) (chan s))"

definition begin_call :: "addr \<Rightarrow> chan_call \<Rightarrow> 'e chan_sys \<Rightarrow> 'e chan_sys" where
  "begin_call t call s = s\<lparr>calls_in := (calls_in s)(t := enter call)\<rparr>"

text \<open>
  A message has the size the channel was made for: the callers pass a \<open>dbg_msg\<close> and a
  \<open>cont_dat\<close>, and these are the sizes \<open>dbg_attach_call\<close> allocates the channel with.
\<close>

fun call_ok :: "'e channel \<Rightarrow> chan_call \<Rightarrow> bool" where
  "call_ok c (Send_Recv m) \<longleftrightarrow> length m = unat (snd_size c)"
| "call_ok c (Send m) \<longleftrightarrow> length m = unat (rcv_size c)"
| "call_ok c _ \<longleftrightarrow> True"

text \<open>
  The steps of a system in which thread \<open>t\<close> makes only the calls \<open>allowed t\<close>; \<open>apcs\<close> says whether
  threads are ever terminated in a wait.
\<close>

inductive chan_step :: "'e kevent_api \<Rightarrow> bool \<Rightarrow> (addr \<Rightarrow> chan_call \<Rightarrow> bool) \<Rightarrow> 'e chan_sys \<Rightarrow> 'e chan_sys \<Rightarrow> bool"
  for K apcs allowed where
  step_call: "finished (calls_in s t) \<Longrightarrow> allowed t call \<Longrightarrow> call_ok (chan s) call \<Longrightarrow>
     chan_step K apcs allowed s (begin_call t call s)"
| step_thread: "(apc \<longrightarrow> apcs) \<Longrightarrow> thread_step K apc t s = Some s' \<Longrightarrow> chan_step K apcs allowed s s'"

inductive_cases chan_stepE: "chan_step K apcs allowed s s'"

definition chan_start :: "'e kevent_api \<Rightarrow> 'e chan_sys \<Rightarrow> bool" where
  "chan_start K s \<longleftrightarrow> (\<exists>a b junk. chan s = channel_init K a b junk
       \<and> length junk = unat a + unat b)
     \<and> (\<forall>t. calls_in s t = Idle) \<and> history s = []"

inductive chan_reach :: "'e kevent_api \<Rightarrow> bool \<Rightarrow> (addr \<Rightarrow> chan_call \<Rightarrow> bool) \<Rightarrow> 'e chan_sys \<Rightarrow> bool"
  for K apcs allowed where
  reach_start: "chan_start K s \<Longrightarrow> chan_reach K apcs allowed s"
| reach_step: "chan_reach K apcs allowed s \<Longrightarrow> chan_step K apcs allowed s s' \<Longrightarrow>
     chan_reach K apcs allowed s'"

section \<open>The rendezvous\<close>

text \<open>
  The specification: one exchange at a time. A message is posted, taken once and unchanged,
  answered by the thread that took it, and the answer goes back unchanged to the thread that
  posted the message.
\<close>

datatype rendezvous =
    Quiet | Pending addr "u8 list" | Held addr "u8 list" addr | Answer_Ready addr "u8 list" addr "u8 list"

fun rendezvous_step :: "rendezvous \<Rightarrow> chan_event \<Rightarrow> rendezvous option" where
  "rendezvous_step Quiet (Posted t m) = Some (Pending t m)"
| "rendezvous_step (Pending t m) (Taken r m') = (if m' = m then Some (Held t m r) else None)"
| "rendezvous_step (Held t m r) (Answered r' q) = (if r' = r then Some (Answer_Ready t m r q) else None)"
| "rendezvous_step (Answer_Ready t m r q) (Returned t' q') =
     (if t' = t \<and> q' = q then Some Quiet else None)"
| "rendezvous_step _ _ = None"

fun rendezvous_run :: "rendezvous \<Rightarrow> chan_event list \<Rightarrow> rendezvous option" where
  "rendezvous_run a [] = Some a"
| "rendezvous_run a (e # es) =
     (case rendezvous_step a e of None \<Rightarrow> None | Some b \<Rightarrow> rendezvous_run b es)"

lemma rendezvous_run_append:
  "rendezvous_run a (es @ fs) =
     (case rendezvous_run a es of None \<Rightarrow> None | Some b \<Rightarrow> rendezvous_run b fs)"
  by (induction a es rule: rendezvous_run.induct) (auto split: option.splits)

section \<open>The waiters counter\<close>

text \<open>A thread is inside a call from its \<open>lock_inc\<close> to its \<open>lock_dec\<close> of \<open>waiters\<close>.\<close>

fun inside :: "call_state \<Rightarrow> bool" where
  "inside (In_Send_Recv m pc succs out) \<longleftrightarrow> pc \<noteq> SR_Inc \<and> pc \<noteq> SR_Ret"
| "inside (In_Recv pc succs out) \<longleftrightarrow> pc \<noteq> RV_Inc \<and> pc \<noteq> RV_Ret"
| "inside (In_Send m pc succs) \<longleftrightarrow> pc \<noteq> SD_Inc \<and> pc \<noteq> SD_Ret"
| "inside _ \<longleftrightarrow> False"

text \<open>One step changes the counter by exactly the change of the stepping thread.\<close>

lemma call_step_waiters:
  assumes "call_step K apc t cs c = Some (cs', c')"
  shows "waiters c' = waiters c + (if inside cs' then 1 else 0) - (if inside cs then 1 else 0)"
proof (cases cs)
  case (In_Send_Recv m pc succs out)
  with assms show ?thesis
    by (cases pc) (auto simp: Let_def lock_cmpxchg_def put_send_def split: if_splits)
next
  case (In_Recv pc succs out)
  with assms show ?thesis
    by (cases pc) (auto simp: Let_def lock_cmpxchg_def split: if_splits)
next
  case (In_Send m pc succs)
  with assms show ?thesis
    by (cases pc) (auto simp: Let_def lock_cmpxchg_def put_reply_def split: if_splits)
next
  case (In_Release pc)
  with assms show ?thesis by (cases pc) auto
qed (use assms in simp)

lemma inside_enter: "\<not> inside (enter call)"
  by (cases call) simp_all

lemma inside_finished: "finished cs \<Longrightarrow> \<not> inside cs"
  by (cases cs) simp_all

definition insiders :: "'e chan_sys \<Rightarrow> addr set" where
  "insiders s = {t. inside (calls_in s t)}"

lemma insiders_upd:
  "insiders (s\<lparr>chan := c, calls_in := (calls_in s)(t := cs), history := h\<rparr>) =
     (if inside cs then insert t (insiders s) else insiders s - {t})"
  by (auto simp: insiders_def)

lemma finite_insiders: "finite (insiders s)" for s :: "'e chan_sys"
  by simp

lemma card_change:
  "word_of_nat (card (if P then insert t A else A - {t})) =
     (word_of_nat (card A) :: u32) + (if P then 1 else 0) - (if t \<in> A then 1 else 0)"
  for A :: "addr set"
  by (cases "card A") (auto simp: card_Diff_singleton card_insert_if insert_absorb card_gt_0_iff Suc_diff_le)

lemma waiters_count:
  "chan_reach K apcs allowed s \<Longrightarrow> waiters (chan s) = word_of_nat (card (insiders s))"
proof (induction rule: chan_reach.induct)
  case (reach_start s)
  then have "insiders s = {}" by (auto simp: chan_start_def insiders_def)
  with reach_start show ?case by (auto simp: chan_start_def channel_init_def)
next
  case (reach_step s s')
  from reach_step(2) show ?case
  proof (rule chan_stepE)
    fix t call assume "s' = begin_call t call s" and f: "finished (calls_in s t)"
    moreover have "insiders (begin_call t call s) = insiders s"
      using inside_enter [of call] inside_finished [OF f] by (auto simp: insiders_def begin_call_def)
    ultimately show ?thesis using reach_step.IH by (simp add: begin_call_def)
  next
    fix apc t assume "thread_step K apc t s = Some s'"
    then obtain cs c where st: "call_step K apc t (calls_in s t) (chan s) = Some (cs, c)"
      and s': "s' = \<lparr>chan = c, calls_in = (calls_in s)(t := cs),
         history = history s @ moved t (calls_in s t) (chan s)\<rparr>"
      by (auto simp: thread_step_def)
    have i: "insiders s' = (if inside cs then insert t (insiders s) else insiders s - {t})"
      by (auto simp: s' insiders_def)
    have "waiters (chan s') = word_of_nat (card (insiders s)) + (if inside cs then 1 else 0)
        - (if t \<in> insiders s then 1 else 0)"
      using call_step_waiters [OF st] reach_step.IH by (simp add: s' insiders_def)
    then show ?thesis unfolding i card_change by simp
  qed
qed

end
