(* ===== verification/Channel_Rendezvous.thy ===== *)
theory Channel_Rendezvous
  imports Channel_Steps
begin

text \<open>
  With one receiving thread, no termination of waiting threads and no release, the channel
  implements the rendezvous: the invariant behind it.
\<close>

section \<open>Where a transaction stands\<close>

text \<open>One receiver \<open>r\<close>; every other thread only sends and waits for the reply.\<close>

fun one_receiver :: "addr \<Rightarrow> addr \<Rightarrow> chan_call \<Rightarrow> bool" where
  "one_receiver r t (Send_Recv m) \<longleftrightarrow> t \<noteq> r"
| "one_receiver r t Recv \<longleftrightarrow> t = r"
| "one_receiver r t (Send m) \<longleftrightarrow> t = r"
| "one_receiver r t Release \<longleftrightarrow> False"

text \<open>The sender that owns the channel: it has won the exchange and not yet reset the state.\<close>

fun owner_pc :: "call_state \<Rightarrow> sr_pc option" where
  "owner_pc (In_Send_Recv m pc succs out) =
     (if pc \<in> {SR_Clear, SR_Copy, SR_Post, SR_Wait_Repl, SR_Copy_Out, SR_Clear_Repl, SR_Thread, SR_State}
         \<or> (\<exists>st. pc = SR_Woken_Repl st) then Some pc else None)"
| "owner_pc _ = None"

datatype recv_pos =
    R_Out | R_Awake | R_Thread | R_Clear | R_Copy | R_Signal
  | S_Awake | S_Clear | S_Copy | S_Signal | R_Apc

fun pos_of :: "call_state \<Rightarrow> recv_pos" where
  "pos_of (In_Recv (RV_Woken st) succs out) = (if st = STATUS_SUCCESS then R_Awake else R_Apc)"
| "pos_of (In_Recv RV_Cas succs out) = R_Awake"
| "pos_of (In_Recv RV_Thread succs out) = R_Thread"
| "pos_of (In_Recv RV_Clear succs out) = R_Clear"
| "pos_of (In_Recv RV_Copy succs out) = R_Copy"
| "pos_of (In_Recv RV_Signal succs out) = R_Signal"
| "pos_of (In_Send m (SD_Woken st) succs) = (if st = STATUS_SUCCESS then S_Awake else R_Apc)"
| "pos_of (In_Send m SD_Check succs) = S_Awake"
| "pos_of (In_Send m SD_Cas succs) = S_Awake"
| "pos_of (In_Send m SD_Clear succs) = S_Clear"
| "pos_of (In_Send m SD_Copy succs) = S_Copy"
| "pos_of (In_Send m SD_Signal succs) = S_Signal"
| "pos_of _ = R_Out"

text \<open>
  What the positions of owner and receiver and the state field determine: the three events
  that carry the transaction, whether the transaction belongs to the receiver's thread, and
  the stage of the rendezvous.
\<close>

datatype stage = At_Quiet | At_Pending | At_Held | At_Answer

record situation =
  recv_set :: bool
  rcvd_set :: bool
  repl_set :: bool
  mine :: bool
  at_stage :: stage

definition sit :: "bool \<Rightarrow> bool \<Rightarrow> bool \<Rightarrow> bool \<Rightarrow> stage \<Rightarrow> situation option" where
  "sit a b c d g = Some \<lparr>recv_set = a, rcvd_set = b, repl_set = c, mine = d, at_stage = g\<rparr>"

fun while_sent :: "recv_pos \<Rightarrow> situation option" where
  "while_sent R_Out = sit True False False False At_Pending"
| "while_sent R_Awake = sit True False False False At_Pending"
| "while_sent _ = None"

fun while_recved :: "recv_pos \<Rightarrow> situation option" where
  "while_recved R_Thread = sit True False False False At_Pending"
| "while_recved R_Clear = sit True False False True At_Pending"
| "while_recved R_Copy = sit False False False True At_Pending"
| "while_recved R_Signal = sit False False False True At_Held"
| "while_recved R_Out = sit False True False True At_Held"
| "while_recved S_Awake = sit False True False True At_Held"
| "while_recved _ = None"

fun while_replayed :: "recv_pos \<Rightarrow> situation option" where
  "while_replayed S_Clear = sit False True False True At_Held"
| "while_replayed S_Copy = sit False False False True At_Held"
| "while_replayed S_Signal = sit False False False True At_Answer"
| "while_replayed R_Out = sit False False True True At_Answer"
| "while_replayed _ = None"

fun situation_at :: "sr_pc option \<Rightarrow> recv_pos \<Rightarrow> u32 \<Rightarrow> situation option" where
  "situation_at None p st =
     (if st = CH_NULL \<and> p = R_Out then sit False False False False At_Quiet else None)"
| "situation_at (Some SR_Clear) p st =
     (if st = CH_SENT \<and> p = R_Out then sit False False False False At_Quiet else None)"
| "situation_at (Some SR_Copy) p st =
     (if st = CH_SENT \<and> p = R_Out then sit False False False False At_Quiet else None)"
| "situation_at (Some SR_Post) p st =
     (if st = CH_SENT \<and> p = R_Out then sit False False False False At_Pending else None)"
| "situation_at (Some SR_Wait_Repl) p st =
     (if st = CH_SENT then while_sent p else if st = CH_RECVED then while_recved p
      else if st = CH_REPLAYED then while_replayed p else None)"
| "situation_at (Some (SR_Woken_Repl w)) p st =
     (if st = CH_REPLAYED \<and> p = R_Out \<and> w = STATUS_SUCCESS then sit False False True True At_Answer else None)"
| "situation_at (Some SR_Copy_Out) p st =
     (if st = CH_REPLAYED \<and> p = R_Out then sit False False True True At_Answer else None)"
| "situation_at (Some SR_Clear_Repl) p st =
     (if st = CH_REPLAYED \<and> p = R_Out then sit False False True True At_Quiet else None)"
| "situation_at (Some SR_Thread) p st =
     (if st = CH_REPLAYED \<and> p = R_Out then sit False False False True At_Quiet else None)"
| "situation_at (Some SR_State) p st =
     (if st = CH_REPLAYED \<and> p = R_Out then sit False False False False At_Quiet else None)"
| "situation_at (Some _) p st = None"

section \<open>The invariant\<close>

fun message_of :: "call_state \<Rightarrow> u8 list" where
  "message_of (In_Send_Recv m pc succs out) = m"
| "message_of _ = []"

fun rendezvous_at :: "stage \<Rightarrow> addr \<Rightarrow> addr \<Rightarrow> u8 list \<Rightarrow> 'e channel \<Rightarrow> rendezvous \<Rightarrow> bool" where
  "rendezvous_at At_Quiet t r m c a \<longleftrightarrow> a = Quiet"
| "rendezvous_at At_Pending t r m c a \<longleftrightarrow> a = Pending t m \<and> send_part c = m"
| "rendezvous_at At_Held t r m c a \<longleftrightarrow> a = Held t m r"
| "rendezvous_at At_Answer t r m c a \<longleftrightarrow> a = Answer_Ready t m r (reply_part c)"

fun call_fits :: "addr \<Rightarrow> addr \<Rightarrow> 'e channel \<Rightarrow> call_state \<Rightarrow> bool" where
  "call_fits r t c Idle \<longleftrightarrow> True"
| "call_fits r t c (In_Send_Recv m pc succs out) \<longleftrightarrow> t \<noteq> r \<and> length m = unat (snd_size c)"
| "call_fits r t c (In_Recv pc succs out) \<longleftrightarrow> t = r"
| "call_fits r t c (In_Send m pc succs) \<longleftrightarrow> t = r \<and> length m = unat (rcv_size c)"
| "call_fits r t c (In_Release pc) \<longleftrightarrow> False"

definition channel_fits :: "'e channel \<Rightarrow> bool" where
  "channel_fits c \<longleftrightarrow> released c = 0 \<and> length (data c) = unat (snd_size c) + unat (rcv_size c)"

definition agrees :: "'e kevent_api \<Rightarrow> addr \<Rightarrow> 'e channel \<Rightarrow> situation \<Rightarrow> bool" where
  "agrees K r c x \<longleftrightarrow> ke_ready K (recv_event c) = recv_set x \<and> ke_ready K (rcvd_event c) = rcvd_set x
     \<and> ke_ready K (repl_event c) = repl_set x \<and> thread c = (if mine x then r else NULL)"

definition chan_inv :: "'e kevent_api \<Rightarrow> addr \<Rightarrow> 'e chan_sys \<Rightarrow> bool" where
  "chan_inv K r s \<longleftrightarrow> channel_fits (chan s) \<and> (\<forall>t. call_fits r t (chan s) (calls_in s t))
   \<and> (\<exists>t x a. (\<forall>t'. t' \<noteq> t \<longrightarrow> owner_pc (calls_in s t') = None)
        \<and> situation_at (owner_pc (calls_in s t)) (pos_of (calls_in s r)) (state (chan s)) = Some x
        \<and> agrees K r (chan s) x \<and> rendezvous_run Quiet (history s) = Some a
        \<and> rendezvous_at (at_stage x) t r (message_of (calls_in s t)) (chan s) a)"

lemma chan_invI:
  assumes "channel_fits (chan s)" and "\<And>t. call_fits r t (chan s) (calls_in s t)"
    and "\<And>t'. t' \<noteq> t \<Longrightarrow> owner_pc (calls_in s t') = None"
    and "situation_at (owner_pc (calls_in s t)) (pos_of (calls_in s r)) (state (chan s)) = Some x"
    and "agrees K r (chan s) x" and "rendezvous_run Quiet (history s) = Some a"
    and "rendezvous_at (at_stage x) t r (message_of (calls_in s t)) (chan s) a"
  shows "chan_inv K r s"
  using assms unfolding chan_inv_def by blast

lemma event_simps:
  "kevent_ok K \<Longrightarrow> ke_ready K (ke_init K b) = b"
  "kevent_ok K \<Longrightarrow> ke_ready K (ke_set K e)"
  "kevent_ok K \<Longrightarrow> \<not> ke_ready K (ke_clear K e)"
  by (simp_all add: kevent_ok_def)

lemma chan_inv_start: "chan_start K s \<Longrightarrow> kevent_ok K \<Longrightarrow> chan_inv K r s"
  unfolding chan_start_def
  by (intro chan_invI [of s r NULL "\<lparr>recv_set = False, rcvd_set = False, repl_set = False, mine = False,
      at_stage = At_Quiet\<rparr>" K Quiet])
    (auto simp: channel_init_def channel_fits_def agrees_def event_simps sit_def)

text \<open>The data area: a copy to one part is read back there.\<close>

lemma send_part_put:
  "length m = unat (snd_size c) \<Longrightarrow> send_part (put_send m c) = m"
  by (simp add: send_part_def put_send_def write_at_def)

lemma reply_part_put:
  "length m = unat (rcv_size c) \<Longrightarrow> length (data c) = unat (snd_size c) + unat (rcv_size c) \<Longrightarrow>
   reply_part (put_reply m c) = m"
  by (simp add: reply_part_def put_reply_def write_at_def)

lemma fits_put:
  "length m = unat (snd_size c) \<Longrightarrow> channel_fits c \<Longrightarrow> channel_fits (put_send m c)"
  "length m = unat (rcv_size c) \<Longrightarrow> channel_fits c \<Longrightarrow> channel_fits (put_reply m c)"
  by (simp_all add: channel_fits_def put_send_def put_reply_def write_at_def)

text \<open>A situation without an owner, and what the state field says of the owner.\<close>

lemma situation_at_null:
  "situation_at q p CH_NULL = Some x \<longleftrightarrow> q = None \<and> p = R_Out \<and> Some x = sit False False False False At_Quiet"
  by (cases "(q, p, CH_NULL)" rule: situation_at.cases) (auto simp: sit_def)

section \<open>Preservation\<close>

text \<open>Steps that change nothing the invariant looks at: outside a transaction, and new calls.\<close>

definition same_channel :: "'e channel \<Rightarrow> 'e channel \<Rightarrow> bool" where
  "same_channel c c' \<longleftrightarrow> recv_event c' = recv_event c \<and> rcvd_event c' = rcvd_event c
     \<and> repl_event c' = repl_event c \<and> thread c' = thread c \<and> state c' = state c
     \<and> released c' = released c \<and> snd_size c' = snd_size c \<and> rcv_size c' = rcv_size c
     \<and> data c' = data c"

lemma same_channel_facts:
  assumes "same_channel c c'"
  shows "channel_fits c' = channel_fits c" "agrees K r c' x = agrees K r c x" "state c' = state c"
    and "call_fits r t c' cs = call_fits r t c cs"
    and "rendezvous_at g t r m c' a = rendezvous_at g t r m c a"
proof -
  have p: "send_part c' = send_part c" "reply_part c' = reply_part c"
    using assms by (simp_all add: same_channel_def send_part_def reply_part_def)
  show "channel_fits c' = channel_fits c" "agrees K r c' x = agrees K r c x" "state c' = state c"
    using assms by (simp_all add: same_channel_def channel_fits_def agrees_def)
  show "call_fits r t c' cs = call_fits r t c cs"
    using assms by (cases cs) (simp_all add: same_channel_def)
  show "rendezvous_at g t r m c' a = rendezvous_at g t r m c a" by (cases g) (simp_all add: p)
qed

lemma quiet_step:
  assumes inv: "chan_inv K r s" and old: "owner_pc (calls_in s t) = None"
    and new: "owner_pc cs = None" "call_fits r t (chan s) cs"
    and pos: "t = r \<Longrightarrow> pos_of cs = pos_of (calls_in s t)" and same: "same_channel (chan s) c"
  shows "chan_inv K r \<lparr>chan = c, calls_in = (calls_in s)(t := cs), history = history s\<rparr>"
proof -
  from inv obtain w x a where i: "channel_fits (chan s)" "\<And>t. call_fits r t (chan s) (calls_in s t)"
      "\<And>t'. t' \<noteq> w \<Longrightarrow> owner_pc (calls_in s t') = None"
      "situation_at (owner_pc (calls_in s w)) (pos_of (calls_in s r)) (state (chan s)) = Some x"
      "agrees K r (chan s) x" "rendezvous_run Quiet (history s) = Some a"
      "rendezvous_at (at_stage x) w r (message_of (calls_in s w)) (chan s) a"
    unfolding chan_inv_def by blast
  note [simp] = same_channel_facts [OF same]
  have "rendezvous_at (at_stage x) w r (message_of (((calls_in s)(t := cs)) w)) (chan s) a"
  proof (cases "w = t")
    case True
    with i(4) old have "at_stage x = At_Quiet" by (auto simp: sit_def split: if_splits)
    with i(7) show ?thesis by simp
  qed (use i(7) in simp)
  moreover have "owner_pc (((calls_in s)(t := cs)) w) = owner_pc (calls_in s w)"
    using old new by simp
  ultimately show ?thesis using i new pos
    by (intro chan_invI [where t = w and x = x and a = a]) auto
qed

lemma chan_inv_owner:
  assumes "chan_inv K r s" and "owner_pc (calls_in s t) = Some pc"
  obtains x a where "channel_fits (chan s)" and "\<And>t. call_fits r t (chan s) (calls_in s t)"
    and "\<And>t'. t' \<noteq> t \<Longrightarrow> owner_pc (calls_in s t') = None"
    and "situation_at (Some pc) (pos_of (calls_in s r)) (state (chan s)) = Some x"
    and "agrees K r (chan s) x" and "rendezvous_run Quiet (history s) = Some a"
    and "rendezvous_at (at_stage x) t r (message_of (calls_in s t)) (chan s) a"
proof -
  from assms(1) obtain w x a where i: "channel_fits (chan s)" "\<And>t. call_fits r t (chan s) (calls_in s t)"
      "\<And>t'. t' \<noteq> w \<Longrightarrow> owner_pc (calls_in s t') = None"
      "situation_at (owner_pc (calls_in s w)) (pos_of (calls_in s r)) (state (chan s)) = Some x"
      "agrees K r (chan s) x" "rendezvous_run Quiet (history s) = Some a"
      "rendezvous_at (at_stage x) w r (message_of (calls_in s w)) (chan s) a"
    unfolding chan_inv_def by blast
  have "w = t" using i(3) assms(2) by force
  with i assms(2) that show thesis by auto
qed

lemma step_cases:
  assumes "thread_step K apc t s = Some s'"
  obtains cs c where "call_step K apc t (calls_in s t) (chan s) = Some (cs, c)"
    and "s' = \<lparr>chan = c, calls_in = (calls_in s)(t := cs), history = history s @ moved t (calls_in s t) (chan s)\<rparr>"
  using assms by (auto simp: thread_step_def)

lemmas chan_simps = channel_fits_def agrees_def sit_def rendezvous_run_append wait_for_def
  lock_cmpxchg_def Let_def

text \<open>The owner's steps.\<close>

lemma owner_step:
  assumes inv: "chan_inv K r s" and K: "kevent_ok K"
    and cs: "calls_in s t = In_Send_Recv m pc succs out" and own: "owner_pc (calls_in s t) = Some pc"
    and step: "thread_step K False t s = Some s'"
  shows "chan_inv K r s'"
proof -
  obtain x a where i: "channel_fits (chan s)" "\<And>t. call_fits r t (chan s) (calls_in s t)"
      "\<And>t'. t' \<noteq> t \<Longrightarrow> owner_pc (calls_in s t') = None"
      "situation_at (Some pc) (pos_of (calls_in s r)) (state (chan s)) = Some x"
      "agrees K r (chan s) x" "rendezvous_run Quiet (history s) = Some a"
      "rendezvous_at (at_stage x) t r m (chan s) a"
    using chan_inv_owner [OF inv own] cs by (metis message_of.simps(1))
  have tr: "t \<noteq> r" and len: "length m = unat (snd_size (chan s))" using i(2) [of t] cs by simp_all
  obtain cs' c where st: "call_step K False t (calls_in s t) (chan s) = Some (cs', c)"
    and s': "s' = \<lparr>chan = c, calls_in = (calls_in s)(t := cs'), history = history s @ moved t (calls_in s t) (chan s)\<rparr>"
    using step by (rule step_cases)
  have go: "chan_inv K r s'"
    if "owner_pc cs' = q" "situation_at q (pos_of (calls_in s r)) (state c) = Some x'" "agrees K r c x'"
      "channel_fits c" "snd_size c = snd_size (chan s)" "rcv_size c = rcv_size (chan s)"
      "rendezvous_run Quiet (history s @ moved t (calls_in s t) (chan s)) = Some a'"
      "rendezvous_at (at_stage x') t r m c a'" "cs' = In_Send_Recv m pc' succs' out'" for q x' a' pc' succs' out'
  proof -
    have "call_fits r t' c cs'' = call_fits r t' (chan s) cs''" for t' cs''
      using that(5,6) by (cases cs'') simp_all
    then show ?thesis unfolding s'
      by (intro chan_invI [where t = t and x = x' and a = a']) (use that i tr len in auto)
  qed
  show ?thesis
  proof (cases pc)
    case SR_Clear
    then have "cs' = In_Send_Recv m SR_Copy succs out" "c = (chan s)\<lparr>send_event := ke_clear K (send_event (chan s))\<rparr>"
      using st cs by simp_all
    with i show ?thesis
      by (intro go [where x' = x and a' = a]) (auto simp: SR_Clear cs chan_simps split: if_splits)
  next
    case SR_Copy
    then have "cs' = In_Send_Recv m SR_Post succs out" and c: "c = put_send m (chan s)"
      using st cs by simp_all
    moreover have "a = Quiet" "state (chan s) = CH_SENT" "pos_of (calls_in s r) = R_Out"
      using i(4,7) by (auto simp: SR_Copy chan_simps split: if_splits)
    moreover have "send_part c = m" "channel_fits c" using c len i(1) by (simp_all add: send_part_put fits_put)
    ultimately show ?thesis using i(4-6)
      by (intro go [where x' = "x\<lparr>at_stage := At_Pending\<rparr>" and a' = "Pending t m"])
        (auto simp: SR_Copy cs agrees_def sit_def rendezvous_run_append put_send_def)
  next
    case SR_Post
    then have "cs' = In_Send_Recv m SR_Wait_Repl succs out"
      "c = (chan s)\<lparr>recv_event := ke_set K (recv_event (chan s))\<rparr>"
      using st cs by simp_all
    with i show ?thesis
      by (intro go [where x' = "x\<lparr>recv_set := True\<rparr>" and a' = a])
        (auto simp: SR_Post cs chan_simps event_simps [OF K] send_part_def split: if_splits)
  next
    case SR_Wait_Repl
    then have r: "ke_ready K (repl_event (chan s))" and c: "c = chan s"
      and cs': "cs' = In_Send_Recv m (SR_Woken_Repl 0) succs out"
      using st cs by (auto simp: wait_for_def split: if_splits)
    have "state (chan s) = CH_REPLAYED \<and> pos_of (calls_in s r) = R_Out \<and> at_stage x = At_Answer"
      using i(4,5) r unfolding SR_Wait_Repl
      by (cases "pos_of (calls_in s r)") (auto simp: agrees_def sit_def split: if_splits)
    with i c cs' show ?thesis
      by (intro go [where x' = x and a' = a]) (auto simp: SR_Wait_Repl cs sit_def)
  next
    case (SR_Woken_Repl w)
    then have "c = chan s" "\<exists>succs'. cs' = In_Send_Recv m SR_Copy_Out succs' out"
      using st cs by auto
    with i show ?thesis
      by (elim exE) (intro go [where x' = x and a' = a], auto simp: SR_Woken_Repl cs sit_def split: if_splits)
  next
    case SR_Copy_Out
    then have "c = chan s" "cs' = In_Send_Recv m SR_Clear_Repl succs (reply_part (chan s))"
      using st cs by auto
    with i show ?thesis
      by (intro go [where x' = "x\<lparr>at_stage := At_Quiet\<rparr>" and a' = Quiet])
        (auto simp: SR_Copy_Out cs sit_def agrees_def rendezvous_run_append split: if_splits)
  next
    case SR_Clear_Repl
    then have "cs' = In_Send_Recv m SR_Thread succs out"
      "c = (chan s)\<lparr>repl_event := ke_clear K (repl_event (chan s))\<rparr>"
      using st cs by simp_all
    with i show ?thesis
      by (intro go [where x' = "x\<lparr>repl_set := False\<rparr>" and a' = a])
        (auto simp: SR_Clear_Repl cs chan_simps event_simps [OF K] split: if_splits)
  next
    case SR_Thread
    then have "cs' = In_Send_Recv m SR_State succs out" "c = (chan s)\<lparr>thread := NULL\<rparr>"
      using st cs by simp_all
    with i show ?thesis
      by (intro go [where x' = "x\<lparr>mine := False\<rparr>" and a' = a])
        (auto simp: SR_Thread cs chan_simps split: if_splits)
  next
    case SR_State
    then have "cs' = In_Send_Recv m SR_Ready succs out" "c = (chan s)\<lparr>state := CH_NULL\<rparr>"
      using st cs by simp_all
    with i show ?thesis
      by (intro go [where x' = x and a' = a]) (auto simp: SR_State cs chan_simps split: if_splits)
  qed (use own cs in simp_all)
qed

text \<open>A sender that does not own the channel: it only becomes an owner where there is none.\<close>

lemma outside_step:
  assumes inv: "chan_inv K r s" and K: "kevent_ok K"
    and cs: "calls_in s t = In_Send_Recv m pc succs out" and own: "owner_pc (calls_in s t) = None"
    and step: "thread_step K False t s = Some s'"
  shows "chan_inv K r s'"
proof -
  have fit: "call_fits r t (chan s) (calls_in s t)" using inv by (simp add: chan_inv_def)
  then have tr: "t \<noteq> r" using cs by simp
  obtain cs' c where st: "call_step K False t (calls_in s t) (chan s) = Some (cs', c)"
    and s': "s' = \<lparr>chan = c, calls_in = (calls_in s)(t := cs'), history = history s @ moved t (calls_in s t) (chan s)\<rparr>"
    using step by (rule step_cases)
  have mv: "moved t (calls_in s t) (chan s) = []" using own cs by (cases pc) auto
  show ?thesis
  proof (cases "pc = SR_Cas \<and> state (chan s) = CH_NULL")
    case True
    then have cs': "cs' = In_Send_Recv m SR_Clear succs out" and c: "c = (chan s)\<lparr>state := CH_SENT\<rparr>"
      using st cs by (simp_all add: lock_cmpxchg_def)
    from inv obtain w x a where i: "channel_fits (chan s)" "\<And>t. call_fits r t (chan s) (calls_in s t)"
        "\<And>t'. t' \<noteq> w \<Longrightarrow> owner_pc (calls_in s t') = None"
        "situation_at (owner_pc (calls_in s w)) (pos_of (calls_in s r)) (state (chan s)) = Some x"
        "agrees K r (chan s) x" "rendezvous_run Quiet (history s) = Some a"
        "rendezvous_at (at_stage x) w r (message_of (calls_in s w)) (chan s) a"
      unfolding chan_inv_def by blast
    from i(4) True have n: "owner_pc (calls_in s w) = None" "pos_of (calls_in s r) = R_Out"
        "Some x = sit False False False False At_Quiet" by (simp_all add: situation_at_null)
    then have others: "owner_pc (calls_in s t') = None" for t' using i(3) by (cases "t' = w") auto
    have fits: "call_fits r t' c cs'' = call_fits r t' (chan s) cs''" for t' cs''
      by (cases cs'') (simp_all add: c)
    show ?thesis unfolding s' mv
      using i n tr others fit cs
      by (intro chan_invI [where t = t and x = x and a = Quiet])
        (auto simp: fits cs' simp del: call_fits.simps, auto simp: c chan_simps)
  next
    case False
    have "owner_pc cs' = None" "call_fits r t (chan s) cs'" "same_channel (chan s) c"
      using st cs own fit False
      by (cases pc; auto simp: lock_cmpxchg_def same_channel_def split: if_splits)+
    from quiet_step [OF inv own this(1,2) _ this(3)] tr show ?thesis unfolding s' mv by simp
  qed
qed

text \<open>The receiver's steps inside a transaction, which has an owner waiting for the reply.\<close>

lemma situation_owner:
  assumes "situation_at q p st = Some x" and "p \<noteq> R_Out \<or> recv_set x \<or> rcvd_set x"
  shows "q = Some SR_Wait_Repl"
  using assms by (cases "(q, p, st)" rule: situation_at.cases) (auto simp: sit_def split: if_splits)

lemma receiver_next:
  assumes inv: "chan_inv K r s" and "r \<noteq> NULL"
    and busy: "pos_of (calls_in s r) \<noteq> R_Out \<or> ke_ready K (recv_event (chan s)) \<or> ke_ready K (rcvd_event (chan s))"
    and new: "owner_pc cs = None" "call_fits r r (chan s) cs" and none: "owner_pc (calls_in s r) = None"
    and adv: "\<And>w m x a. w \<noteq> r \<Longrightarrow> situation_at (Some SR_Wait_Repl) (pos_of (calls_in s r)) (state (chan s)) = Some x \<Longrightarrow>
        agrees K r (chan s) x \<Longrightarrow> rendezvous_run Quiet (history s) = Some a \<Longrightarrow>
        rendezvous_at (at_stage x) w r m (chan s) a \<Longrightarrow> channel_fits (chan s) \<Longrightarrow> channel_fits c \<and>
        (\<exists>x' a'. situation_at (Some SR_Wait_Repl) (pos_of cs) (state c) = Some x' \<and> agrees K r c x'
          \<and> rendezvous_run Quiet (history s @ es) = Some a' \<and> rendezvous_at (at_stage x') w r m c a')"
    and sizes: "snd_size c = snd_size (chan s)" "rcv_size c = rcv_size (chan s)"
  shows "chan_inv K r \<lparr>chan = c, calls_in = (calls_in s)(r := cs), history = history s @ es\<rparr>"
proof -
  from inv obtain w x a where i: "channel_fits (chan s)" "\<And>t. call_fits r t (chan s) (calls_in s t)"
      "\<And>t'. t' \<noteq> w \<Longrightarrow> owner_pc (calls_in s t') = None"
      "situation_at (owner_pc (calls_in s w)) (pos_of (calls_in s r)) (state (chan s)) = Some x"
      "agrees K r (chan s) x" "rendezvous_run Quiet (history s) = Some a"
      "rendezvous_at (at_stage x) w r (message_of (calls_in s w)) (chan s) a"
    unfolding chan_inv_def by blast
  have own: "owner_pc (calls_in s w) = Some SR_Wait_Repl"
    by (rule situation_owner [OF i(4)]) (use busy i(5) in \<open>auto simp: agrees_def\<close>)
  then have wr: "w \<noteq> r" using none by auto
  have fits: "call_fits r t' c cs'' = call_fits r t' (chan s) cs''" for t' cs''
    using sizes by (cases cs'') simp_all
  from adv [OF wr i(4) [unfolded own] i(5,6,7,1)] obtain x' a' where n: "channel_fits c"
      "situation_at (Some SR_Wait_Repl) (pos_of cs) (state c) = Some x'" "agrees K r c x'"
      "rendezvous_run Quiet (history s @ es) = Some a'"
      "rendezvous_at (at_stage x') w r (message_of (calls_in s w)) c a'" by blast
  show ?thesis
    by (intro chan_invI [where t = w and x = x' and a = a']) (use n i wr own new fits in auto)
qed

lemma chan_inv_no_apc: "chan_inv K r s \<Longrightarrow> pos_of (calls_in s r) \<noteq> R_Apc"
proof -
  have "situation_at q R_Apc st = None" for q st
    by (cases "(q, R_Apc, st)" rule: situation_at.cases) auto
  then show "chan_inv K r s \<Longrightarrow> pos_of (calls_in s r) \<noteq> R_Apc" by (auto simp: chan_inv_def)
qed

lemma recv_step:
  assumes inv: "chan_inv K r s" and K: "kevent_ok K" and r: "r \<noteq> NULL"
    and cs: "calls_in s r = In_Recv pc succs out" and step: "thread_step K False r s = Some s'"
  shows "chan_inv K r s'"
proof -
  have fit: "call_fits r r (chan s) (calls_in s r)" and rel: "released (chan s) = 0"
    using inv by (simp_all add: chan_inv_def channel_fits_def)
  have none: "owner_pc (calls_in s r) = None" by (simp add: cs)
  obtain cs' c where st: "call_step K False r (calls_in s r) (chan s) = Some (cs', c)"
    and s': "s' = \<lparr>chan = c, calls_in = (calls_in s)(r := cs'), history = history s @ moved r (calls_in s r) (chan s)\<rparr>"
    using step by (rule step_cases)
  have new: "owner_pc cs' = None" "call_fits r r (chan s) cs'" using st cs by auto
  have sizes: "snd_size c = snd_size (chan s)" "rcv_size c = rcv_size (chan s)"
    using st cs by (cases pc; auto simp: Let_def lock_cmpxchg_def)+
  note go = receiver_next [OF inv r _ new none _ sizes, of "moved r (calls_in s r) (chan s)", folded s']
  note quiet = quiet_step [OF inv none new, of c]
  show ?thesis
  proof (cases pc)
    case RV_Inc
    then show ?thesis using quiet st cs unfolding s' by (auto simp: same_channel_def)
  next
    case RV_Wait
    then have rdy: "ke_ready K (recv_event (chan s))" and c: "c = chan s" "cs' = In_Recv (RV_Woken 0) succs out"
      using st cs by (auto simp: wait_for_def split: if_splits)
    show ?thesis
      by (rule go) (use rdy in \<open>auto simp: RV_Wait cs c chan_simps split: if_splits\<close>)
  next
    case (RV_Woken w)
    show ?thesis
    proof (cases "w = 0")
      case True
      then show ?thesis using quiet st cs rel RV_Woken unfolding s' by (auto simp: same_channel_def)
    next
      case False
      then show ?thesis using chan_inv_no_apc [OF inv] cs RV_Woken by simp
    qed
  next
    case RV_Cas
    show ?thesis
    proof (cases "state (chan s) = CH_SENT")
      case True
      then have c: "c = (chan s)\<lparr>state := CH_RECVED\<rparr>" "cs' = In_Recv RV_Thread succs out"
        using st cs RV_Cas by (simp_all add: lock_cmpxchg_def)
      show ?thesis
        by (rule go) (use True in \<open>auto simp: RV_Cas cs c chan_simps send_part_def\<close>)
    next
      case False
      show ?thesis
        by (rule go) (use False in \<open>simp_all add: RV_Cas cs\<close>, auto split: if_splits)
    qed
  next
    case RV_Thread
    show ?thesis
    proof (cases "thread (chan s) = NULL")
      case True
      then have c: "c = (chan s)\<lparr>thread := r\<rparr>" "cs' = In_Recv RV_Clear succs out"
        using st cs RV_Thread by (simp_all add: lock_cmpxchg_def)
      show ?thesis
        by (rule go) (auto simp: RV_Thread cs c chan_simps send_part_def split: if_splits)
    next
      case False
      show ?thesis
        by (rule go) (use False in \<open>simp_all add: RV_Thread cs\<close>, auto simp: agrees_def sit_def split: if_splits)
    qed
  next
    case RV_Clear
    have c: "c = (chan s)\<lparr>recv_event := ke_clear K (recv_event (chan s))\<rparr>" "cs' = In_Recv RV_Copy succs out"
      using st cs RV_Clear by simp_all
    show ?thesis
      by (rule go) (auto simp: RV_Clear cs c chan_simps send_part_def event_simps [OF K] split: if_splits)
  next
    case RV_Copy
    have c: "c = chan s" "cs' = In_Recv RV_Signal succs (send_part (chan s))"
      using st cs RV_Copy by auto
    show ?thesis
      by (rule go) (auto simp: RV_Copy cs c chan_simps  split: if_splits)
  next
    case RV_Signal
    have c: "c = (chan s)\<lparr>rcvd_event := ke_set K (rcvd_event (chan s))\<rparr>" "cs' = In_Recv RV_Dec 1 out"
      using st cs RV_Signal by simp_all
    show ?thesis
      by (rule go) (auto simp: RV_Signal cs c chan_simps event_simps [OF K] split: if_splits)
  next
    case RV_Dec
    then show ?thesis using quiet st cs unfolding s' by (auto simp: same_channel_def)
  next
    case RV_Ret
    then show ?thesis using st cs by simp
  qed
qed

lemma send_step:
  assumes inv: "chan_inv K r s" and K: "kevent_ok K" and r: "r \<noteq> NULL"
    and cs: "calls_in s r = In_Send m pc succs" and step: "thread_step K False r s = Some s'"
  shows "chan_inv K r s'"
proof -
  have fit: "call_fits r r (chan s) (calls_in s r)" and chf: "channel_fits (chan s)"
    using inv by (simp_all add: chan_inv_def)
  then have rel: "released (chan s) = 0"
    and area: "length (data (chan s)) = unat (snd_size (chan s)) + unat (rcv_size (chan s))"
    by (simp_all add: channel_fits_def)
  have len: "length m = unat (rcv_size (chan s))" using fit by (simp add: cs)
  have none: "owner_pc (calls_in s r) = None" by (simp add: cs)
  obtain cs' c where st: "call_step K False r (calls_in s r) (chan s) = Some (cs', c)"
    and s': "s' = \<lparr>chan = c, calls_in = (calls_in s)(r := cs'), history = history s @ moved r (calls_in s r) (chan s)\<rparr>"
    using step by (rule step_cases)
  have new: "owner_pc cs' = None" "call_fits r r (chan s) cs'" using st cs fit by auto
  have sizes: "snd_size c = snd_size (chan s)" "rcv_size c = rcv_size (chan s)"
    using st cs by (cases pc; auto simp: Let_def lock_cmpxchg_def put_reply_def)+
  note go = receiver_next [OF inv r _ new none _ sizes, of "moved r (calls_in s r) (chan s)", folded s']
  note quiet = quiet_step [OF inv none new, of c]
  show ?thesis
  proof (cases pc)
    case SD_Inc
    then show ?thesis using quiet st cs unfolding s' by (auto simp: same_channel_def)
  next
    case SD_Wait
    then have rdy: "ke_ready K (rcvd_event (chan s))" and c: "c = chan s" "cs' = In_Send m (SD_Woken 0) succs"
      using st cs by (auto simp: wait_for_def split: if_splits)
    show ?thesis
      by (rule go) (use rdy in \<open>auto simp: SD_Wait cs c chan_simps split: if_splits\<close>)
  next
    case (SD_Woken w)
    show ?thesis
    proof (cases "w = 0")
      case True
      then show ?thesis using quiet st cs rel SD_Woken unfolding s' by (auto simp: same_channel_def)
    next
      case False
      then show ?thesis using chan_inv_no_apc [OF inv] cs SD_Woken by simp
    qed
  next
    case SD_Check
    have c: "c = chan s" "cs' = In_Send m (if thread (chan s) \<noteq> r then SD_Wait else SD_Cas) succs"
      using st cs SD_Check by auto
    show ?thesis
      by (rule go) (auto simp: SD_Check cs c chan_simps  split: if_splits)
  next
    case SD_Cas
    show ?thesis
    proof (cases "state (chan s) = CH_RECVED")
      case True
      then have c: "c = (chan s)\<lparr>state := CH_REPLAYED\<rparr>" "cs' = In_Send m SD_Clear succs"
        using st cs SD_Cas by (simp_all add: lock_cmpxchg_def)
      show ?thesis
        by (rule go) (use True in \<open>auto simp: SD_Cas cs c chan_simps\<close>)
    next
      case False
      show ?thesis
        by (rule go) (use False in \<open>simp_all add: SD_Cas cs\<close>, auto split: if_splits)
    qed
  next
    case SD_Clear
    have c: "c = (chan s)\<lparr>rcvd_event := ke_clear K (rcvd_event (chan s))\<rparr>" "cs' = In_Send m SD_Copy succs"
      using st cs SD_Clear by simp_all
    show ?thesis
      by (rule go) (auto simp: SD_Clear cs c chan_simps event_simps [OF K] split: if_splits)
  next
    case SD_Copy
    have c: "c = put_reply m (chan s)" "cs' = In_Send m SD_Signal succs" using st cs SD_Copy by auto
    have p: "recv_event c = recv_event (chan s)" "rcvd_event c = rcvd_event (chan s)"
      "repl_event c = repl_event (chan s)" "thread c = thread (chan s)" "state c = state (chan s)"
      by (simp_all add: c put_reply_def)
    have q: "reply_part c = m" "channel_fits c"
      using reply_part_put [OF len area] fits_put(2) [OF len chf] by (simp_all add: c)
    show ?thesis
      by (rule go) (auto simp: SD_Copy cs c(2) p q agrees_def sit_def rendezvous_run_append split: if_splits)
  next
    case SD_Signal
    have c: "c = (chan s)\<lparr>repl_event := ke_set K (repl_event (chan s))\<rparr>" "cs' = In_Send m SD_Dec 1"
      using st cs SD_Signal by simp_all
    show ?thesis
      by (rule go) (auto simp: SD_Signal cs c chan_simps event_simps [OF K] reply_part_def split: if_splits)
  next
    case SD_Dec
    then show ?thesis using quiet st cs unfolding s' by (auto simp: same_channel_def)
  next
    case SD_Ret
    then show ?thesis using st cs by simp
  qed
qed

section \<open>Every reachable state\<close>

lemma begin_call_inv:
  assumes "chan_inv K r s" and "finished (calls_in s t)" and "one_receiver r t call" and "call_ok (chan s) call"
  shows "chan_inv K r (begin_call t call s)"
proof -
  have "owner_pc (calls_in s t) = None" "pos_of (calls_in s t) = R_Out"
    using assms(2) by (cases "calls_in s t"; simp)+
  moreover have "owner_pc (enter call) = None" "pos_of (enter call) = R_Out" "call_fits r t (chan s) (enter call)"
    using assms(3,4) by (cases call; simp)+
  ultimately have "chan_inv K r \<lparr>chan = chan s, calls_in = (calls_in s)(t := enter call), history = history s\<rparr>"
    by (intro quiet_step [OF assms(1)]) (simp_all add: same_channel_def)
  moreover have "begin_call t call s = \<lparr>chan = chan s, calls_in = (calls_in s)(t := enter call), history = history s\<rparr>"
    by (cases s) (simp add: begin_call_def)
  ultimately show ?thesis by simp
qed

lemma chan_reach_inv:
  "chan_reach K False (one_receiver r) s \<Longrightarrow> kevent_ok K \<Longrightarrow> r \<noteq> NULL \<Longrightarrow> chan_inv K r s"
proof (induction rule: chan_reach.induct)
  case (reach_start s)
  then show ?case by (intro chan_inv_start)
next
  case (reach_step s s')
  then have inv: "chan_inv K r s" by blast
  from reach_step(2) show ?case
  proof (rule chan_stepE)
    fix t call
    assume "s' = begin_call t call s" "finished (calls_in s t)" "one_receiver r t call" "call_ok (chan s) call"
    then show ?thesis using begin_call_inv [OF inv] by simp
  next
    fix apc t assume "apc \<longrightarrow> False" and st: "thread_step K apc t s = Some s'"
    then have st: "thread_step K False t s = Some s'" by simp
    have fit: "call_fits r t (chan s) (calls_in s t)" using inv by (simp add: chan_inv_def)
    show ?thesis
    proof (cases "calls_in s t")
      case Idle
      then show ?thesis using st by (simp add: thread_step_def)
    next
      case (In_Send_Recv m pc succs out)
      show ?thesis
      proof (cases "owner_pc (calls_in s t)")
        case None
        then show ?thesis by (rule outside_step [OF inv reach_step(4) In_Send_Recv _ st])
      next
        case (Some q)
        then have "q = pc" using In_Send_Recv by (auto split: if_splits)
        with Some show ?thesis using owner_step [OF inv reach_step(4) In_Send_Recv _ st] by simp
      qed
    next
      case (In_Recv pc succs out)
      then have "t = r" using fit by simp
      then show ?thesis using recv_step [OF inv reach_step(4,5)] In_Recv st by simp
    next
      case (In_Send m pc succs)
      then have "t = r" using fit by simp
      then show ?thesis using send_step [OF inv reach_step(4,5)] In_Send st by simp
    next
      case (In_Release pc)
      then show ?thesis using fit by simp
    qed
  qed
qed

end
