(* ===== verification/Channel_Properties.thy ===== *)
theory Channel_Properties
  imports Channel_Rendezvous
begin

text \<open>
  What the channel promises under concurrency, and the schedules in which it does not: a second
  sender, a second receiver, and a sender that is terminated while it waits.
\<close>

section \<open>Executable schedules\<close>

datatype action = Begin addr chan_call | Run addr bool nat   \<comment> \<open>thread, terminated, number of steps\<close>

fun run_thread :: "'e kevent_api \<Rightarrow> bool \<Rightarrow> addr \<Rightarrow> nat \<Rightarrow> 'e chan_sys \<Rightarrow> 'e chan_sys option" where
  "run_thread K apc t 0 s = Some s"
| "run_thread K apc t (Suc n) s = Option.bind (thread_step K apc t s) (run_thread K apc t n)"

fun run_schedule :: "'e kevent_api \<Rightarrow> action list \<Rightarrow> 'e chan_sys \<Rightarrow> 'e chan_sys option" where
  "run_schedule K [] s = Some s"
| "run_schedule K (Begin t call # as) s =
     (if finished (calls_in s t) \<and> call_ok (chan s) call then run_schedule K as (begin_call t call s) else None)"
| "run_schedule K (Run t apc n # as) s = Option.bind (run_thread K apc t n s) (run_schedule K as)"

fun action_ok :: "bool \<Rightarrow> (addr \<Rightarrow> chan_call \<Rightarrow> bool) \<Rightarrow> action \<Rightarrow> bool" where
  "action_ok apcs allowed (Begin t call) \<longleftrightarrow> allowed t call"
| "action_ok apcs allowed (Run t apc n) \<longleftrightarrow> (apc \<longrightarrow> apcs)"

lemma run_thread_reach:
  "chan_reach K apcs allowed s \<Longrightarrow> (apc \<longrightarrow> apcs) \<Longrightarrow> run_thread K apc t n s = Some s' \<Longrightarrow>
   chan_reach K apcs allowed s'"
proof (induction n arbitrary: s)
  case (Suc n)
  from Suc.prems(3) obtain u where u: "thread_step K apc t s = Some u" "run_thread K apc t n u = Some s'"
    by (auto simp: bind_eq_Some_conv)
  have "chan_reach K apcs allowed u"
    by (rule reach_step [OF Suc.prems(1) step_thread [OF Suc.prems(2) u(1)]])
  from Suc.IH [OF this Suc.prems(2) u(2)] show ?case .
qed simp

lemma run_schedule_reach:
  "chan_reach K apcs allowed s \<Longrightarrow> list_all (action_ok apcs allowed) as \<Longrightarrow> run_schedule K as s = Some s' \<Longrightarrow>
   chan_reach K apcs allowed s'"
proof (induction as arbitrary: s)
  case (Cons a as)
  show ?case
  proof (cases a)
    case (Begin t call)
    with Cons.prems have "finished (calls_in s t)" "allowed t call" "call_ok (chan s) call"
      and r: "run_schedule K as (begin_call t call s) = Some s'" by (auto split: if_splits)
    then have "chan_reach K apcs allowed (begin_call t call s)"
      by (intro reach_step [OF Cons.prems(1)] step_call)
    with Cons.IH [OF this _ r] Cons.prems(2) show ?thesis by simp
  next
    case (Run t apc n)
    with Cons.prems obtain u where u: "run_thread K apc t n s = Some u" "run_schedule K as u = Some s'"
      by (auto simp: bind_eq_Some_conv)
    have "chan_reach K apcs allowed u"
      by (rule run_thread_reach [OF Cons.prems(1) _ u(1)]) (use Cons.prems(2) Run in simp)
    with Cons.IH [OF this _ u(2)] Cons.prems(2) show ?thesis by simp
  qed
qed simp

text \<open>A channel for messages and replies of one byte.\<close>

definition demo_chan :: "bool chan_sys" where
  "demo_chan = \<lparr>chan = channel_init flag_event 1 1 [0, 0], calls_in = (\<lambda>_. Idle), history = []\<rparr>"

lemma demo_chan_start: "chan_reach flag_event apcs allowed demo_chan"
  by (rule reach_start) (auto simp: chan_start_def demo_chan_def intro!: exI [of _ 1])

lemma run_thread_numeral:
  "run_thread K apc t (numeral k) s = Option.bind (thread_step K apc t s) (run_thread K apc t (pred_numeral k))"
  by (simp only: numeral_eq_Suc run_thread.simps)

lemmas schedule_simps = run_thread_numeral demo_chan_def channel_init_def flag_event_def thread_step_def begin_call_def
  wait_for_def lock_cmpxchg_def put_send_def put_reply_def write_at_def send_part_def reply_part_def

section \<open>The rendezvous\<close>


text \<open>A whole exchange: thread 1 posts 7, thread 9 takes it and answers 8.\<close>

definition exchange :: "action list" where
  "exchange = [Begin 1 (Send_Recv [7]), Run 1 False 7, Begin 9 Recv, Run 9 False 9,
     Begin 9 (Send [8]), Run 9 False 9, Run 1 False 8]"

lemma exchange_runs:
  "\<exists>s. run_schedule flag_event exchange demo_chan = Some s
     \<and> history s = [Posted 1 [7], Taken 9 [7], Answered 9 [8], Returned 1 [8]]"
  by (simp add: exchange_def schedule_simps)


section \<open>Freeing a channel\<close>

text \<open>C10: \<open>waiters\<close> counts the threads that are inside a call, whatever they do, also when they are
  terminated in a wait and while the channel is released; so \<open>channel_free\<close> gives up the block
  only when no thread is between its \<open>lock_inc\<close> and its \<open>lock_dec\<close>.\<close>

theorem channel_free_waits:
  assumes "chan_reach K apcs allowed s" and "\<not> inside (calls_in s NULL)"
  shows "channel_free_ready (chan s) \<longleftrightarrow> (\<forall>t. \<not> inside (calls_in s t))"
proof -
  have "card (insiders s) < 2 ^ 32"
  proof -
    have "insiders s \<subset> UNIV" using assms(2) by (auto simp: insiders_def)
    then have "card (insiders s) < card (UNIV :: addr set)" by (intro psubset_card_mono) simp
    then show ?thesis by (simp add: card_word)
  qed
  then have "(word_of_nat (card (insiders s)) :: u32) = 0 \<longleftrightarrow> card (insiders s) = 0"
    by (simp add: word_unat_eq_iff unat_of_nat take_bit_nat_eq_self)
  then show ?thesis
    using waiters_count [OF assms(1)] by (auto simp: channel_free_ready_def insiders_def)
qed

definition two_inside :: "action list" where
  "two_inside = [Begin 1 (Send_Recv [7]), Run 1 False 7, Begin 9 Recv, Run 9 False 3]"

lemma channel_free_waits_witness:
  "\<exists>s. chan_reach flag_event False (one_receiver 9) s \<and> \<not> channel_free_ready (chan s)"
proof -
  have "\<exists>s. run_schedule flag_event two_inside demo_chan = Some s
      \<and> inside (calls_in s 1) \<and> \<not> inside (calls_in s NULL)"
    by (simp add: two_inside_def schedule_simps)
  then obtain s where s: "run_schedule flag_event two_inside demo_chan = Some s"
      "inside (calls_in s 1)" "\<not> inside (calls_in s NULL)" by blast
  have r: "chan_reach flag_event False (one_receiver 9) s"
    by (rule run_schedule_reach [OF demo_chan_start _ s(1)]) (simp add: two_inside_def)
  with channel_free_waits [OF r s(3)] s(2) show ?thesis by blast
qed

section \<open>Schedules that break the exchange\<close>

text \<open>A sender that loses the race for the channel does not wait its turn. Two threads post at
  the same time: both pass the wait, one wins; the other one leaves the \<open>do ... while (0)\<close> by its
  \<open>continue\<close> and returns 0 at once, although the channel is neither released nor the thread
  terminated, and its event is never posted.\<close>

theorem losing_sender_gives_up:
  "\<exists>s. chan_reach flag_event False (one_receiver 9) s
     \<and> calls_in s 2 = In_Send_Recv [6] SR_Ret 0 [] \<and> released (chan s) = 0
     \<and> history s = [Posted 1 [7]]"
proof -
  let ?run = "[Begin 1 (Send_Recv [7]), Begin 2 (Send_Recv [6]), Run 1 False 3, Run 2 False 3,
    Run 1 False 4, Run 2 False 2]"
  have "\<exists>s. run_schedule flag_event ?run demo_chan = Some s
     \<and> calls_in s 2 = In_Send_Recv [6] SR_Ret 0 [] \<and> released (chan s) = 0 \<and> history s = [Posted 1 [7]]"
    by (simp add: schedule_simps)
  then obtain s where s: "run_schedule flag_event ?run demo_chan = Some s"
    "calls_in s 2 = In_Send_Recv [6] SR_Ret 0 []" "released (chan s) = 0" "history s = [Posted 1 [7]]" by blast
  have "chan_reach flag_event False (one_receiver 9) s"
    by (rule run_schedule_reach [OF demo_chan_start _ s(1)]) simp
  with s show ?thesis by blast
qed

text \<open>C11: with two receiving threads a message can be delivered twice. The second receiver passes its
  wait while the first message is in the channel and is then delayed; when the next sender has
  taken the channel but not yet copied its message, the exchange of the state succeeds and the
  receiver takes the first message again.\<close>

theorem second_receiver_stale:
  "\<exists>s. chan_reach flag_event False (\<lambda>t call. call \<noteq> Release) s
     \<and> history s = [Posted 1 [7], Taken 9 [7], Answered 9 [8], Returned 1 [8], Taken 10 [7]]
     \<and> rendezvous_run Quiet (history s) = None"
proof -
  let ?run = "[Begin 1 (Send_Recv [7]), Run 1 False 7, Begin 9 Recv, Begin 10 Recv, Run 10 False 3,
    Run 9 False 9, Begin 9 (Send [8]), Run 9 False 9, Run 1 False 8,
    Begin 2 (Send_Recv [6]), Run 2 False 4, Run 10 False 4]"
  have "\<exists>s. run_schedule flag_event ?run demo_chan = Some s
     \<and> history s = [Posted 1 [7], Taken 9 [7], Answered 9 [8], Returned 1 [8], Taken 10 [7]]"
    by (simp add: schedule_simps)
  then obtain s where s: "run_schedule flag_event ?run demo_chan = Some s"
     "history s = [Posted 1 [7], Taken 9 [7], Answered 9 [8], Returned 1 [8], Taken 10 [7]]" by blast
  have "chan_reach flag_event False (\<lambda>t call. call \<noteq> Release) s"
    by (rule run_schedule_reach [OF demo_chan_start _ s(1)]) simp
  with s show ?thesis by auto
qed

text \<open>A sender that is terminated while it waits for the reply leaves \<open>recv_event\<close> set. The next
  sender's exchange of the state then lets the receiver run ahead of the copy, and the message of
  the terminated thread is delivered in place of the new one.\<close>

theorem terminated_sender_stale:
  "\<exists>s. chan_reach flag_event True (one_receiver 9) s
     \<and> history s = [Posted 1 [7], Returned 1 [0], Taken 9 [7], Posted 2 [6]]"
proof -
  let ?run = "[Begin 1 (Send_Recv [7]), Run 1 False 7, Run 1 True 1, Run 1 False 7,
    Begin 2 (Send_Recv [6]), Run 2 False 4, Begin 9 Recv, Run 9 False 7, Run 2 False 2]"
  have "\<exists>s. run_schedule flag_event ?run demo_chan = Some s
     \<and> history s = [Posted 1 [7], Returned 1 [0], Taken 9 [7], Posted 2 [6]]"
    by (simp add: schedule_simps)
  then obtain s where s: "run_schedule flag_event ?run demo_chan = Some s"
     "history s = [Posted 1 [7], Returned 1 [0], Taken 9 [7], Posted 2 [6]]" by blast
  have "chan_reach flag_event True (one_receiver 9) s"
    by (rule run_schedule_reach [OF demo_chan_start _ s(1)]) simp
  with s show ?thesis by blast
qed

end
