(* ===== verification/Dbg_Def.thy ===== *)
theory Dbg_Def
  imports Prelude
begin

text \<open>
  The data the driver and the debugger exchange: the structures of \<open>inc/dbg_def.h\<close>, packed and
  little endian, with their layout in bytes. \<open>CONTEXT\<close> (716 bytes) and \<open>EXCEPTION_RECORD\<close>
  (80 bytes) are structures of the system headers and stay blocks of bytes.
\<close>

section \<open>Little-endian fields\<close>

definition le32 :: "u32 \<Rightarrow> u8 list" where
  "le32 v = [byte_of 0 v, byte_of 1 v, byte_of 2 v, byte_of 3 v]"

definition de32 :: "u8 list \<Rightarrow> u32" where
  "de32 bs = ucast (bs ! 0) OR push_bit 8 (ucast (bs ! 1)) OR push_bit 16 (ucast (bs ! 2))
     OR push_bit 24 (ucast (bs ! 3))"

text \<open>The field of 4 bytes at an offset, and a block at an offset.\<close>

definition field32 :: "u8 list \<Rightarrow> nat \<Rightarrow> u32" where
  "field32 bs off = de32 (drop off bs)"

definition block :: "u8 list \<Rightarrow> nat \<Rightarrow> nat \<Rightarrow> u8 list" where
  "block bs off n = take n (drop off bs)"

lemma length_le32 [simp]: "length (le32 v) = 4"
  by (simp add: le32_def)

lemma de32_le32 [simp]: "de32 (le32 v @ bs) = v"
  using word_bytes32 [of v] by (simp add: de32_def le32_def)

lemma de32_le32_alone [simp]: "de32 (le32 v) = v"
  using de32_le32 [of v "[]"] by simp

lemma le32_de32: "length bs = 4 \<Longrightarrow> le32 (de32 bs) = bs"
proof -
  assume "length bs = 4"
  then obtain a b c d where bs: "bs = [a, b, c, d]" by (auto simp: length_Suc_conv numeral_eq_Suc)
  have "byte_of 0 (de32 [a, b, c, d]) = a" "byte_of 1 (de32 [a, b, c, d]) = b"
    "byte_of 2 (de32 [a, b, c, d]) = c" "byte_of 3 (de32 [a, b, c, d]) = d"
    by (rule bit_word_eqI; auto simp: byte_of_def de32_def bit_simps dest: bit_imp_le_length)+
  then show ?thesis by (simp add: bs le32_def)
qed

section \<open>Events\<close>

abbreviation (input) DBG_EXCEPTION :: u32 where "DBG_EXCEPTION \<equiv> 1"
abbreviation (input) DBG_TERMINATED :: u32 where "DBG_TERMINATED \<equiv> 2"
abbreviation (input) DBG_START_THREAD :: u32 where "DBG_START_THREAD \<equiv> 4"
abbreviation (input) DBG_EXIT_THREAD :: u32 where "DBG_EXIT_THREAD \<equiv> 8"
abbreviation (input) DBG_LOAD_DLL :: u32 where "DBG_LOAD_DLL \<equiv> 16"

abbreviation (input) RES_CONTINUE :: u32 where "RES_CONTINUE \<equiv> 1"
abbreviation (input) RES_CORRECT_FRAME :: u32 where "RES_CORRECT_FRAME \<equiv> 2"

text \<open>The member of the union that is set, in the order of the structures.\<close>

datatype dbg_event =
    Terminated u32 u32                 \<comment> \<open>\<open>proc_id\<close>, \<open>exit_code\<close>\<close>
  | Thread_Start u32 u32 "u8 list"     \<comment> \<open>\<open>thread_id\<close>, \<open>teb_addr\<close>, \<open>initial_context\<close>\<close>
  | Thread_Exit u32 u32 u32            \<comment> \<open>\<open>thread_id\<close>, \<open>proc_id\<close>, \<open>exit_code\<close>\<close>
  | Exception_Raised "u8 list" u8      \<comment> \<open>\<open>except_record\<close>, \<open>first_chance\<close>\<close>
  | Dll_Load u32 u32 "u8 list"         \<comment> \<open>\<open>dll_image_base\<close>, \<open>dll_image_size\<close>, \<open>dll_name\<close>\<close>

record dbg_msg =
  process_id :: u32
  thread_id :: u32
  event_code :: u32
  event :: dbg_event

record cont_dat =
  proc_id :: u32
  status :: u32
  new_record :: "u8 list"

abbreviation (input) sizeof_CONTEXT :: nat where "sizeof_CONTEXT \<equiv> 716"
abbreviation (input) sizeof_EXCEPTION_RECORD :: nat where "sizeof_EXCEPTION_RECORD \<equiv> 80"
abbreviation (input) dll_name_bytes :: nat where "dll_name_bytes \<equiv> 520"
abbreviation (input) sizeof_dbg_msg :: nat where "sizeof_dbg_msg \<equiv> 736"
abbreviation (input) sizeof_cont_dat :: nat where "sizeof_cont_dat \<equiv> 88"
abbreviation (input) FILTER_MAX :: nat where "FILTER_MAX \<equiv> 100"
abbreviation (input) sizeof_event_filt :: nat where "sizeof_event_filt \<equiv> 808"
abbreviation (input) sizeof_set_filter_data :: nat where "sizeof_set_filter_data \<equiv> 812"

fun event_bytes :: "dbg_event \<Rightarrow> u8 list" where
  "event_bytes (Terminated pid code) = le32 pid @ le32 code"
| "event_bytes (Thread_Start tid teb ctx) = le32 tid @ le32 teb @ ctx"
| "event_bytes (Thread_Exit tid pid code) = le32 tid @ le32 pid @ le32 code"
| "event_bytes (Exception_Raised rec first) = rec @ [first]"
| "event_bytes (Dll_Load base len name) = le32 base @ le32 len @ name"

fun event_fits :: "dbg_event \<Rightarrow> bool" where
  "event_fits (Thread_Start tid teb ctx) \<longleftrightarrow> length ctx = sizeof_CONTEXT"
| "event_fits (Exception_Raised rec first) \<longleftrightarrow> length rec = sizeof_EXCEPTION_RECORD"
| "event_fits (Dll_Load base len name) \<longleftrightarrow> length name = dll_name_bytes"
| "event_fits _ \<longleftrightarrow> True"

fun code_of :: "dbg_event \<Rightarrow> u32" where
  "code_of (Terminated pid code) = DBG_TERMINATED"
| "code_of (Thread_Start tid teb ctx) = DBG_START_THREAD"
| "code_of (Thread_Exit tid pid code) = DBG_EXIT_THREAD"
| "code_of (Exception_Raised rec first) = DBG_EXCEPTION"
| "code_of (Dll_Load base len name) = DBG_LOAD_DLL"

text \<open>
  A message as the bytes of the structure: the three fields, the member of the union, and
  behind it what the memory of the variable held before (\<open>before\<close>).
\<close>

definition msg_bytes :: "u8 list \<Rightarrow> dbg_msg \<Rightarrow> u8 list" where
  "msg_bytes before m =
     (let b = le32 (process_id m) @ le32 (thread_id m) @ le32 (event_code m) @ event_bytes (event m)
      in b @ drop (length b) before)"

text \<open>The fields a receiver reads, which member by \<open>event_code\<close>.\<close>

definition read_event :: "u8 list \<Rightarrow> u32 \<Rightarrow> dbg_event option" where
  "read_event bs code =
     (if code = DBG_TERMINATED then Some (Terminated (field32 bs 12) (field32 bs 16))
      else if code = DBG_START_THREAD
        then Some (Thread_Start (field32 bs 12) (field32 bs 16) (block bs 20 sizeof_CONTEXT))
      else if code = DBG_EXIT_THREAD
        then Some (Thread_Exit (field32 bs 12) (field32 bs 16) (field32 bs 20))
      else if code = DBG_EXCEPTION
        then Some (Exception_Raised (block bs 12 sizeof_EXCEPTION_RECORD) (bs ! 92))
      else if code = DBG_LOAD_DLL
        then Some (Dll_Load (field32 bs 12) (field32 bs 16) (block bs 20 dll_name_bytes))
      else None)"

definition read_msg :: "u8 list \<Rightarrow> dbg_msg option" where
  "read_msg bs =
     map_option (\<lambda>e. \<lparr>process_id = field32 bs 0, thread_id = field32 bs 4, event_code = field32 bs 8, event = e\<rparr>)
       (read_event bs (field32 bs 8))"

lemma length_event: "event_fits e \<Longrightarrow> length (event_bytes e) \<le> 724"
  by (cases e) auto

lemma length_msg: "event_fits (event m) \<Longrightarrow> length before = sizeof_dbg_msg \<Longrightarrow> length (msg_bytes before m) = sizeof_dbg_msg"
  using length_event [of "event m"] by (simp add: msg_bytes_def Let_def)

lemma field32_0 [simp]: "field32 (le32 v @ bs) 0 = v"
  by (simp add: field32_def)

lemma field32_skip [simp]: "4 \<le> off \<Longrightarrow> field32 (le32 v @ bs) off = field32 bs (off - 4)"
  by (simp add: field32_def)

lemma block_skip [simp]: "4 \<le> off \<Longrightarrow> block (le32 v @ bs) off n = block bs (off - 4) n"
  by (simp add: block_def)

lemma block_0 [simp]: "length b = n \<Longrightarrow> block (b @ bs) 0 n = b"
  by (simp add: block_def)

lemma read_msg_bytes:
  assumes "event_fits (event m)" and "event_code m = code_of (event m)"
  shows "read_msg (msg_bytes before m) = Some m"
proof -
  have b: "(le32 a @ le32 b @ le32 c @ rec @ x # xs) ! 92 = x" if "length rec = 80" for a b c rec x xs
    using that by (simp add: nth_append)
  show ?thesis
    using assms by (cases "event m") (simp_all add: read_msg_def msg_bytes_def read_event_def Let_def b)
qed

section \<open>Replies and filters\<close>

definition cont_bytes :: "cont_dat \<Rightarrow> u8 list" where
  "cont_bytes c = le32 (proc_id c) @ le32 (status c) @ new_record c"

definition read_cont :: "u8 list \<Rightarrow> cont_dat" where
  "read_cont bs = \<lparr>proc_id = field32 bs 0, status = field32 bs 4,
     new_record = block bs 8 sizeof_EXCEPTION_RECORD\<rparr>"

lemma read_cont_bytes: "length (new_record c) = sizeof_EXCEPTION_RECORD \<Longrightarrow> read_cont (cont_bytes c) = c"
  by (cases c) (simp add: read_cont_def cont_bytes_def block_def)

record except_filt =
  filtr_from :: u32
  filtr_to :: u32

record event_filt =
  event_mask :: u32
  filtr_count :: u32
  filters :: "except_filt list"

text \<open>The structure zeroed by \<open>zeromem\<close>, and read from the 808 bytes \<open>memcpy\<close> copies.\<close>

definition empty_filter :: event_filt where
  "empty_filter = \<lparr>event_mask = 0, filtr_count = 0,
     filters = replicate FILTER_MAX \<lparr>filtr_from = 0, filtr_to = 0\<rparr>\<rparr>"

definition read_filter :: "u8 list \<Rightarrow> event_filt" where
  "read_filter bs = \<lparr>event_mask = field32 bs 0, filtr_count = field32 bs 4,
     filters = map (\<lambda>i. \<lparr>filtr_from = field32 bs (8 + 8 * i), filtr_to = field32 bs (12 + 8 * i)\<rparr>) [0..<FILTER_MAX]\<rparr>"

lemma length_filters: "length (filters (read_filter bs)) = FILTER_MAX"
  by (simp add: read_filter_def)

end
