(* ===== verification/Ops.thy ===== *)
theory Ops
  imports Prelude
begin

text \<open>
  Operations on a state that may fault. A pointer to a block that is not there any more, a \<open>NULL\<close> pointer,
  a local variable read before it is set or an access outside of an array is a fault: the operation
  returns \<open>Inl\<close> of it, and \<open>Inr\<close> of its result and the new state otherwise.
\<close>

section \<open>Faults\<close>

datatype fault =
    Use_After_Free addr
  | Null_Deref
  | Uninit_Read
  | Out_Of_Bounds

type_synonym ('s, 'a) op = "'s \<Rightarrow> fault + 'a \<times> 's"

definition ret :: "'a \<Rightarrow> ('s, 'a) op" where
  "ret v s = Inr (v, s)"

definition and_then :: "('s, 'a) op \<Rightarrow> ('a \<Rightarrow> ('s, 'b) op) \<Rightarrow> ('s, 'b) op" where
  "and_then f g s = (case f s of Inl e \<Rightarrow> Inl e | Inr (v, t) \<Rightarrow> g v t)"

definition fails :: "fault \<Rightarrow> ('s, 'a) op" where
  "fails e s = Inl e"

text \<open>An operation that cannot fault.\<close>

definition doing :: "('s \<Rightarrow> 's) \<Rightarrow> ('s, unit) op" where
  "doing f s = Inr ((), f s)"

lemma op_simps [simp]:
  "ret v s = Inr (v, s)" "fails e s = Inl e" "doing f s = Inr ((), f s)"
  by (simp_all add: ret_def fails_def doing_def)

lemma and_then_simps [simp]:
  "f s = Inr (v, t) \<Longrightarrow> and_then f g s = g v t" "f s = Inl e \<Longrightarrow> and_then f g s = Inl e"
  by (simp_all add: and_then_def)

lemma and_thenE:
  assumes "and_then f g s = Inr (w, u)"
  obtains v t where "f s = Inr (v, t)" and "g v t = Inr (w, u)"
  using assms by (auto simp: and_then_def split: sum.splits)

text \<open>A list of operations, one after the other.\<close>

fun each :: "('b \<Rightarrow> ('s, unit) op) \<Rightarrow> 'b list \<Rightarrow> ('s, unit) op" where
  "each f [] = ret ()"
| "each f (x # xs) = and_then (f x) (\<lambda>_. each f xs)"

lemma each_kept:
  assumes "each f es s = Inr ((), s')" and "\<And>e s s'. e \<in> set es \<Longrightarrow> P s \<Longrightarrow> f e s = Inr ((), s') \<Longrightarrow> P s'" and "P s"
  shows "P s'"
  using assms
proof (induction es arbitrary: s)
  case (Cons e es)
  obtain s1 where "f e s = Inr ((), s1)" "each f es s1 = Inr ((), s')"
    using Cons.prems(1) by (auto elim: and_thenE)
  then show ?case using Cons.IH [of s1] Cons.prems(2,3) by (meson list.set_intros)
qed simp

lemma each_append: "each f (xs @ ys) s = Inr ((), s') \<longleftrightarrow> (\<exists>s1. each f xs s = Inr ((), s1) \<and> each f ys s1 = Inr ((), s'))"
  by (induction xs arbitrary: s) (auto simp: and_then_def split: sum.splits)

end
