(* ===== verification/Dbg_Item.thy ===== *)
theory Dbg_Item
  imports Code_Hook Channel Dbg_Def Ops
begin

text \<open>
  The registry of debug relations, \<open>src/kernel/sys/dbg_item.c\<close>: items that tie a debugger process
  to a debugged process, in a list under a spin lock, kept alive by a reference count and owning
  the channel of the relation.

  Items and channels live in pool blocks. A pointer to a block that is not there any more, a
  \<open>NULL\<close> pointer or a local variable read before it is set is a fault: the operations return
  \<open>Inl\<close> of it, and \<open>Inr\<close> of their result and the new state otherwise.
\<close>

section \<open>State\<close>

record dbg_item =
  debugger :: addr
  debugged :: addr
  active :: u32
  ref_count :: u32
  item_chan :: addr
  item_filter :: event_filt

text \<open>The position in \<open>dbg_item_list\<close> stands for the list entry inside the structure.\<close>

record 'e dstate = hstate +
  chans :: "addr \<rightharpoonup> 'e channel"
  items :: "addr \<rightharpoonup> dbg_item"
  dbg_item_list :: "addr list"

definition set_item :: "addr \<Rightarrow> dbg_item \<Rightarrow> ('e, 'z) dstate_scheme \<Rightarrow> ('e, 'z) dstate_scheme" where
  "set_item a i s = s\<lparr>items := (items s)(a \<mapsto> i)\<rparr>"

text \<open>Access to an item through a pointer.\<close>

definition the_item :: "addr \<Rightarrow> (('e, 'z) dstate_scheme, dbg_item) op" where
  "the_item a s =
     (if a = NULL then Inl Null_Deref
      else case items s a of None \<Rightarrow> Inl (Use_After_Free a) | Some i \<Rightarrow> Inr (i, s))"

definition the_chan :: "addr \<Rightarrow> (('e, 'z) dstate_scheme, 'e channel) op" where
  "the_chan a s =
     (if a = NULL then Inl Null_Deref
      else case chans s a of None \<Rightarrow> Inl (Use_After_Free a) | Some c \<Rightarrow> Inr (c, s))"

section \<open>Channels as blocks\<close>

text \<open>\<open>channel_alloc\<close>; \<open>junk\<close> is the contents of the data area of the block the pool hands out.\<close>

definition channel_alloc :: "'e kevent_api \<Rightarrow> (addr \<Rightarrow> u8 list) \<Rightarrow> u32 \<Rightarrow> u32
    \<Rightarrow> (('e, 'z) dstate_scheme, addr) op" where
  "channel_alloc K junk snd_sz rcv_sz s =
     (let (c, s) = mem_alloc (sizeof_channel + snd_sz + rcv_sz) s
      in if c \<noteq> NULL
         then Inr (c, s\<lparr>chans := (chans s)(c \<mapsto> channel_init K snd_sz rcv_sz
                (take (unat snd_sz + unat rcv_sz) (junk c)))\<rparr>)
         else Inr (c, s))"

text \<open>All of \<open>channel_release\<close>, step after step.\<close>

fun channel_release_from :: "'e kevent_api \<Rightarrow> nat \<Rightarrow> rl_pc \<Rightarrow> 'e channel \<Rightarrow> 'e channel" where
  "channel_release_from K 0 pc c = c"
| "channel_release_from K (Suc n) pc c =
     (case channel_release K pc c of None \<Rightarrow> c | Some (pc, c) \<Rightarrow> channel_release_from K n pc c)"

definition release_chan :: "'e kevent_api \<Rightarrow> addr \<Rightarrow> (('e, 'z) dstate_scheme, unit) op" where
  "release_chan K a = and_then (the_chan a)
     (\<lambda>c. doing (\<lambda>s. s\<lparr>chans := (chans s)(a \<mapsto> channel_release_from K 5 RL_Flag c)\<rparr>))"

text \<open>
  \<open>channel_free\<close> after its wait for the waiters, which depends on the threads inside the
  channel; the block is gone afterwards.
\<close>

definition channel_free :: "addr \<Rightarrow> (('e, 'z) dstate_scheme, unit) op" where
  "channel_free a = and_then (the_chan a)
     (\<lambda>c. doing (\<lambda>s. mem_free a (s\<lparr>chans := (chans s)(a := None)\<rparr>)))"

section \<open>Operations\<close>

definition sizeof_dbg_item :: u32 where
  "sizeof_dbg_item = 836"

text \<open>\<open>cur\<close> is what \<open>IoGetCurrentProcess()\<close> answers.\<close>

definition dbg_new_item :: "addr \<Rightarrow> addr \<Rightarrow> (('e, 'z) dstate_scheme, addr) op" where
  "dbg_new_item cur dbgd s =
     (let (item, s) = mem_alloc sizeof_dbg_item s
      in if item \<noteq> NULL
         then let s = set_item item \<lparr>debugger = cur, debugged = dbgd, active = 0, ref_count = 2,
                        item_chan = NULL, item_filter = empty_filter\<rparr> s;
                  s = log_call (ObRef dbgd) (log_call (ObRef cur) s)
              in Inr (item, s\<lparr>dbg_item_list := dbg_item_list s @ [item]\<rparr>)
         else Inr (item, s))"

text \<open>The condition inside the search loop, where \<open>NULL\<close> matches everything.\<close>

definition matches :: "addr \<Rightarrow> addr \<Rightarrow> dbg_item \<Rightarrow> bool" where
  "matches debgr dbgd i \<longleftrightarrow>
     (debgr = NULL \<or> debugger i = debgr) \<and> (dbgd = NULL \<or> debugged i = dbgd) \<and> active i \<noteq> 0"

fun find_loop :: "addr \<Rightarrow> addr \<Rightarrow> addr list \<Rightarrow> (addr \<rightharpoonup> dbg_item) \<Rightarrow> fault + addr" where
  "find_loop debgr dbgd [] its = Inr NULL"
| "find_loop debgr dbgd (a # as) its =
     (case its a of
        None \<Rightarrow> Inl (Use_After_Free a)
      | Some i \<Rightarrow> if matches debgr dbgd i then Inr a else find_loop debgr dbgd as its)"

definition dbg_find_item :: "addr \<Rightarrow> addr \<Rightarrow> (('e, 'z) dstate_scheme, addr) op" where
  "dbg_find_item debgr dbgd s =
     (let s = log_call SpinAcquire s
      in case find_loop debgr dbgd (dbg_item_list s) (items s) of
           Inl e \<Rightarrow> Inl e
         | Inr found \<Rightarrow>
             let s = (case items s found of
                        Some i \<Rightarrow> if found \<noteq> NULL then set_item found (i\<lparr>ref_count := ref_count i + 1\<rparr>) s else s
                      | None \<Rightarrow> s)
             in Inr (found, log_call SpinRelease s))"

definition dbg_deref_item :: "addr \<Rightarrow> (('e, 'z) dstate_scheme, unit) op" where
  "dbg_deref_item a =
     and_then (the_item a) (\<lambda>i.
       let refs = ref_count i - 1 in
       and_then (doing (set_item a (i\<lparr>ref_count := refs\<rparr>))) (\<lambda>_.
         if refs = 0
         then and_then (doing (\<lambda>s. s\<lparr>dbg_item_list := remove1 a (dbg_item_list s)\<rparr>)) (\<lambda>_.
              and_then (channel_free (item_chan i)) (\<lambda>_.
              doing (\<lambda>s. mem_free a (log_call (ObDeref (debugger i)) (log_call (ObDeref (debugged i))
                (s\<lparr>items := (items s)(a := None)\<rparr>))))))
         else ret ()))"

definition dbg_delete_item :: "'e kevent_api \<Rightarrow> addr \<Rightarrow> (('e, 'z) dstate_scheme, unit) op" where
  "dbg_delete_item K a =
     and_then (the_item a) (\<lambda>i.
     and_then (doing (set_item a (i\<lparr>active := 0\<rparr>))) (\<lambda>_.
     and_then (release_chan K (item_chan i)) (\<lambda>_.
     dbg_deref_item a)))"

definition init_dbg_item :: "(('e, 'z) dstate_scheme, u32) op" where
  "init_dbg_item s = Inr (1, s\<lparr>dbg_item_list := []\<rparr>)"

end
