(* ===== verification/Misc.thy ===== *)
theory Misc
  imports Dbg_Item
begin

text \<open>
  The services of \<open>src/kernel/sys/misc.c\<close>: locking a user buffer into kernel memory and
  unlocking it, the base address of the kernel, system threads and process handles. What the
  memory manager and the executive answer are parameters.
\<close>

section \<open>User buffers\<close>

record buf_lock =
  mdl :: addr
  data :: addr

text \<open>
  \<open>IoAllocateMdl\<close> (\<open>NULL\<close> when it fails), whether \<open>MmProbeAndLockPages\<close> returns normally, and
  \<open>MmMapLockedPages\<close> (\<open>NULL\<close> when it fails).
\<close>

record mm_api =
  io_allocate_mdl :: "addr \<Rightarrow> u32 \<Rightarrow> addr"
  mm_probe_and_lock :: "addr \<Rightarrow> bool"
  mm_map_locked :: "addr \<Rightarrow> addr"

definition dbg_lock_um_buff :: "mm_api \<Rightarrow> addr \<Rightarrow> u32 \<Rightarrow> 'z kstate_scheme \<Rightarrow> (u32 \<times> buf_lock) \<times> 'z kstate_scheme" where
  "dbg_lock_um_buff M buff sz s =
     (let md = io_allocate_mdl M buff sz;
          s = log_call (AllocateMdl buff sz md) s
      in if md = NULL then ((0, \<lparr>mdl = NULL, data = NULL\<rparr>), s)
      else if \<not> mm_probe_and_lock M md
        then ((0, \<lparr>mdl = md, data = NULL\<rparr>), log_call (FreeMdl md) (log_call (LockPages md False) s))
      else let dat = mm_map_locked M md;
               s = log_call (MapPages md dat) (log_call (LockPages md True) s)
           in if dat = NULL
              then ((0, \<lparr>mdl = md, data = NULL\<rparr>), log_call (FreeMdl md) (log_call (UnlockPages md) s))
              else ((1, \<lparr>mdl = md, data = dat\<rparr>), s))"

definition dbg_unlock_um_buff :: "buf_lock \<Rightarrow> 'z kstate_scheme \<Rightarrow> 'z kstate_scheme" where
  "dbg_unlock_um_buff l s =
     log_call (FreeMdl (mdl l)) (log_call (UnlockPages (mdl l)) (log_call (UnmapPages (data l) (mdl l)) s))"

section \<open>The base of the kernel\<close>

text \<open>
  \<open>ZwQuerySystemInformation\<close>: status and required length of the first call, status of the
  second, and \<open>Modules[0].Base\<close> of what it returns.
\<close>

record sysinfo_api =
  query_status :: ntstatus
  query_length :: u32
  fill_status :: ntstatus
  first_module :: addr

definition get_kernel_base :: "sysinfo_api \<Rightarrow> 'z kstate_scheme \<Rightarrow> addr \<times> 'z kstate_scheme" where
  "get_kernel_base Q s =
     (if query_status Q \<noteq> STATUS_INFO_LENGTH_MISMATCH then (NULL, s)
      else let (info, s) = mem_alloc (query_length Q) s
           in if info = NULL then (NULL, s)
              else (if \<not> NT_SUCCESS (fill_status Q) then NULL else first_module Q, mem_free info s))"

section \<open>Threads and process handles\<close>

text \<open>
  \<open>st\<close> is what \<open>PsCreateSystemThread\<close> returns and \<open>h\<close> the handle. When it fails the function
  returns its variable \<open>succs\<close> without having set it: \<open>None\<close>.
\<close>

definition start_system_thread :: "ntstatus \<Rightarrow> handle \<Rightarrow> addr \<Rightarrow> 'z kstate_scheme \<Rightarrow> u32 option \<times> 'z kstate_scheme" where
  "start_system_thread st h ctx s =
     (let s = log_call (StartThread ctx) s
      in if NT_SUCCESS st then (Some 1, log_call (CloseHandle h) s) else (None, s))"

text \<open>
  \<open>ObOpenObjectByPointer\<close> with its status and the handle it stores on success; its status is not
  looked at, and when it fails the variable \<open>h_proc\<close> that is returned was never set.
\<close>

definition open_process_by_ptr :: "(addr \<Rightarrow> ntstatus \<times> handle) \<Rightarrow> addr \<Rightarrow> handle option" where
  "open_process_by_ptr ob_open process =
     (let (st, h) = ob_open process in if NT_SUCCESS st then Some h else None)"

text \<open>Use of a variable that may not have been set.\<close>

definition use_var :: "'a option \<Rightarrow> ('s, 'a) op" where
  "use_var v s = (case v of None \<Rightarrow> Inl Uninit_Read | Some x \<Rightarrow> Inr (x, s))"

section \<open>What the locks leave behind\<close>

text \<open>The MDLs allocated, locked and mapped by a piece of the log.\<close>

fun mdl_live :: "kcall list \<Rightarrow> addr list \<times> addr list \<times> addr list \<Rightarrow> addr list \<times> addr list \<times> addr list" where
  "mdl_live [] r = r"
| "mdl_live (AllocateMdl b n m # cs) (al, lk, mp) = mdl_live cs (if m = NULL then al else m # al, lk, mp)"
| "mdl_live (LockPages m ok # cs) (al, lk, mp) = mdl_live cs (al, if ok then m # lk else lk, mp)"
| "mdl_live (MapPages m d # cs) (al, lk, mp) = mdl_live cs (al, lk, if d = NULL then mp else m # mp)"
| "mdl_live (UnmapPages d m # cs) (al, lk, mp) = mdl_live cs (al, lk, remove1 m mp)"
| "mdl_live (UnlockPages m # cs) (al, lk, mp) = mdl_live cs (al, remove1 m lk, mp)"
| "mdl_live (FreeMdl m # cs) (al, lk, mp) = mdl_live cs (remove1 m al, lk, mp)"
| "mdl_live (_ # cs) r = mdl_live cs r"

lemma mdl_live_append: "mdl_live (cs @ ds) r = mdl_live ds (mdl_live cs r)"
  by (induction cs r rule: mdl_live.induct) auto

text \<open>A failed lock leaves nothing; a lock followed by its unlock leaves nothing.\<close>

lemma lock_um_buff_balance:
  assumes "dbg_lock_um_buff M buff sz s = ((r, l), t)"
  shows "r = 0 \<Longrightarrow> data l = NULL \<and> mdl_live (calls t) q = mdl_live (calls s) q"
    and "r \<noteq> 0 \<Longrightarrow> r = 1 \<and> data l \<noteq> NULL \<and> mdl l \<noteq> NULL"
    and "r \<noteq> 0 \<Longrightarrow> mdl_live (calls t) q =
      (case mdl_live (calls s) q of (al, lk, mp) \<Rightarrow> (mdl l # al, mdl l # lk, mdl l # mp))"
    and "kmem t = kmem s"
  using assms
  by (cases "mdl_live (calls s) q"; auto simp: dbg_lock_um_buff_def Let_def kernel_simps mdl_live_append split: if_splits)+

lemma unlock_um_buff_balance:
  "mdl_live (calls (dbg_unlock_um_buff l s)) q =
     (case mdl_live (calls s) q of (al, lk, mp) \<Rightarrow> (remove1 (mdl l) al, remove1 (mdl l) lk, remove1 (mdl l) mp))"
  by (cases "mdl_live (calls s) q") (simp add: dbg_unlock_um_buff_def kernel_simps mdl_live_append)

end
