(* ===== verification/Debug.thy ===== *)
theory Debug
  imports Misc
begin

text \<open>
  The debugger's half of the driver, \<open>src/kernel/sys/debug.c\<close>: the handlers of the system calls
  that attach, filter, wait for events and reply, and the hooks that turn what happens in a
  debugged process into events.

  Everything the executive answers is a field of the environment \<open>E\<close>. Where a function waits for
  the other side of a channel, or calls a service that may run other code of the driver, the
  environment also says how the state has changed when the call returns, so that the rest of
  the function runs on what other threads have left.
\<close>

section \<open>State and environment\<close>

text \<open>The static variables of the driver, and the delayed termination events by block.\<close>

record 'e drv_state = "'e dstate" +
  ntkrn_base :: addr
  thread_enth_offs :: u32
  sc_key :: u32
  nt_terminate_process :: addr
  nt_resume_thread :: addr
  term_events :: "addr \<rightharpoonup> addr \<times> u8 list"

record syscall =
  number :: u32
  in_data :: addr
  in_size :: u32
  out_data :: addr
  out_size :: u32

record ('e, 's) kenv =
  events :: "'e kevent_api"
  cur_process :: addr                              \<comment> \<open>\<open>IoGetCurrentProcess\<close>\<close>
  cur_process_id :: handle                         \<comment> \<open>\<open>PsGetCurrentProcessId\<close>\<close>
  cur_thread_id :: handle                          \<comment> \<open>\<open>PsGetCurrentThreadId\<close>\<close>
  from_user :: bool                                \<comment> \<open>\<open>ExGetPreviousMode() == UserMode\<close>\<close>
  lookup_process :: "handle \<Rightarrow> ntstatus \<times> addr"     \<comment> \<open>\<open>PsLookupProcessByProcessId\<close>\<close>
  ref_process :: "handle \<Rightarrow> ntstatus \<times> addr"        \<comment> \<open>\<open>ObReferenceObjectByHandle\<close>, a process\<close>
  ref_thread :: "handle \<Rightarrow> ntstatus \<times> addr"         \<comment> \<open>\<open>ObReferenceObjectByHandle\<close>, a thread\<close>
  ob_open :: "addr \<Rightarrow> ntstatus \<times> handle"            \<comment> \<open>\<open>ObOpenObjectByPointer\<close>\<close>
  id_of_process :: "addr \<Rightarrow> handle"                \<comment> \<open>\<open>PsGetProcessId\<close>\<close>
  id_of_thread :: "addr \<Rightarrow> handle"                 \<comment> \<open>\<open>PsGetThreadId\<close>\<close>
  process_of_thread :: "addr \<Rightarrow> addr"              \<comment> \<open>\<open>IoThreadToProcess\<close>\<close>
  system_thread :: "ntstatus \<times> handle"             \<comment> \<open>\<open>PsCreateSystemThread\<close>\<close>
  thread_info :: "handle \<Rightarrow> u32 \<times> u32"             \<comment> \<open>\<open>UniqueThread\<close> and \<open>TebBaseAddress\<close>\<close>
  readable :: "addr \<Rightarrow> nat \<Rightarrow> bool"                \<comment> \<open>a read of user memory does not raise\<close>
  stack :: "u8 list"                               \<comment> \<open>what an uninitialised \<open>dbg_msg\<close> variable holds\<close>
  block_junk :: "addr \<Rightarrow> u8 list"                  \<comment> \<open>what a fresh pool block holds\<close>
  terminate :: "handle \<Rightarrow> ntstatus \<Rightarrow> 's \<Rightarrow> ntstatus \<times> 's"   \<comment> \<open>\<open>NtTerminateProcess\<close>, hooked\<close>
  old_terminate :: "handle \<Rightarrow> ntstatus \<Rightarrow> 's \<Rightarrow> ntstatus \<times> 's"   \<comment> \<open>\<open>OldNtTerminateProcess\<close>\<close>
  old_term_thread :: "handle \<Rightarrow> ntstatus \<Rightarrow> 's \<Rightarrow> ntstatus \<times> 's" \<comment> \<open>\<open>OldNtTerminateThread\<close>\<close>
  old_create :: "bool \<Rightarrow> 's \<Rightarrow> ntstatus \<times> 's"  \<comment> \<open>\<open>OldNtCreateThread\<close>, by \<open>CreateSuspended\<close>\<close>
  send_wait :: "addr \<Rightarrow> u8 list \<Rightarrow> 's \<Rightarrow> (u32 \<times> u8 list) \<times> 's" \<comment> \<open>\<open>channel_send_recv\<close>: \<open>succs\<close>, reply\<close>
  take_msg :: "addr \<Rightarrow> 's \<Rightarrow> (u32 \<times> u8 list) \<times> 's"            \<comment> \<open>\<open>channel_recv\<close>: \<open>succs\<close>, message\<close>
  answer :: "addr \<Rightarrow> addr \<Rightarrow> 's \<Rightarrow> u32 \<times> 's"                   \<comment> \<open>\<open>channel_send\<close>, with the buffer\<close>

section \<open>Memory and objects\<close>

text \<open>Reads and writes through a buffer pointer of the call; \<open>NULL\<close> faults.\<close>

definition read32 :: "addr \<Rightarrow> ('z kstate_scheme, u32) op" where
  "read32 p s = (if p = NULL then Inl Null_Deref else Inr (rd32 (kmem s) p, s))"

definition write32 :: "addr \<Rightarrow> u32 \<Rightarrow> ('z kstate_scheme, unit) op" where
  "write32 p v s = (if p = NULL then Inl Null_Deref else Inr ((), set_mem (wr32 (kmem s) p v) s))"

definition read_block :: "addr \<Rightarrow> nat \<Rightarrow> ('z kstate_scheme, u8 list) op" where
  "read_block p n s = (if p = NULL \<and> n \<noteq> 0 then Inl Null_Deref else Inr (load (kmem s) p n, s))"

definition write_block :: "addr \<Rightarrow> u8 list \<Rightarrow> ('z kstate_scheme, unit) op" where
  "write_block p bs s = (if p = NULL then Inl Null_Deref else Inr ((), set_mem (store (kmem s) p bs) s))"

text \<open>A lookup that takes a reference when it succeeds; giving it back.\<close>

definition take_object :: "ntstatus \<times> addr \<Rightarrow> ('z kstate_scheme, ntstatus \<times> addr) op" where
  "take_object r s = (case r of (st, obj) \<Rightarrow>
     if NT_SUCCESS st then Inr ((st, obj), log_call (ObRef obj) s) else Inr ((st, NULL), s))"

definition drop_object :: "addr \<Rightarrow> ('z kstate_scheme, unit) op" where
  "drop_object obj = doing (log_call (ObDeref obj))"

section \<open>dbg_open_process and dbg_terminate_process\<close>

definition dbg_open_process :: "('e, ('e, 'z) drv_state_scheme) kenv \<Rightarrow> syscall \<Rightarrow> (('e, 'z) drv_state_scheme, u32) op" where
  "dbg_open_process E d =
     (if in_size d = 4 \<and> out_size d = 4 then
        and_then (read32 (in_data d)) (\<lambda>pid.
        and_then (take_object (lookup_process E pid)) (\<lambda>(st, process).
          if NT_SUCCESS st then
            and_then (use_var (open_process_by_ptr (ob_open E) process)) (\<lambda>h_proc.
            and_then (if h_proc \<noteq> NULL then and_then (write32 (out_data d) h_proc) (\<lambda>_. ret 1) else ret 0) (\<lambda>succs.
            and_then (drop_object process) (\<lambda>_. ret succs)))
          else ret 0))
      else ret 0)"

text \<open>The event of a terminated process, in a fresh \<open>term_event\<close> block.\<close>

definition sizeof_term_event :: u32 where
  "sizeof_term_event = 740"

definition terminated_msg :: "('e, 's) kenv \<Rightarrow> u8 list \<Rightarrow> addr \<Rightarrow> ntstatus \<Rightarrow> u8 list" where
  "terminated_msg E before process exit_code =
     msg_bytes before \<lparr>process_id = cur_process_id E, thread_id = cur_thread_id E,
       event_code = DBG_TERMINATED, event = Terminated (id_of_process E process) exit_code\<rparr>"

text \<open>
  The loop over the processes debugged by the terminated one. It goes on while one is found, so
  whether it ends depends on what \<open>NtTerminateProcess\<close> does: \<open>None\<close> is a loop without end.
\<close>

definition terminate_one :: "('e, ('e, 'z) drv_state_scheme) kenv \<Rightarrow> addr \<Rightarrow> (('e, 'z) drv_state_scheme, unit) op" where
  "terminate_one E debug =
     and_then (the_item debug) (\<lambda>i.
     and_then (use_var (open_process_by_ptr (ob_open E) (debugged i))) (\<lambda>h_proc.
     and_then (if h_proc \<noteq> NULL
               then doing (\<lambda>s. log_call (CloseHandle h_proc)
                      (snd (terminate E h_proc STATUS_SUCCESS (log_call (TerminateProcess h_proc STATUS_SUCCESS) s))))
               else ret ()) (\<lambda>_.
     and_then (dbg_delete_item (events E) debug) (\<lambda>_.
     dbg_deref_item debug))))"

partial_function (option) terminate_loop ::
  "('e, ('e, 'z) drv_state_scheme) kenv \<Rightarrow> addr \<Rightarrow> ('e, 'z) drv_state_scheme
   \<Rightarrow> (fault + unit \<times> ('e, 'z) drv_state_scheme) option" where
  "terminate_loop E process s =
     (case dbg_find_item process NULL s of
        Inl e \<Rightarrow> Some (Inl e)
      | Inr (debug, s) \<Rightarrow>
          if debug = NULL then Some (Inr ((), s))
          else case terminate_one E debug s of
                 Inl e \<Rightarrow> Some (Inl e)
               | Inr (u, s) \<Rightarrow> terminate_loop E process s)"

declare terminate_loop.simps [code]

text \<open>The second half: the event for the debugger of the terminated process.\<close>

definition post_terminated :: "('e, ('e, 'z) drv_state_scheme) kenv \<Rightarrow> addr \<Rightarrow> ntstatus \<Rightarrow> (('e, 'z) drv_state_scheme, unit) op" where
  "post_terminated E process exit_code =
     and_then (dbg_find_item NULL process) (\<lambda>debug.
       if debug = NULL then ret ()
       else
         and_then (the_item debug) (\<lambda>i.
           if event_mask (item_filter i) AND DBG_TERMINATED = 0 then dbg_deref_item debug
           else
             and_then (\<lambda>s. Inr (mem_alloc sizeof_term_event s)) (\<lambda>t_event.
               if t_event = NULL then dbg_deref_item debug
               else
                 and_then (doing (\<lambda>s. s\<lparr>term_events := (term_events s)(t_event \<mapsto>
                     (debug, terminated_msg E (take sizeof_dbg_msg (drop 4 (block_junk E t_event))) process exit_code))\<rparr>)) (\<lambda>_.
                 and_then (\<lambda>s. Inr (case system_thread E of (st, h) \<Rightarrow> start_system_thread st h t_event s)) (\<lambda>started.
                 and_then (use_var started) (\<lambda>succs.
                   if succs = 0
                   then and_then (doing (\<lambda>s. mem_free t_event (s\<lparr>term_events := (term_events s)(t_event := None)\<rparr>)))
                          (\<lambda>_. dbg_deref_item debug)
                   else ret ()))))))"

text \<open>Operations that may run forever, and the steps of one that do not.\<close>

type_synonym ('s, 'a) lop = "'s \<Rightarrow> (fault + 'a \<times> 's) option"

definition run_op :: "('s, 'a) op \<Rightarrow> ('s, 'a) lop" where
  "run_op f s = Some (f s)"

definition followed_by :: "('s, 'a) lop \<Rightarrow> ('a \<Rightarrow> ('s, 'b) lop) \<Rightarrow> ('s, 'b) lop" where
  "followed_by f g s =
     (case f s of None \<Rightarrow> None | Some (Inl e) \<Rightarrow> Some (Inl e) | Some (Inr (v, t)) \<Rightarrow> g v t)"

definition dbg_process_terminated :: "('e, ('e, 'z) drv_state_scheme) kenv \<Rightarrow> addr \<Rightarrow> ntstatus
    \<Rightarrow> (('e, 'z) drv_state_scheme, unit) lop" where
  "dbg_process_terminated E process exit_code =
     followed_by (terminate_loop E process) (\<lambda>_. run_op (post_terminated E process exit_code))"

text \<open>The one value read from the buffer is looked up as an id and then used as a handle.\<close>

definition nt_terminate :: "('e, ('e, 'z) drv_state_scheme) kenv \<Rightarrow> handle \<Rightarrow> ntstatus \<Rightarrow> (('e, 'z) drv_state_scheme, ntstatus) op" where
  "nt_terminate E h st s = Inr (terminate E h st (log_call (TerminateProcess h st) s))"

definition dbg_terminate_process :: "('e, ('e, 'z) drv_state_scheme) kenv \<Rightarrow> syscall \<Rightarrow> (('e, 'z) drv_state_scheme, u32) lop" where
  "dbg_terminate_process E d =
     (if in_size d = 4 then
        followed_by (run_op (read32 (in_data d))) (\<lambda>h_proc.
        followed_by (run_op (take_object (lookup_process E h_proc))) (\<lambda>(st, process).
        followed_by (if NT_SUCCESS st
                     then followed_by (dbg_process_terminated E process STATUS_SUCCESS)
                            (\<lambda>_. run_op (drop_object process))
                     else run_op (ret ())) (\<lambda>_.
        followed_by (run_op (nt_terminate E h_proc STATUS_SUCCESS)) (\<lambda>st.
        run_op (ret (if NT_SUCCESS st then 1 else 0))))))
      else run_op (ret 0))"

section \<open>dbg_attach_call\<close>

text \<open>
  The body of the \<open>do ... while (0)\<close>, with the values of \<open>succs\<close>, \<open>debug\<close>, \<open>process\<close> and \<open>chan\<close> when it
  is left; \<open>chan\<close> is not set before \<open>channel_alloc\<close>.
\<close>

definition attach_body :: "('e, ('e, 'z) drv_state_scheme) kenv \<Rightarrow> syscall
    \<Rightarrow> (('e, 'z) drv_state_scheme, u32 \<times> addr \<times> addr \<times> addr option) op" where
  "attach_body E d =
     (if in_size d \<noteq> 4 then ret (0, NULL, NULL, None)
      else and_then (read32 (in_data d)) (\<lambda>pid.
        and_then (take_object (lookup_process E pid)) (\<lambda>(st, process).
          if \<not> NT_SUCCESS st then ret (0, NULL, NULL, None)
          else if process = cur_process E then ret (0, NULL, process, None)
          else and_then (dbg_find_item NULL process) (\<lambda>debug.
            if debug \<noteq> NULL then ret (0, debug, process, None)
            else and_then (channel_alloc (events E) (block_junk E) (word_of_nat sizeof_dbg_msg) (word_of_nat sizeof_cont_dat)) (\<lambda>chan.
              if chan = NULL then ret (0, NULL, process, Some chan)
              else and_then (dbg_new_item (cur_process E) process) (\<lambda>debug.
                if debug = NULL then ret (0, NULL, process, Some chan)
                else and_then (the_item debug) (\<lambda>i.
                  and_then (doing (set_item debug (i\<lparr>item_chan := chan, active := 1\<rparr>))) (\<lambda>_.
                  ret (1, debug, process, Some chan)))))))))"

definition dbg_attach_call :: "('e, ('e, 'z) drv_state_scheme) kenv \<Rightarrow> syscall \<Rightarrow> (('e, 'z) drv_state_scheme, u32) op" where
  "dbg_attach_call E d =
     and_then (attach_body E d) (\<lambda>(succs, debug, process, chan).
     and_then (if debug \<noteq> NULL then dbg_deref_item debug else ret ()) (\<lambda>_.
     and_then (if process \<noteq> NULL then drop_object process else ret ()) (\<lambda>_.
     and_then (if succs = 0
               then and_then (use_var chan) (\<lambda>chan. if chan \<noteq> NULL then channel_free chan else ret ())
               else ret ()) (\<lambda>_.
     ret succs))))"

section \<open>dbg_set_filter, dbg_get_message and dbg_countinue\<close>

text \<open>
  The three handlers have the same frame: look up the process, find the item the caller has for
  it, do the work, and give back what was taken.
\<close>

definition find_mine :: "('e, ('e, 'z) drv_state_scheme) kenv \<Rightarrow> handle \<Rightarrow> (('e, 'z) drv_state_scheme, addr \<times> addr) op" where
  "find_mine E pid =
     and_then (take_object (lookup_process E pid)) (\<lambda>(st, process).
       if \<not> NT_SUCCESS st then ret (NULL, NULL)
       else and_then (dbg_find_item (cur_process E) process) (\<lambda>debug. ret (process, debug)))"

definition dbg_set_filter :: "('e, ('e, 'z) drv_state_scheme) kenv \<Rightarrow> syscall \<Rightarrow> (('e, 'z) drv_state_scheme, u32) op" where
  "dbg_set_filter E d =
     (if in_size d \<noteq> word_of_nat sizeof_set_filter_data then ret 0
      else and_then (read32 (in_data d)) (\<lambda>pid.
        and_then (find_mine E pid) (\<lambda>(process, debug).
        and_then (if debug = NULL then ret 0
                  else and_then (the_item debug) (\<lambda>i.
                       and_then (read_block (in_data d + 4) sizeof_event_filt) (\<lambda>bs.
                       and_then (doing (set_item debug (i\<lparr>item_filter := read_filter bs\<rparr>))) (\<lambda>_. ret 1)))) (\<lambda>succs.
        and_then (if debug \<noteq> NULL then dbg_deref_item debug else ret ()) (\<lambda>_.
        and_then (if process \<noteq> NULL then drop_object process else ret ()) (\<lambda>_.
        ret succs))))))"

definition dbg_get_message :: "('e, ('e, 'z) drv_state_scheme) kenv \<Rightarrow> syscall \<Rightarrow> (('e, 'z) drv_state_scheme, u32) op" where
  "dbg_get_message E d =
     (if in_size d \<noteq> 4 \<or> out_size d \<noteq> word_of_nat sizeof_dbg_msg then ret 0
      else and_then (read32 (in_data d)) (\<lambda>pid.
        and_then (find_mine E pid) (\<lambda>(process, debug).
        and_then (if debug = NULL then ret 0
                  else and_then (the_item debug) (\<lambda>i.
                       and_then (the_chan (item_chan i)) (\<lambda>_.
                       and_then (\<lambda>s. Inr (take_msg E (item_chan i) s)) (\<lambda>(succs, msg).
                       if succs \<noteq> 0 then and_then (write_block (out_data d) msg) (\<lambda>_. ret succs) else ret succs)))) (\<lambda>succs.
        and_then (if process \<noteq> NULL then drop_object process else ret ()) (\<lambda>_.
        and_then (if debug \<noteq> NULL then dbg_deref_item debug else ret ()) (\<lambda>_.
        ret succs))))))"

definition dbg_countinue :: "('e, ('e, 'z) drv_state_scheme) kenv \<Rightarrow> syscall \<Rightarrow> (('e, 'z) drv_state_scheme, u32) op" where
  "dbg_countinue E d =
     (if in_size d \<noteq> word_of_nat sizeof_cont_dat then ret 0
      else and_then (read32 (in_data d)) (\<lambda>pid.
        and_then (find_mine E pid) (\<lambda>(process, debug).
        and_then (if debug = NULL then ret 0
                  else and_then (the_item debug) (\<lambda>i.
                       and_then (the_chan (item_chan i)) (\<lambda>_.
                       \<lambda>s. Inr (answer E (item_chan i) (in_data d) s)))) (\<lambda>succs.
        and_then (if process \<noteq> NULL then drop_object process else ret ()) (\<lambda>_.
        and_then (if debug \<noteq> NULL then dbg_deref_item debug else ret ()) (\<lambda>_.
        ret succs))))))"

end
