(* ===== verification/Debug_Hooks.thy ===== *)
theory Debug_Hooks
  imports Debug
begin

text \<open>
  The other half of \<open>src/kernel/sys/debug.c\<close>: what runs in the debugged process. The replacements
  of the kernel's functions for terminating processes, creating and terminating threads and
  dispatching exceptions, and the routine the kernel calls for a loaded image, turn what happens
  into an event for the debugger; a system thread sends the event of a terminated process.
\<close>

section \<open>Events\<close>

text \<open>\<open>channel_send_recv\<close> on the channel of an item.\<close>

definition send_event_of :: "('e, ('e, 'z) drv_state_scheme) kenv \<Rightarrow> addr \<Rightarrow> u8 list \<Rightarrow> (('e, 'z) drv_state_scheme, u32 \<times> u8 list) op" where
  "send_event_of E debug msg =
     and_then (the_item debug) (\<lambda>i.
     and_then (the_chan (item_chan i)) (\<lambda>_.
     \<lambda>s. Inr (send_wait E (item_chan i) msg s)))"

definition msg_from_here :: "('e, 's) kenv \<Rightarrow> u32 \<Rightarrow> dbg_event \<Rightarrow> dbg_msg" where
  "msg_from_here E code e =
     \<lparr>process_id = cur_process_id E, thread_id = cur_thread_id E, event_code = code, event = e\<rparr>"

text \<open>
  \<open>find_event_item E debgd code\<close>: the item for the debugged process if its filter asks for events
  of the kind \<open>code\<close>. The first component is the item that was found, which the caller gives back
  in any case, the second whether an event is to be sent.
\<close>

definition find_event_item :: "addr \<Rightarrow> u32 \<Rightarrow> (('e, 'z) drv_state_scheme, addr \<times> bool) op" where
  "find_event_item process code =
     and_then (dbg_find_item NULL process) (\<lambda>debug.
       if debug = NULL then ret (NULL, False)
       else and_then (the_item debug) (\<lambda>i. ret (debug, event_mask (item_filter i) AND code \<noteq> 0)))"

text \<open>
  The pattern of the hooks: find the item, send the event if it is wanted, and return the item for
  the caller to give back.
\<close>

definition report_event :: "addr \<Rightarrow> u32 \<Rightarrow> (addr \<Rightarrow> (('e, 'z) drv_state_scheme, unit) op) \<Rightarrow> (('e, 'z) drv_state_scheme, addr) op" where
  "report_event process code send =
     and_then (find_event_item process code) (\<lambda>(debug, wanted).
     and_then (if wanted then send debug else ret ()) (\<lambda>_. ret debug))"

definition give_back :: "addr \<Rightarrow> (('e, 'z) drv_state_scheme, unit) op" where
  "give_back debug = (if debug \<noteq> NULL then dbg_deref_item debug else ret ())"

section \<open>Termination of a process\<close>

text \<open>The block of the delayed event, by the pointer the thread was started with.\<close>

definition the_event :: "addr \<Rightarrow> (('e, 'z) drv_state_scheme, addr \<times> u8 list) op" where
  "the_event a s =
     (case term_events s a of None \<Rightarrow> Inl (Use_After_Free a) | Some e \<Rightarrow> Inr (e, s))"

definition dbg_delayed_term_event :: "('e, ('e, 'z) drv_state_scheme) kenv \<Rightarrow> addr \<Rightarrow> (('e, 'z) drv_state_scheme, unit) op" where
  "dbg_delayed_term_event E t_event =
     and_then (the_event t_event) (\<lambda>(debug, msg).
     and_then (send_event_of E debug msg) (\<lambda>_.
     and_then (the_event t_event) (\<lambda>(debug, msg).
     and_then (dbg_delete_item (events E) debug) (\<lambda>_.
     and_then (dbg_deref_item debug) (\<lambda>_.
     doing (\<lambda>s. mem_free t_event (s\<lparr>term_events := (term_events s)(t_event := None)\<rparr>)))))))"

abbreviation (input) NtCurrentProcess :: handle where "NtCurrentProcess \<equiv> 0xFFFFFFFF"
abbreviation (input) NtCurrentThread :: handle where "NtCurrentThread \<equiv> 0xFFFFFFFE"

definition NewNtTerminateProcess :: "('e, ('e, 'z) drv_state_scheme) kenv \<Rightarrow> handle \<Rightarrow> ntstatus
    \<Rightarrow> (('e, 'z) drv_state_scheme, ntstatus) lop" where
  "NewNtTerminateProcess E h_process exit_status =
     (let h_proc = (if h_process = NULL then NtCurrentProcess else h_process) in
      followed_by (if from_user E
                   then followed_by (run_op (take_object (ref_process E h_proc))) (\<lambda>(st, process).
                          if NT_SUCCESS st
                          then followed_by (dbg_process_terminated E process exit_status)
                                 (\<lambda>_. run_op (drop_object process))
                          else run_op (ret ()))
                   else run_op (ret ())) (\<lambda>_.
      run_op (\<lambda>s. Inr (old_terminate E h_proc exit_status (log_call (OldTerminateProcess h_proc exit_status) s)))))"

section \<open>Threads\<close>

text \<open>A read of user memory inside \<open>__try\<close>: \<open>None\<close> is the exception.\<close>

definition guarded_read :: "('e, 's) kenv \<Rightarrow> addr \<Rightarrow> nat \<Rightarrow> ('z kstate_scheme, u8 list option) op" where
  "guarded_read E p n s = Inr (if readable E p n then Some (load (kmem s) p n) else None, s)"

text \<open>The event of a new thread, unless its context cannot be read.\<close>

definition create_event :: "('e, ('e, 'z) drv_state_scheme) kenv \<Rightarrow> handle \<Rightarrow> addr \<Rightarrow> addr \<Rightarrow> (('e, 'z) drv_state_scheme, unit) op" where
  "create_event E h_thread context debug =
     and_then (guarded_read E context sizeof_CONTEXT) (\<lambda>ctx. case ctx of
       None \<Rightarrow> ret ()
     | Some ctx \<Rightarrow>
         let (tid, teb) = thread_info E h_thread;
             msg = msg_from_here E DBG_START_THREAD (Thread_Start tid teb ctx)
         in and_then (send_event_of E debug (msg_bytes (replicate sizeof_dbg_msg 0) msg)) (\<lambda>_. ret ()))"

text \<open>
  The body of the \<open>do ... while (0)\<close>, with \<open>h_thread\<close>, \<open>process\<close> and \<open>debug\<close> when it is left.
\<close>

definition create_body :: "('e, ('e, 'z) drv_state_scheme) kenv \<Rightarrow> addr \<Rightarrow> handle \<Rightarrow> addr
    \<Rightarrow> (('e, 'z) drv_state_scheme, handle \<times> addr \<times> addr) op" where
  "create_body E p_thread h_process context =
     and_then (guarded_read E p_thread 4) (\<lambda>bs. case bs of
       None \<Rightarrow> ret (NULL, NULL, NULL)
     | Some bs \<Rightarrow>
         let h_thread = de32 bs in
         and_then (take_object (ref_process E h_process)) (\<lambda>(st, process).
         if \<not> NT_SUCCESS st then ret (h_thread, NULL, NULL)
         else and_then (report_event process DBG_START_THREAD (create_event E h_thread context))
                (\<lambda>debug. ret (h_thread, process, debug))))"

definition NewNtCreateThread :: "('e, ('e, 'z) drv_state_scheme) kenv \<Rightarrow> addr \<Rightarrow> handle \<Rightarrow> addr \<Rightarrow> bool
    \<Rightarrow> (('e, 'z) drv_state_scheme, ntstatus) op" where
  "NewNtCreateThread E p_thread h_process context suspended =
     and_then (\<lambda>s. Inr (old_create E True (log_call (OldCreateThread True) s))) (\<lambda>status.
       if NT_SUCCESS status
       then and_then (create_body E p_thread h_process context) (\<lambda>(h_thread, process, debug).
            and_then (if process \<noteq> NULL then drop_object process else ret ()) (\<lambda>_.
            and_then (give_back debug) (\<lambda>_.
            and_then (if h_thread \<noteq> NULL \<and> \<not> suspended then doing (log_call (ResumeThread h_thread)) else ret ()) (\<lambda>_.
            ret status))))
       else ret status)"

text \<open>
  \<open>thr_list->Flink->Flink == thr_list\<close>: the test for the last thread on the ring of a process's
  threads, read from the entry at \<open>thr_list\<close>.
\<close>

definition last_on_ring :: "mem \<Rightarrow> addr \<Rightarrow> bool" where
  "last_on_ring m thr_list \<longleftrightarrow> rd32 m (rd32 m thr_list) = thr_list"

definition exit_body :: "('e, ('e, 'z) drv_state_scheme) kenv \<Rightarrow> addr \<Rightarrow> ntstatus
    \<Rightarrow> (('e, 'z) drv_state_scheme, addr) op" where
  "exit_body E thr exit_status =
     (let process = process_of_thread E thr;
          msg = msg_from_here E DBG_EXIT_THREAD
            (Thread_Exit (id_of_thread E thr) (id_of_process E process) exit_status)
      in report_event process DBG_EXIT_THREAD
           (\<lambda>debug. and_then (send_event_of E debug (msg_bytes (stack E) msg)) (\<lambda>_. ret ())))"

definition NewNtTerminateThread :: "('e, ('e, 'z) drv_state_scheme) kenv \<Rightarrow> handle \<Rightarrow> ntstatus
    \<Rightarrow> (('e, 'z) drv_state_scheme, ntstatus) lop" where
  "NewNtTerminateThread E h exit_status =
     (let h_thread = (if h = NULL then NtCurrentThread else h) in
      followed_by (run_op (take_object (ref_thread E h_thread))) (\<lambda>(st, thr).
      followed_by (if NT_SUCCESS st then run_op (exit_body E thr exit_status) else run_op (ret NULL)) (\<lambda>debug.
      followed_by (if thr \<noteq> NULL
                   then followed_by
                          (\<lambda>s. if last_on_ring (kmem s) (thr + thread_enth_offs s)
                               then dbg_process_terminated E (process_of_thread E thr) exit_status s
                               else Some (Inr ((), s)))
                          (\<lambda>_. run_op (drop_object thr))
                   else run_op (ret ())) (\<lambda>_.
      followed_by (run_op (give_back debug)) (\<lambda>_.
      run_op (\<lambda>s. Inr (old_term_thread E h_thread exit_status (log_call (OldTerminateThread h_thread exit_status) s))))))))"

section \<open>Exceptions\<close>

text \<open>
  The loop over the exception filters: the index at which it is left. Reading past the array of
  \<open>FILTER_MAX\<close> filters is a fault.
\<close>

function filter_scan :: "u32 \<Rightarrow> event_filt \<Rightarrow> u32 \<Rightarrow> fault + u32" where
  "filter_scan code f i =
     (if i < filtr_count f
      then if FILTER_MAX \<le> unat i then Inl Out_Of_Bounds
           else let x = filters f ! unat i in
                if filtr_from x \<le> code \<and> code \<le> filtr_to x then Inr i
                else filter_scan code f (i + 1)
      else Inr i)"
  by auto
termination
proof (relation "measure (\<lambda>(code, f, i). unat (filtr_count f) - unat i)")
  fix i :: u32 and f :: event_filt
  assume "i < filtr_count f"
  then have lt: "unat i < unat (filtr_count f)" by (simp add: word_less_nat_alt)
  moreover have "unat (filtr_count f) < 2 ^ 32" using unsigned_less [of "filtr_count f"] by simp
  then have "unat (i + 1) = Suc (unat i)" using lt by (subst unat_add_small) simp_all
  ultimately show "((code, f, i + 1), code, f, i) \<in> measure (\<lambda>(code, f, i). unat (filtr_count f) - unat i)" for code
    by simp
qed simp

declare filter_scan.simps [simp del]

text \<open>The event of an exception and what its reply asks for.\<close>

definition exception_reply :: "addr \<Rightarrow> u32 \<times> u8 list \<Rightarrow> (('e, 'z) drv_state_scheme, u32) op" where
  "exception_reply except_record answer_of =
     (let (succs, reply) = answer_of; cont = read_cont reply in
      if succs = 0 then ret 0
      else and_then (if status cont AND RES_CORRECT_FRAME \<noteq> 0
                     then write_block except_record (new_record cont) else ret ()) (\<lambda>_.
           ret (if status cont AND RES_CONTINUE \<noteq> 0 then 1 else 0)))"

definition exception_event :: "('e, ('e, 'z) drv_state_scheme) kenv \<Rightarrow> addr \<Rightarrow> u8 \<Rightarrow> addr
    \<Rightarrow> (('e, 'z) drv_state_scheme, u32) op" where
  "exception_event E except_record first_chance debug =
     and_then (read_block except_record sizeof_EXCEPTION_RECORD) (\<lambda>rec.
     and_then (send_event_of E debug
                (msg_bytes (stack E) (msg_from_here E DBG_EXCEPTION (Exception_Raised rec first_chance))))
       (exception_reply except_record))"

definition dbg_process_exception :: "('e, ('e, 'z) drv_state_scheme) kenv \<Rightarrow> addr \<Rightarrow> u8
    \<Rightarrow> (('e, 'z) drv_state_scheme, u32) op" where
  "dbg_process_exception E except_record first_chance =
     and_then (read32 except_record) (\<lambda>code.
     and_then (find_event_item (cur_process E) DBG_EXCEPTION) (\<lambda>(debug, wanted).
     and_then (if \<not> wanted then ret 0
               else and_then (the_item debug) (\<lambda>i.
                    and_then (\<lambda>s. case filter_scan code (item_filter i) 0 of Inl e \<Rightarrow> Inl e | Inr _ \<Rightarrow> Inr ((), s)) (\<lambda>_.
                    exception_event E except_record first_chance debug))) (\<lambda>handled.
     and_then (give_back debug) (\<lambda>_.
     ret handled))))"

definition NewKiDispatchException :: "('e, ('e, 'z) drv_state_scheme) kenv \<Rightarrow> addr \<Rightarrow> bool \<Rightarrow> u8
    \<Rightarrow> (('e, 'z) drv_state_scheme, unit) op" where
  "NewKiDispatchException E except_record user_mode first_chance =
     and_then (if user_mode then dbg_process_exception E except_record first_chance else ret 0) (\<lambda>handled.
       if handled \<noteq> 0 then ret () else doing (log_call OldDispatchException))"

section \<open>Loaded images\<close>

record unicode_string =
  us_length :: u16
  us_buffer :: addr

record image_info =
  image_base :: addr
  image_size :: u32

text \<open>
  \<open>status\<close> is the truth value of \<open>PsLookupProcessByProcessId(...) != STATUS_SUCCESS\<close>, which counts as
  a success whatever it is; when the lookup has failed \<open>dbgd\<close> was never set.
\<close>

definition load_event :: "('e, ('e, 'z) drv_state_scheme) kenv \<Rightarrow> unicode_string \<Rightarrow> handle \<Rightarrow> image_info \<Rightarrow> addr
    \<Rightarrow> (('e, 'z) drv_state_scheme, unit) op" where
  "load_event E name pid img debug =
     (let n = (if dll_name_bytes < unat (us_length name) then dll_name_bytes else unat (us_length name)) in
      and_then (read_block (us_buffer name) n) (\<lambda>bs.
      let msg = \<lparr>process_id = pid, thread_id = cur_thread_id E, event_code = DBG_LOAD_DLL,
            event = Dll_Load (image_base img) (image_size img) (bs @ replicate (dll_name_bytes - n) 0)\<rparr>
      in and_then (send_event_of E debug (msg_bytes (stack E) msg)) (\<lambda>_. ret ())))"

definition load_image_notify_routine :: "('e, ('e, 'z) drv_state_scheme) kenv \<Rightarrow> unicode_string \<Rightarrow> handle \<Rightarrow> image_info
    \<Rightarrow> (('e, 'z) drv_state_scheme, unit) op" where
  "load_image_notify_routine E name pid img =
     and_then (take_object (lookup_process E pid)) (\<lambda>(st, obj).
     let status = (if st \<noteq> STATUS_SUCCESS then 1 else 0 :: ntstatus);
         dbgd = (if NT_SUCCESS st then Some obj else None)
     in
     and_then (if \<not> NT_SUCCESS status then ret NULL
               else and_then (use_var dbgd) (\<lambda>dbgd. report_event dbgd DBG_LOAD_DLL (load_event E name pid img))) (\<lambda>debug.
     give_back debug))"

end
