(* ===== verification/Dbg_Item_Facts.thy ===== *)
theory Dbg_Item_Facts
  imports Dbg_Item Interfaces Hook_Facts
begin

text \<open>
  The registry keeps its invariant, its operations do to the list of debug relations what their
  names say, and no operation faults while every holder gives back exactly the references it
  has. The registry provides the interface \<open>item_registry\<close>.
\<close>

section \<open>Invariant\<close>

definition item_refs :: "('e, 'z) dstate_scheme \<Rightarrow> addr \<Rightarrow> nat" where
  "item_refs s a = (case items s a of None \<Rightarrow> 0 | Some i \<Rightarrow> unat (ref_count i))"

text \<open>
  The list holds the live items, each once; every item has a reference and its own channel.
\<close>

definition items_ok :: "('e, 'z) dstate_scheme \<Rightarrow> bool" where
  "items_ok s \<longleftrightarrow> distinct (dbg_item_list s) \<and> set (dbg_item_list s) = dom (items s)
     \<and> items s NULL = None
     \<and> (\<forall>a i. items s a = Some i \<longrightarrow> ref_count i \<noteq> 0 \<and> item_chan i \<noteq> NULL \<and> chans s (item_chan i) \<noteq> None)
     \<and> (\<forall>a b i j. items s a = Some i \<and> items s b = Some j \<and> item_chan i = item_chan j \<longrightarrow> a = b)"

definition relation_of :: "(addr \<rightharpoonup> dbg_item) \<Rightarrow> addr \<Rightarrow> addr \<times> addr \<times> addr" where
  "relation_of its a = (a, debugger (the (its a)), debugged (the (its a)))"

definition relations :: "('e, 'z) dstate_scheme \<Rightarrow> (addr \<times> addr \<times> addr) list" where
  "relations s = map (relation_of (items s)) [a \<leftarrow> dbg_item_list s. active (the (items s a)) \<noteq> 0]"

lemma dstate_log_simps [kernel_simps]:
  "items (log_call c s) = items s" "chans (log_call c s) = chans s" "dbg_item_list (log_call c s) = dbg_item_list s"
  "items (mem_free p s) = items s" "chans (mem_free p s) = chans s" "dbg_item_list (mem_free p s) = dbg_item_list s"
  by (simp_all add: log_call_def mem_free_def)

lemma items_ok_log [simp]: "items_ok (log_call c s) = items_ok s" "items_ok (mem_free p s) = items_ok s"
  by (simp_all add: items_ok_def kernel_simps)

lemma refs_log [simp]: "item_refs (log_call c s) = item_refs s" "item_refs (mem_free p s) = item_refs s"
  by (simp_all add: item_refs_def kernel_simps fun_eq_iff)

lemma relations_log [simp]: "relations (log_call c s) = relations s" "relations (mem_free p s) = relations s"
  by (simp_all add: relations_def kernel_simps)

lemma items_okD:
  assumes "items_ok s" and "items s a = Some i"
  shows "a \<noteq> NULL" "ref_count i \<noteq> 0" "item_chan i \<noteq> NULL" "chans s (item_chan i) \<noteq> None" "a \<in> set (dbg_item_list s)"
  using assms by (auto simp: items_ok_def)

text \<open>Changing the count, the filter or the activity of an item keeps the invariant.\<close>

lemma set_item_simps [kernel_simps]:
  "items (set_item a j s) = (items s)(a \<mapsto> j)" "chans (set_item a j s) = chans s"
  "dbg_item_list (set_item a j s) = dbg_item_list s"
  by (simp_all add: set_item_def)

lemma items_okI:
  assumes "distinct (dbg_item_list s)" and "set (dbg_item_list s) = dom (items s)" and "items s NULL = None"
    and "\<And>a i. items s a = Some i \<Longrightarrow> ref_count i \<noteq> 0 \<and> item_chan i \<noteq> NULL \<and> chans s (item_chan i) \<noteq> None"
    and "\<And>a b i j. items s a = Some i \<Longrightarrow> items s b = Some j \<Longrightarrow> item_chan i = item_chan j \<Longrightarrow> a = b"
  shows "items_ok s"
  using assms unfolding items_ok_def by blast

lemma items_okE:
  assumes "items_ok s"
  shows "distinct (dbg_item_list s)" and "set (dbg_item_list s) = dom (items s)" and "items s NULL = None"
    and "\<And>a i. items s a = Some i \<Longrightarrow> ref_count i \<noteq> 0 \<and> item_chan i \<noteq> NULL \<and> chans s (item_chan i) \<noteq> None"
    and "\<And>a b i j. items s a = Some i \<Longrightarrow> items s b = Some j \<Longrightarrow> item_chan i = item_chan j \<Longrightarrow> a = b"
  using assms unfolding items_ok_def by blast+

lemma items_ok_set:
  assumes "items_ok s" and "items s a = Some i" and "ref_count j \<noteq> 0" and "item_chan j = item_chan i"
  shows "items_ok (set_item a j s)"
proof (rule items_okI)
  note ok = items_okE [OF assms(1)]
  show "distinct (dbg_item_list (set_item a j s))" using ok(1) by (simp add: kernel_simps)
  show "set (dbg_item_list (set_item a j s)) = dom (items (set_item a j s))"
    using ok(2) assms(2) by (auto simp: kernel_simps)
  show "items (set_item a j s) NULL = None" using ok(3) assms(2) by (auto simp: kernel_simps)
  show "ref_count k \<noteq> 0 \<and> item_chan k \<noteq> NULL \<and> chans (set_item a j s) (item_chan k) \<noteq> None"
    if "items (set_item a j s) b = Some k" for b k
    using that ok(4) [of b k] ok(4) [OF assms(2)] assms(3,4) by (cases "b = a") (auto simp: kernel_simps)
  have old: "\<exists>k'. items s b = Some k' \<and> item_chan k' = item_chan k" if "items (set_item a j s) b = Some k" for b k
    using that assms(2,4) by (cases "b = a") (simp_all add: kernel_simps)
  show "b = c" if "items (set_item a j s) b = Some k" "items (set_item a j s) c = Some l"
    "item_chan k = item_chan l" for b c k l
    using old [OF that(1)] old [OF that(2)] that(3) ok(5) by force
qed

lemma relations_set:
  assumes "items s a = Some i" and "debugger j = debugger i" "debugged j = debugged i"
    and "active j \<noteq> 0 \<longleftrightarrow> active i \<noteq> 0"
  shows "relations (set_item a j s) = relations s"
proof -
  have "relation_of ((items s)(a \<mapsto> j)) b = relation_of (items s) b" for b
    using assms by (simp add: relation_of_def)
  moreover have "active (the (((items s)(a \<mapsto> j)) b)) \<noteq> 0 \<longleftrightarrow> active (the (items s b)) \<noteq> 0" for b
    using assms by simp
  ultimately show ?thesis by (simp add: relations_def set_item_def)
qed

lemma refs_set: "item_refs (set_item a j s) = (item_refs s)(a := unat (ref_count j))"
  by (auto simp: item_refs_def set_item_def fun_eq_iff)

section \<open>Finding\<close>

lemma find_loop_find:
  "set as \<subseteq> dom its \<Longrightarrow> find_loop x y as its =
     Inr (case List.find (\<lambda>a. matches x y (the (its a))) as of None \<Rightarrow> NULL | Some a \<Rightarrow> a)"
  by (induction as) (auto split: option.splits)

text \<open>The search on the list of relations: the first match, in the order of the list.\<close>

definition relation_find :: "addr \<Rightarrow> addr \<Rightarrow> (addr \<times> addr \<times> addr) list \<Rightarrow> addr" where
  "relation_find x y rs =
     (case List.find (\<lambda>(a, x', y'). (x = NULL \<or> x' = x) \<and> (y = NULL \<or> y' = y)) rs of
        None \<Rightarrow> NULL | Some (a, x', y') \<Rightarrow> a)"

lemma relation_find_loop:
  assumes "items_ok s"
  shows "find_loop x y (dbg_item_list s) (items s) = Inr (relation_find x y (relations s))"
proof -
  have sub: "set (dbg_item_list s) \<subseteq> dom (items s)" using assms by (simp add: items_ok_def)
  have "(case List.find (\<lambda>a. matches x y (the (items s a))) as of None \<Rightarrow> NULL | Some a \<Rightarrow> a)
      = relation_find x y (map (relation_of (items s)) [a \<leftarrow> as. active (the (items s a)) \<noteq> 0])" for as
    by (induction as) (auto simp: relation_find_def relation_of_def matches_def split: option.splits)
  then show ?thesis using find_loop_find [OF sub] by (simp add: relations_def)
qed

lemma relation_find_in:
  "relation_find x y rs \<noteq> NULL \<Longrightarrow>
   \<exists>x' y'. (relation_find x y rs, x', y') \<in> set rs \<and> (x = NULL \<or> x' = x) \<and> (y = NULL \<or> y' = y)"
  by (induction rs) (fastforce simp: relation_find_def split: if_splits option.splits)+

lemma relation_find_none:
  assumes "relation_find x y rs = NULL" and "\<forall>(a, x', y') \<in> set rs. a \<noteq> NULL"
  shows "\<forall>(a, x', y') \<in> set rs. \<not> ((x = NULL \<or> x' = x) \<and> (y = NULL \<or> y' = y))"
  using assms
  by (induction rs) (auto simp: relation_find_def split: if_splits option.splits)

lemma relations_item:
  assumes "items_ok s" and "(a, x, y) \<in> set (relations s)"
  obtains i where "items s a = Some i" "debugger i = x" "debugged i = y" "active i \<noteq> 0"
  using assms by (auto simp: relations_def relation_of_def items_ok_def)

text \<open>The search as a whole: the first match, with one more reference.\<close>

lemma relations_nonnull: "items_ok s \<Longrightarrow> \<forall>(a, x, y) \<in> set (relations s). a \<noteq> NULL"
  by (auto simp: relations_def relation_of_def items_ok_def)

definition take_ref :: "addr \<Rightarrow> ('e, 'z) dstate_scheme \<Rightarrow> ('e, 'z) dstate_scheme" where
  "take_ref a s = (case items s a of None \<Rightarrow> s | Some i \<Rightarrow> set_item a (i\<lparr>ref_count := ref_count i + 1\<rparr>) s)"

lemma dbg_find_item_run:
  fixes x y :: addr
  assumes "items_ok s"
  defines "r \<equiv> relation_find x y (relations s)"
  shows "dbg_find_item x y s = Inr (r, log_call SpinRelease (take_ref r (log_call SpinAcquire s)))"
  using relation_find_loop [OF assms(1), of x y] items_okE(3) [OF assms(1)]
  by (auto simp: dbg_find_item_def take_ref_def r_def kernel_simps Let_def split: option.splits)

lemma unat_inc: "unat v < 2 ^ 32 - 1 \<Longrightarrow> unat (v + 1) = Suc (unat v)" for v :: u32
  by (subst unat_add_small) simp_all

lemma take_ref_ok:
  assumes "items_ok s" and "items s a = Some i" and "unat (ref_count i) < 2 ^ 32 - 1"
  shows "items_ok (take_ref a s)" and "relations (take_ref a s) = relations s"
    and "item_refs (take_ref a s) = (item_refs s)(a := Suc (item_refs s a))"
proof -
  have "unat (ref_count i + 1) = Suc (unat (ref_count i))" using unat_inc assms(3) by blast
  then have c: "ref_count i + 1 \<noteq> 0" by (metis nat.distinct(1) unat_0)
  show "items_ok (take_ref a s)"
    using items_ok_set [OF assms(1,2), of "i\<lparr>ref_count := ref_count i + 1\<rparr>"] c
    by (simp add: take_ref_def assms(2))
  show "relations (take_ref a s) = relations s"
    using relations_set [OF assms(2), of "i\<lparr>ref_count := ref_count i + 1\<rparr>"]
    by (simp add: take_ref_def assms(2))
  show "item_refs (take_ref a s) = (item_refs s)(a := Suc (item_refs s a))"
    using \<open>unat (ref_count i + 1) = _\<close> by (simp add: take_ref_def assms(2) refs_set item_refs_def)
qed

lemma take_ref_null: "items_ok s \<Longrightarrow> take_ref NULL s = s"
  by (simp add: take_ref_def items_okE(3))

section \<open>Giving back\<close>

text \<open>The last reference: the item leaves the list, channel and block are freed, both processes released.\<close>

definition drop_item :: "addr \<Rightarrow> dbg_item \<Rightarrow> ('e, 'z) dstate_scheme \<Rightarrow> ('e, 'z) dstate_scheme" where
  "drop_item a i s = mem_free a (log_call (ObDeref (debugger i)) (log_call (ObDeref (debugged i))
     (mem_free (item_chan i) (s\<lparr>items := (items s)(a := None),
        chans := (chans s)(item_chan i := None), dbg_item_list := remove1 a (dbg_item_list s)\<rparr>))))"

lemma dbg_deref_item_run:
  assumes "items_ok s" and "items s a = Some i"
  shows "dbg_deref_item a s =
    Inr ((), if ref_count i = 1 then drop_item a i s else set_item a (i\<lparr>ref_count := ref_count i - 1\<rparr>) s)"
proof -
  note d = items_okD [OF assms]
  have i: "the_item a s = Inr (i, s)" using assms(2) d by (simp add: the_item_def)
  obtain c where c: "chans s (item_chan i) = Some c" using d by auto
  show ?thesis
  proof (cases "ref_count i = 1")
    case True
    then show ?thesis using d c
      by (simp add: dbg_deref_item_def i Let_def channel_free_def the_chan_def and_then_def set_item_def
          drop_item_def mem_free_def log_call_def)
  next
    case False
    then show ?thesis using d by (simp add: dbg_deref_item_def i Let_def and_then_def)
  qed
qed

lemma drop_item_simps:
  "items (drop_item a i s) = (items s)(a := None)"
  "chans (drop_item a i s) = (chans s)(item_chan i := None)"
  "dbg_item_list (drop_item a i s) = remove1 a (dbg_item_list s)"
  "calls (drop_item a i s) = calls s @ [PoolFree (item_chan i), ObDeref (debugged i), ObDeref (debugger i), PoolFree a]"
  by (simp_all add: drop_item_def kernel_simps)

lemma map_filter_without:
  "(\<And>b. b \<noteq> a \<Longrightarrow> f' b = f b \<and> (P' b \<longleftrightarrow> P b)) \<Longrightarrow> (\<And>b. fst (f b) = b) \<Longrightarrow>
   map f' (filter P' (filter (\<lambda>b. b \<noteq> a) bs)) = filter (\<lambda>r. fst r \<noteq> a) (map f (filter P bs))"
  by (induction bs) auto

lemma drop_item_ok:
  assumes "items_ok s" and "items s a = Some i"
  shows "items_ok (drop_item a i s)" and "item_refs (drop_item a i s) = (item_refs s)(a := 0)"
    and "relations (drop_item a i s) = [r \<leftarrow> relations s. fst r \<noteq> a]"
proof -
  note ok = items_okE [OF assms(1)]
  show "items_ok (drop_item a i s)"
  proof (rule items_okI)
    show "distinct (dbg_item_list (drop_item a i s))" using ok(1) by (simp add: drop_item_simps)
    show "set (dbg_item_list (drop_item a i s)) = dom (items (drop_item a i s))"
      using ok(1,2) by (auto simp: drop_item_simps)
    show "items (drop_item a i s) NULL = None" using ok(3) by (simp add: drop_item_simps)
    show "ref_count k \<noteq> 0 \<and> item_chan k \<noteq> NULL \<and> chans (drop_item a i s) (item_chan k) \<noteq> None"
      if "items (drop_item a i s) b = Some k" for b k
      using that ok(4) [of b k] ok(5) [OF assms(2), of b k] by (auto simp: drop_item_simps split: if_splits)
    show "b = c" if "items (drop_item a i s) b = Some k" "items (drop_item a i s) c = Some l"
      "item_chan k = item_chan l" for b c k l
      using that ok(5) [of b k c l] by (auto simp: drop_item_simps split: if_splits)
  qed
  show "item_refs (drop_item a i s) = (item_refs s)(a := 0)"
    by (auto simp: item_refs_def drop_item_simps fun_eq_iff)
  have "remove1 a (dbg_item_list s) = [b \<leftarrow> dbg_item_list s. b \<noteq> a]"
    using ok(1) by (simp add: distinct_remove1_removeAll removeAll_filter_not_eq neq_commute)
  then show "relations (drop_item a i s) = [r \<leftarrow> relations s. fst r \<noteq> a]"
    unfolding relations_def drop_item_simps
    by (simp only:) (rule map_filter_without; simp add: relation_of_def)
qed

lemma deref_ok:
  assumes "items_ok s" and "0 < item_refs s a"
  shows "\<exists>t. dbg_deref_item a s = Inr ((), t) \<and> items_ok t \<and> item_refs t = (item_refs s)(a := item_refs s a - 1)
    \<and> (1 < item_refs s a \<longrightarrow> relations t = relations s)"
proof -
  obtain i where i: "items s a = Some i" using assms(2) by (auto simp: item_refs_def split: option.splits)
  then have r: "item_refs s a = unat (ref_count i)" by (simp add: item_refs_def)
  show ?thesis
  proof (cases "ref_count i = 1")
    case True
    then show ?thesis using dbg_deref_item_run [OF assms(1) i] drop_item_ok [OF assms(1) i] r by simp
  next
    case False
    have nz: "ref_count i \<noteq> 0" using items_okD(2) [OF assms(1) i] .
    have d: "ref_count i - 1 \<noteq> 0" using False by simp
    have u: "unat (ref_count i - 1) = unat (ref_count i) - 1" by (rule unat_minus_one [OF nz])
    have "relations (set_item a (i\<lparr>ref_count := ref_count i - 1\<rparr>) s) = relations s"
      by (rule relations_set [OF i]) simp_all
    then show ?thesis
      using dbg_deref_item_run [OF assms(1) i] False items_ok_set [OF assms(1) i, of "i\<lparr>ref_count := ref_count i - 1\<rparr>"] d r
      by (simp add: refs_set u)
  qed
qed

section \<open>The registry provides its interface\<close>

interpretation registry: item_registry dbg_find_item dbg_deref_item
  "item_refs :: ('e, 'z) dstate_scheme \<Rightarrow> _" relations items_ok
proof
  fix s :: "('e, 'z) dstate_scheme" and x y
  assume ok: "items_ok s" and small: "\<And>a. item_refs s a < 2 ^ 32 - 1"
  let ?r = "relation_find x y (relations s)"
  let ?t = "log_call SpinRelease (take_ref ?r (log_call SpinAcquire s))"
  have run: "dbg_find_item x y s = Inr (?r, ?t)" by (rule dbg_find_item_run [OF ok])
  have ok': "items_ok (log_call SpinAcquire s)" using ok by simp
  show "\<exists>r t. dbg_find_item x y s = Inr (r, t) \<and> items_ok t \<and> relations t = relations s
        \<and> (r = NULL \<longrightarrow> item_refs t = item_refs s
             \<and> (\<forall>(a, x', y') \<in> set (relations s). \<not> ((x = NULL \<or> x' = x) \<and> (y = NULL \<or> y' = y))))
        \<and> (r \<noteq> NULL \<longrightarrow> 0 < item_refs s r \<and> item_refs t = (item_refs s)(r := Suc (item_refs s r))
             \<and> (\<exists>x' y'. (r, x', y') \<in> set (relations s) \<and> (x = NULL \<or> x' = x) \<and> (y = NULL \<or> y' = y)))"
  proof (cases "?r = NULL")
    case True
    then show ?thesis
      using run ok relation_find_none [OF True relations_nonnull [OF ok]] take_ref_null [OF ok'] by auto
  next
    case False
    from relation_find_in [OF this] obtain x' y' where m: "(?r, x', y') \<in> set (relations s)"
      "x = NULL \<or> x' = x" "y = NULL \<or> y' = y" by blast
    obtain i where i: "items s ?r = Some i" by (rule relations_item [OF ok m(1)])
    then have i': "items (log_call SpinAcquire s) ?r = Some i" by (simp add: kernel_simps)
    have "unat (ref_count i) < 2 ^ 32 - 1" using small [of ?r] i by (simp add: item_refs_def)
    from take_ref_ok [OF ok' i' this] run False m i items_okD(2) [OF ok i]
    show ?thesis by (auto simp: item_refs_def unat_gt_0)
  qed
next
  fix s :: "('e, 'z) dstate_scheme" and a
  assume "items_ok s" "0 < item_refs s a"
  then show "\<exists>t. dbg_deref_item a s = Inr ((), t) \<and> items_ok t
      \<and> item_refs t = (item_refs s)(a := item_refs s a - 1) \<and> (1 < item_refs s a \<longrightarrow> relations t = relations s)"
    by (rule deref_ok)
qed

section \<open>Releasing and deleting\<close>

lemma channel_release_all:
  "channel_release_from K 5 RL_Flag c = c\<lparr>released := 1, send_event := ke_set K (send_event c),
     recv_event := ke_set K (recv_event c), rcvd_event := ke_set K (rcvd_event c),
     repl_event := ke_set K (repl_event c)\<rparr>"
  by (simp add: numeral_eq_Suc)

definition set_chan :: "addr \<Rightarrow> 'e channel \<Rightarrow> ('e, 'z) dstate_scheme \<Rightarrow> ('e, 'z) dstate_scheme" where
  "set_chan a c s = s\<lparr>chans := (chans s)(a \<mapsto> c)\<rparr>"

lemma set_chan_simps [kernel_simps]:
  "items (set_chan a c s) = items s" "dbg_item_list (set_chan a c s) = dbg_item_list s"
  "chans (set_chan a c s) = (chans s)(a \<mapsto> c)"
  by (simp_all add: set_chan_def)

lemma set_chan_ok:
  "items_ok s \<Longrightarrow> items_ok (set_chan a c s)"
  "item_refs (set_chan a c s) = item_refs s" "relations (set_chan a c s) = relations s"
  by (auto simp: items_ok_def item_refs_def relations_def kernel_simps fun_eq_iff)

lemma release_chan_run:
  assumes "items_ok s" and "items s a = Some i"
  shows "\<exists>c. chans s (item_chan i) = Some c
    \<and> release_chan K (item_chan i) s = Inr ((), set_chan (item_chan i) (channel_release_from K 5 RL_Flag c) s)"
  using items_okD [OF assms] by (auto simp: release_chan_def the_chan_def and_then_def set_chan_def)

lemma relations_deactivate:
  assumes "items s a = Some i"
  shows "relations (set_item a (i\<lparr>active := 0\<rparr>) s) = [r \<leftarrow> relations s. fst r \<noteq> a]"
proof -
  have "map (relation_of ((items s)(a \<mapsto> i\<lparr>active := 0\<rparr>)))
      [b \<leftarrow> bs. active (the (((items s)(a \<mapsto> i\<lparr>active := 0\<rparr>)) b)) \<noteq> 0]
    = [r \<leftarrow> map (relation_of (items s)) [b \<leftarrow> bs. active (the (items s b)) \<noteq> 0]. fst r \<noteq> a]" for bs
    by (induction bs) (auto simp: relation_of_def simp del: fun_upd_apply, auto)
  then show ?thesis by (simp add: relations_def kernel_simps)
qed

lemma dbg_delete_item_run:
  assumes ok: "items_ok s" and r: "0 < item_refs s a"
  shows "\<exists>t. dbg_delete_item K a s = Inr ((), t) \<and> items_ok t
    \<and> item_refs t = (item_refs s)(a := item_refs s a - 1) \<and> relations t = [r \<leftarrow> relations s. fst r \<noteq> a]
    \<and> (\<forall>b. b \<noteq> a \<longrightarrow> items t b = items s b)
    \<and> (\<forall>i. items t a = Some i \<longrightarrow> active i = 0 \<and> (\<exists>c. chans t (item_chan i) = Some c \<and> released c = 1))"
proof -
  obtain i where i: "items s a = Some i" using r by (auto simp: item_refs_def split: option.splits)
  note d = items_okD [OF ok i]
  let ?i = "i\<lparr>active := 0\<rparr>" and ?s = "set_item a (i\<lparr>active := 0\<rparr>) s"
  have ok1: "items_ok ?s" by (rule items_ok_set [OF ok i]) (use d in simp_all)
  have i1: "items ?s a = Some ?i" by (simp add: kernel_simps)
  obtain c where c: "release_chan K (item_chan i) ?s
      = Inr ((), set_chan (item_chan i) (channel_release_from K 5 RL_Flag c) ?s)"
    using release_chan_run [OF ok1 i1, of K] by auto
  let ?u = "set_chan (item_chan i) (channel_release_from K 5 RL_Flag c) ?s"
  have ok2: "items_ok ?u" by (rule set_chan_ok(1) [OF ok1])
  have i2: "items ?u a = Some ?i" by (simp add: kernel_simps)
  have refs: "item_refs ?u = item_refs s" using i by (auto simp: set_chan_ok refs_set item_refs_def fun_eq_iff)
  have rel: "relations ?u = [r \<leftarrow> relations s. fst r \<noteq> a]"
    by (simp add: set_chan_ok relations_deactivate [OF i])
  have run: "dbg_delete_item K a s = dbg_deref_item a ?u"
    using i d c by (simp add: dbg_delete_item_def the_item_def and_then_def)
  have deref: "dbg_deref_item a ?u = Inr ((), if ref_count i = 1 then drop_item a ?i ?u
      else set_item a (?i\<lparr>ref_count := ref_count i - 1\<rparr>) ?u)"
    using dbg_deref_item_run [OF ok2 i2] by simp
  obtain t where t: "dbg_deref_item a ?u = Inr ((), t)" "items_ok t"
      "item_refs t = (item_refs ?u)(a := item_refs ?u a - 1)"
    using deref_ok [OF ok2, of a] r refs by auto
  have tr: "relations t = [r \<leftarrow> relations s. fst r \<noteq> a]"
  proof (cases "ref_count i = 1")
    case True
    then have "t = drop_item a ?i ?u" using t(1) deref by simp
    then show ?thesis using drop_item_ok(3) [OF ok2 i2] rel by simp
  next
    case False
    then have "t = set_item a (?i\<lparr>ref_count := ref_count i - 1\<rparr>) ?u" using t(1) deref by simp
    then show ?thesis using relations_set [OF i2, of "?i\<lparr>ref_count := ref_count i - 1\<rparr>"] rel by simp
  qed
  have "(\<forall>b. b \<noteq> a \<longrightarrow> items t b = items s b)
    \<and> (\<forall>i. items t a = Some i \<longrightarrow> active i = 0 \<and> (\<exists>c. chans t (item_chan i) = Some c \<and> released c = 1))"
    using t(1) deref
    by (auto simp: kernel_simps drop_item_simps channel_release_all split: if_splits)
  with t tr refs run show ?thesis by auto
qed

end
