(* ===== verification/Handler_Logic.thy ===== *)
theory Handler_Logic
  imports Debug_Hooks Dbg_Item_Facts
begin

text \<open>
  Total correctness of operations that may fault, and what a handler holds while it works: the
  reference to an item it has found and the reference to an object it has looked up. Each service
  the handlers are made of has its rule here, on top of the registry's interface.
\<close>

section \<open>Triples\<close>

text \<open>From every state with \<open>P\<close> the operation runs without a fault to a result and state with \<open>Q\<close>.\<close>

definition triple :: "('s \<Rightarrow> bool) \<Rightarrow> ('s, 'a) op \<Rightarrow> ('a \<Rightarrow> 's \<Rightarrow> bool) \<Rightarrow> bool" where
  "triple P f Q \<longleftrightarrow> (\<forall>s. P s \<longrightarrow> (\<exists>v t. f s = Inr (v, t) \<and> Q v t))"

named_theorems triple_rules \<open>one rule per building block\<close>

lemma tripleI: "(\<And>s. P s \<Longrightarrow> \<exists>v t. f s = Inr (v, t) \<and> Q v t) \<Longrightarrow> triple P f Q"
  by (simp add: triple_def)

lemma tripleD: "triple P f Q \<Longrightarrow> P s \<Longrightarrow> \<exists>v t. f s = Inr (v, t) \<and> Q v t"
  by (simp add: triple_def)

lemma triple_then: "triple P f R \<Longrightarrow> (\<And>v. triple (R v) (g v) Q) \<Longrightarrow> triple P (and_then f g) Q"
  by (fastforce simp: triple_def and_then_def)

lemma triple_ret: "(\<And>s. P s \<Longrightarrow> Q v s) \<Longrightarrow> triple P (ret v) Q"
  by (simp add: triple_def)

lemma triple_doing: "(\<And>s. P s \<Longrightarrow> Q () (f s)) \<Longrightarrow> triple P (doing f) Q"
  by (simp add: triple_def)

lemma triple_state: "(\<And>s. P s \<Longrightarrow> (case f s of (v, t) \<Rightarrow> Q v t)) \<Longrightarrow> triple P (\<lambda>s. Inr (f s)) Q"
  by (force simp: triple_def split: prod.splits)

lemma triple_if: "(b \<Longrightarrow> triple P f Q) \<Longrightarrow> (\<not> b \<Longrightarrow> triple P g Q) \<Longrightarrow> triple P (if b then f else g) Q"
  by simp

lemma triple_weaken:
  "triple P f R \<Longrightarrow> (\<And>s. P' s \<Longrightarrow> P s) \<Longrightarrow> (\<And>v s. R v s \<Longrightarrow> Q v s) \<Longrightarrow> triple P' f Q"
  by (fastforce simp: triple_def)

lemma triple_pre: "(\<And>s. P s \<Longrightarrow> b) \<Longrightarrow> (b \<Longrightarrow> triple P f Q) \<Longrightarrow> triple P f Q"
  by (auto simp: triple_def)

lemma triple_false: "triple (\<lambda>_. False) f Q"
  by (simp add: triple_def)

text \<open>Facts that do not depend on the state move out of the precondition.\<close>

lemma triple_conj: "triple (\<lambda>s. b \<and> P s) f Q \<longleftrightarrow> (b \<longrightarrow> triple P f Q)"
  by (auto simp: triple_def)

section \<open>References to objects\<close>

text \<open>References taken minus references given back, in a piece of the log.\<close>

definition obj_count :: "kcall list \<Rightarrow> addr \<Rightarrow> int" where
  "obj_count cs p = int (count_list cs (ObRef p)) - int (count_list cs (ObDeref p))"

lemma obj_count_Nil [simp]: "obj_count [] p = 0"
  by (simp add: obj_count_def)

lemma obj_count_append [simp]: "obj_count (cs @ ds) p = obj_count cs p + obj_count ds p"
  by (simp add: obj_count_def)

lemma obj_count_one [simp]:
  "obj_count [ObRef o1] p = (if p = o1 then 1 else 0)" "obj_count [ObDeref o1] p = (if p = o1 then - 1 else 0)"
  "obj_count [SpinAcquire] p = 0" "obj_count [SpinRelease] p = 0" "obj_count [PoolFree q] p = 0"
  "obj_count [PoolAlloc n q] p = 0" "obj_count [OldCreateThread b] p = 0" "obj_count [ResumeThread h] p = 0"
  "obj_count [OldDispatchException] p = 0" "obj_count [CloseHandle h] p = 0"
  "obj_count [TerminateProcess h st] p = 0" "obj_count [StartThread q] p = 0"
  by (auto simp: obj_count_def)

section \<open>What a handler holds\<close>

definition taken :: "addr \<Rightarrow> (addr \<Rightarrow> nat) \<Rightarrow> addr \<Rightarrow> nat" where
  "taken debug rs = (if debug = NULL then rs else rs(debug := Suc (rs debug)))"

text \<open>
  The state differs from \<open>s\<^sub>0\<close> by at most a reference to the item \<open>debug\<close> and a reference to the object
  \<open>obj\<close>, as far as registry and object references go; \<open>NULL\<close> is no reference.
\<close>

definition holds :: "('e, 'z) drv_state_scheme \<Rightarrow> addr \<Rightarrow> addr \<Rightarrow> ('e, 'z) drv_state_scheme \<Rightarrow> bool" where
  "holds s\<^sub>0 debug obj s \<longleftrightarrow>
     items_ok s \<and> relations s = relations s\<^sub>0 \<and> item_refs s = taken debug (item_refs s\<^sub>0)
     \<and> (debug \<noteq> NULL \<longrightarrow> 0 < item_refs s\<^sub>0 debug)
     \<and> (\<forall>p. obj_count (calls s) p = obj_count (calls s\<^sub>0) p + (if obj \<noteq> NULL \<and> p = obj then 1 else 0))"

text \<open>The counters have room for the references that the handler will take.\<close>

definition room :: "('e, 'z) drv_state_scheme \<Rightarrow> bool" where
  "room s \<longleftrightarrow> (\<forall>a. item_refs s a < 2 ^ 32 - 1)"

lemma holds_start: "items_ok s \<Longrightarrow> holds s NULL NULL s"
  by (simp add: holds_def taken_def)

lemma holds_log: "obj_count [c] = (\<lambda>_. 0) \<Longrightarrow> holds s\<^sub>0 r ob (log_call c s) = holds s\<^sub>0 r ob s"
  by (simp add: holds_def kernel_simps)

lemma holds_item:
  assumes "holds s\<^sub>0 r ob s" and "r \<noteq> NULL"
  shows "\<exists>i. items s r = Some i \<and> item_chan i \<noteq> NULL \<and> chans s (item_chan i) \<noteq> None"
proof -
  have "0 < item_refs s r" using assms by (simp add: holds_def taken_def)
  then obtain i where "items s r = Some i" by (auto simp: item_refs_def split: option.splits)
  with assms(1) show ?thesis by (auto simp: holds_def dest: items_okD)
qed

lemma find_calls:
  "items_ok s \<Longrightarrow> dbg_find_item x y s = Inr (r, t) \<Longrightarrow> calls t = calls s @ [SpinAcquire, SpinRelease]"
  by (auto simp: dbg_find_item_run kernel_simps take_ref_def set_item_def split: option.splits)

lemma deref_calls:
  assumes "items_ok s" and "1 < item_refs s a" and "dbg_deref_item a s = Inr ((), t)"
  shows "calls t = calls s"
proof -
  obtain i where i: "items s a = Some i" "1 < unat (ref_count i)"
    using assms(2) by (auto simp: item_refs_def split: option.splits)
  then have "ref_count i \<noteq> 1" by auto
  then show ?thesis using assms(3) dbg_deref_item_run [OF assms(1) i(1)] by (auto simp: set_item_def)
qed

lemma find_triple:
  assumes "room s\<^sub>0"
  shows "triple (holds s\<^sub>0 NULL obj) (dbg_find_item x y) (\<lambda>r. holds s\<^sub>0 r obj)"
proof (rule tripleI)
  fix s assume h: "holds s\<^sub>0 NULL obj s"
  then have ok: "items_ok s" and rs: "item_refs s = item_refs s\<^sub>0" "relations s = relations s\<^sub>0"
    by (simp_all add: holds_def taken_def)
  obtain r t where rt: "dbg_find_item x y s = Inr (r, t)" "items_ok t" "relations t = relations s"
      "r = NULL \<Longrightarrow> item_refs t = item_refs s"
      "r \<noteq> NULL \<Longrightarrow> 0 < item_refs s r \<and> item_refs t = (item_refs s)(r := Suc (item_refs s r))"
    using registry.find_ok [OF ok, of x y] assms rs by (auto simp: room_def)
  then have "holds s\<^sub>0 r obj t"
    using h find_calls [OF ok rt(1)] rs by (cases "r = NULL") (simp_all add: holds_def taken_def obj_count_def)
  with rt(1) show "\<exists>v t. dbg_find_item x y s = Inr (v, t) \<and> holds s\<^sub>0 v obj t" by blast
qed

lemma give_back_triple: "triple (holds s\<^sub>0 r obj) (give_back r) (\<lambda>_. holds s\<^sub>0 NULL obj)"
proof (rule tripleI)
  fix s assume h: "holds s\<^sub>0 r obj s"
  show "\<exists>v t. give_back r s = Inr (v, t) \<and> holds s\<^sub>0 NULL obj t"
  proof (cases "r = NULL")
    case True
    with h show ?thesis by (simp add: give_back_def)
  next
    case False
    from h have ok: "items_ok s" by (simp add: holds_def)
    from h False have more: "1 < item_refs s r" by (simp add: holds_def taken_def)
    obtain t where t: "dbg_deref_item r s = Inr ((), t)" "items_ok t"
        "item_refs t = (item_refs s)(r := item_refs s r - 1)" "relations t = relations s"
      using registry.deref_ok [OF ok, of r] more by auto
    then have "holds s\<^sub>0 NULL obj t"
      using h False deref_calls [OF ok more t(1)] by (auto simp: holds_def taken_def)
    with t(1) False show ?thesis by (simp add: give_back_def)
  qed
qed

lemma the_item_triple:
  assumes "r \<noteq> NULL"
  shows "triple (holds s\<^sub>0 r obj) (the_item r) (\<lambda>i s. holds s\<^sub>0 r obj s \<and> items s r = Some i)"
  using holds_item [OF _ assms] assms by (fastforce simp: triple_def the_item_def)

lemma the_chan_triple:
  assumes "r \<noteq> NULL"
  shows "triple (\<lambda>s. holds s\<^sub>0 r obj s \<and> items s r = Some i) (the_chan (item_chan i))
           (\<lambda>_ s. holds s\<^sub>0 r obj s \<and> items s r = Some i)"
  using holds_item [OF _ assms] assms by (fastforce simp: triple_def the_chan_def)

lemma take_object_triple:
  assumes "NT_SUCCESS (fst r) \<Longrightarrow> snd r \<noteq> NULL"
  shows "triple (holds s\<^sub>0 d NULL) (take_object r)
           (\<lambda>(st, ob) s. holds s\<^sub>0 d ob s \<and> st = fst r \<and> ob = (if NT_SUCCESS st then snd r else NULL))"
  using assms by (auto simp: triple_def take_object_def holds_def kernel_simps split: prod.splits)

lemma drop_object_triple: "ob \<noteq> NULL \<Longrightarrow> triple (holds s\<^sub>0 d ob) (drop_object ob) (\<lambda>_. holds s\<^sub>0 d NULL)"
  unfolding drop_object_def by (rule triple_doing) (simp add: holds_def kernel_simps)

lemma drop_any_triple:
  "triple (holds s\<^sub>0 d ob) (if ob \<noteq> NULL then drop_object ob else ret ()) (\<lambda>_. holds s\<^sub>0 d NULL)"
  by (rule triple_if [OF drop_object_triple triple_ret]) simp_all

text \<open>Memory does not matter to what is held.\<close>

lemma holds_mem [simp]: "holds s\<^sub>0 d ob (set_mem m s) = holds s\<^sub>0 d ob s"
proof -
  have "items_ok (set_mem m s) = items_ok s" "relations (set_mem m s) = relations s"
      "item_refs (set_mem m s) = item_refs s"
    by (auto simp: items_ok_def relations_def item_refs_def set_mem_def fun_eq_iff)
  then show ?thesis by (simp add: holds_def kernel_simps)
qed

lemma holds_set_item:
  assumes "holds s\<^sub>0 r ob s" and "items s a = Some i" and "ref_count j = ref_count i" "item_chan j = item_chan i"
    "debugger j = debugger i" "debugged j = debugged i" "active j = active i"
  shows "holds s\<^sub>0 r ob (set_item a j s)"
proof -
  from assms(1) have ok: "items_ok s" by (simp add: holds_def)
  have "items_ok (set_item a j s)"
    by (rule items_ok_set [OF ok assms(2)]) (use items_okD(2) [OF ok assms(2)] assms in simp_all)
  moreover have "relations (set_item a j s) = relations s" by (rule relations_set [OF assms(2)]) (simp_all add: assms)
  moreover have "item_refs (set_item a j s) = item_refs s"
    using assms(2,3) by (auto simp: refs_set item_refs_def fun_eq_iff)
  moreover have "calls (set_item a j s) = calls s" by (simp add: set_item_def)
  ultimately show ?thesis using assms(1) by (simp add: holds_def)
qed

lemma read32_triple: "p \<noteq> NULL \<Longrightarrow> triple P (read32 p) (\<lambda>v s. P s \<and> v = rd32 (kmem s) p)"
  by (simp add: triple_def read32_def)

lemma read_block_triple: "p \<noteq> NULL \<Longrightarrow> triple P (read_block p n) (\<lambda>v s. P s \<and> v = load (kmem s) p n)"
  by (simp add: triple_def read_block_def)

lemma write_block_triple:
  "p \<noteq> NULL \<Longrightarrow> triple (holds s\<^sub>0 d ob) (write_block p bs) (\<lambda>_. holds s\<^sub>0 d ob)"
  by (simp add: triple_def write_block_def)

end
