(* ===== verification/Handler_Facts.thy ===== *)
theory Handler_Facts
  imports Handler_Logic
begin

text \<open>
  Every handler of \<open>src/kernel/sys/debug.c\<close> that looks up a process, finds an item and works on it
  gives back exactly what it took, and faults nowhere on the way. The services that hand the
  processor to other threads are assumed to leave the registry as it is.
\<close>

section \<open>Assumptions on the environment\<close>

definition same_registry :: "('e, 'z) drv_state_scheme \<Rightarrow> ('e, 'z) drv_state_scheme \<Rightarrow> bool" where
  "same_registry s t \<longleftrightarrow> items t = items s \<and> dbg_item_list t = dbg_item_list s
     \<and> (\<forall>c. chans s c \<noteq> None \<longrightarrow> chans t c \<noteq> None) \<and> (\<forall>p. obj_count (calls t) p = obj_count (calls s) p)"

definition found_objects :: "('e, 's) kenv \<Rightarrow> bool" where
  "found_objects E \<longleftrightarrow> (\<forall>h. (NT_SUCCESS (fst (lookup_process E h)) \<longrightarrow> snd (lookup_process E h) \<noteq> NULL)
     \<and> (NT_SUCCESS (fst (ref_process E h)) \<longrightarrow> snd (ref_process E h) \<noteq> NULL)
     \<and> (NT_SUCCESS (fst (ref_thread E h)) \<longrightarrow> snd (ref_thread E h) \<noteq> NULL))"

definition still :: "('e, ('e, 'z) drv_state_scheme) kenv \<Rightarrow> bool" where
  "still E \<longleftrightarrow> found_objects E
     \<and> (\<forall>c m s. same_registry s (snd (send_wait E c m s)))
     \<and> (\<forall>c s. same_registry s (snd (take_msg E c s)))
     \<and> (\<forall>c b s. same_registry s (snd (answer E c b s)))
     \<and> (\<forall>b s. same_registry s (snd (old_create E b s)))"

lemma same_registry_holds:
  assumes "same_registry s t" and "holds s\<^sub>0 d ob s"
  shows "holds s\<^sub>0 d ob t"
proof -
  from assms(1) have it: "items t = items s" "dbg_item_list t = dbg_item_list s"
      "\<And>c. chans s c \<noteq> None \<Longrightarrow> chans t c \<noteq> None"
      "\<And>p. obj_count (calls t) p = obj_count (calls s) p"
    by (auto simp: same_registry_def)
  have ok: "items_ok s" using assms(2) by (simp add: holds_def)
  have "items_ok t"
  proof (rule items_okI)
    show "ref_count i \<noteq> 0 \<and> item_chan i \<noteq> NULL \<and> chans t (item_chan i) \<noteq> None" if "items t a = Some i" for a i
      using that it items_okD [OF ok, of a i] by simp
  qed (use items_okE [OF ok] it in simp_all)
  moreover have "relations t = relations s" "item_refs t = item_refs s"
    by (simp_all only: relations_def item_refs_def [abs_def] it(1,2))
  ultimately show ?thesis using assms(2) it(4) by (simp add: holds_def)
qed

lemma same_registry_log:
  "same_registry (log_call c s) t \<Longrightarrow> (\<And>p. obj_count [c] p = 0) \<Longrightarrow> same_registry s t"
  by (simp add: same_registry_def kernel_simps)

lemma waiting_triple:
  assumes "\<And>s. same_registry s (snd (f s))"
  shows "triple (holds s\<^sub>0 d ob) (\<lambda>s. Inr (f s)) (\<lambda>_. holds s\<^sub>0 d ob)"
proof (rule tripleI)
  fix s assume "holds s\<^sub>0 d ob s"
  with assms same_registry_holds have "holds s\<^sub>0 d ob (snd (f s))" by blast
  then show "\<exists>v t. Inr (f s) = Inr (v, t) \<and> holds s\<^sub>0 d ob t" by (cases "f s") simp
qed

section \<open>The parts of the handlers\<close>

lemma find_mine_triple:
  assumes "room s\<^sub>0" and "found_objects E"
  shows "triple (holds s\<^sub>0 NULL NULL) (find_mine E pid) (\<lambda>(process, debug). holds s\<^sub>0 debug process)"
proof -
  have found: "NT_SUCCESS (fst (lookup_process E pid)) \<Longrightarrow> snd (lookup_process E pid) \<noteq> NULL"
    using assms(2) by (simp add: found_objects_def)
  have rest: "triple (\<lambda>s. holds s\<^sub>0 NULL process s \<and> st = fst (lookup_process E pid)
        \<and> process = (if NT_SUCCESS st then snd (lookup_process E pid) else NULL))
      (if \<not> NT_SUCCESS st then ret (NULL, NULL)
       else and_then (dbg_find_item (cur_process E) process) (\<lambda>debug. ret (process, debug)))
      (\<lambda>(process, debug). holds s\<^sub>0 debug process)" for st process
  proof (cases "NT_SUCCESS st")
    case True
    have "triple (holds s\<^sub>0 NULL process) (and_then (dbg_find_item (cur_process E) process) (\<lambda>debug. ret (process, debug)))
        (\<lambda>(process, debug). holds s\<^sub>0 debug process)"
      by (rule triple_then [OF find_triple [OF assms(1)]]) (simp add: triple_ret)
    then show ?thesis using True by (auto intro: triple_weaken)
  next
    case False
    then show ?thesis by (auto intro!: triple_ret)
  qed
  show ?thesis
    unfolding find_mine_def
    by (rule triple_then [OF take_object_triple [OF found]]) (use rest in auto)
qed

text \<open>The frame that set_filter, get_message and countinue share, around the work on the item.\<close>

lemma work_triple:
  assumes "room s\<^sub>0" and "found_objects E"
    and "\<And>debug process. debug \<noteq> NULL \<Longrightarrow> triple (holds s\<^sub>0 debug process) (work debug) (\<lambda>_. holds s\<^sub>0 debug process)"
  shows "triple (holds s\<^sub>0 NULL NULL)
     (and_then (find_mine E pid) (\<lambda>(process, debug).
      and_then (if debug = NULL then ret 0 else work debug) (\<lambda>succs.
      and_then (if process \<noteq> NULL then drop_object process else ret ()) (\<lambda>_.
      and_then (if debug \<noteq> NULL then dbg_deref_item debug else ret ()) (\<lambda>_. ret succs)))))
     (\<lambda>_. holds s\<^sub>0 NULL NULL)" (is ?drop_first)
    and "triple (holds s\<^sub>0 NULL NULL)
     (and_then (find_mine E pid) (\<lambda>(process, debug).
      and_then (if debug = NULL then ret 0 else work debug) (\<lambda>succs.
      and_then (if debug \<noteq> NULL then dbg_deref_item debug else ret ()) (\<lambda>_.
      and_then (if process \<noteq> NULL then drop_object process else ret ()) (\<lambda>_. ret succs)))))
     (\<lambda>_. holds s\<^sub>0 NULL NULL)" (is ?deref_first)
proof -
  have work: "triple (holds s\<^sub>0 debug process) (if debug = NULL then ret 0 else work debug)
      (\<lambda>_. holds s\<^sub>0 debug process)" for debug process
    by (rule triple_if) (auto intro!: triple_ret assms(3))
  have deref: "triple (holds s\<^sub>0 debug process) (if debug \<noteq> NULL then dbg_deref_item debug else ret ())
      (\<lambda>_. holds s\<^sub>0 NULL process)" for debug process
    using give_back_triple [of s\<^sub>0 debug process] by (simp only: give_back_def)
  note step = triple_then [OF find_mine_triple [OF assms(1,2), of pid]] triple_then [OF work] triple_then [OF deref]
    triple_then [OF drop_any_triple]
  show ?drop_first
    by (rule step(1), simp only: split_paired_all prod.case, rule step(2), rule step(4), rule step(3), rule triple_ret, assumption)
  show ?deref_first
    by (rule step(1), simp only: split_paired_all prod.case, rule step(2), rule step(3), rule step(4), rule triple_ret, assumption)
qed

lemma send_event_triple:
  assumes "still E" and "debug \<noteq> NULL"
  shows "triple (holds s\<^sub>0 debug ob) (send_event_of E debug msg) (\<lambda>_. holds s\<^sub>0 debug ob)"
  unfolding send_event_of_def
proof (rule triple_then [OF the_item_triple [OF assms(2)]], rule triple_then [OF the_chan_triple [OF assms(2)]])
  fix i :: dbg_item
  have "triple (holds s\<^sub>0 debug ob) (\<lambda>s. Inr (send_wait E (item_chan i) msg s)) (\<lambda>_. holds s\<^sub>0 debug ob)"
    by (rule waiting_triple) (use assms(1) in \<open>simp add: still_def\<close>)
  then show "triple (\<lambda>s. holds s\<^sub>0 debug ob s \<and> items s debug = Some i) (\<lambda>s. Inr (send_wait E (item_chan i) msg s))
      (\<lambda>_. holds s\<^sub>0 debug ob)"
    by (rule triple_weaken) simp_all
qed

lemma find_event_triple:
  assumes "room s\<^sub>0"
  shows "triple (holds s\<^sub>0 NULL ob) (find_event_item process code)
     (\<lambda>(debug, wanted) s. holds s\<^sub>0 debug ob s \<and> (wanted \<longrightarrow> debug \<noteq> NULL))"
  unfolding find_event_item_def
proof (rule triple_then [OF find_triple [OF assms]], rule triple_if)
  fix debug :: addr assume nn: "debug \<noteq> NULL"
  show "triple (holds s\<^sub>0 debug ob)
      (and_then (the_item debug) (\<lambda>i. ret (debug, event_mask (item_filter i) AND code \<noteq> 0)))
      (\<lambda>(debug, wanted) s. holds s\<^sub>0 debug ob s \<and> (wanted \<longrightarrow> debug \<noteq> NULL))"
    by (rule triple_then [OF the_item_triple [OF nn]], rule triple_ret) (simp add: nn)
qed (simp add: triple_ret)

lemma report_event_triple:
  assumes "room s\<^sub>0" and "\<And>debug. debug \<noteq> NULL \<Longrightarrow> triple (holds s\<^sub>0 debug ob) (send debug) (\<lambda>_. holds s\<^sub>0 debug ob)"
  shows "triple (holds s\<^sub>0 NULL ob) (report_event process code send) (\<lambda>debug. holds s\<^sub>0 debug ob)"
proof -
  have maybe: "triple (\<lambda>s. holds s\<^sub>0 debug ob s \<and> (wanted \<longrightarrow> debug \<noteq> NULL)) (if wanted then send debug else ret ())
      (\<lambda>_. holds s\<^sub>0 debug ob)" for debug wanted
  proof (cases "wanted \<and> debug \<noteq> NULL")
    case True
    then show ?thesis using triple_weaken [OF assms(2)] by simp
  next
    case False
    then show ?thesis by (cases wanted) (auto simp: triple_def)
  qed
  show ?thesis
    unfolding report_event_def
    by (rule triple_then [OF find_event_triple [OF assms(1)]], simp only: split_paired_all prod.case,
        rule triple_then [OF maybe], rule triple_ret)
qed

end
