(* ===== verification/Handler_Balance.thy ===== *)
theory Handler_Balance
  imports Handler_Facts
begin

text \<open>
  The triples of the handlers and hooks, and what the loop over the exception filters amounts to.
\<close>

section \<open>System calls\<close>

text \<open>The buffers of a call, as the system call gate passes them on: mapped and not wrapping around.\<close>

definition buffers_ok :: "syscall \<Rightarrow> bool" where
  "buffers_ok d \<longleftrightarrow> in_data d \<noteq> NULL \<and> out_data d \<noteq> NULL \<and> unat (in_data d) + unat (in_size d) < 2 ^ 32"

lemma filter_block:
  assumes "buffers_ok d" and "in_size d = word_of_nat sizeof_set_filter_data"
  shows "in_data d + 4 \<noteq> NULL"
proof
  assume "in_data d + 4 = NULL"
  then have "unat (in_data d + 4) = 0" by simp
  then show False using assms by (simp add: buffers_ok_def unat_add_small)
qed

lemma set_filter_triple:
  assumes "room s\<^sub>0" and "found_objects E" and "buffers_ok d"
  shows "triple (holds s\<^sub>0 NULL NULL) (dbg_set_filter E d) (\<lambda>_. holds s\<^sub>0 NULL NULL)"
  unfolding dbg_set_filter_def
proof (rule triple_if)
  assume "\<not> in_size d \<noteq> word_of_nat sizeof_set_filter_data"
  then have nn: "in_data d \<noteq> NULL" "in_data d + 4 \<noteq> NULL"
    using assms(3) filter_block by (auto simp: buffers_ok_def)
  have block: "triple (\<lambda>s. holds s\<^sub>0 debug process s \<and> items s debug = Some i)
      (and_then (read_block (in_data d + 4) sizeof_event_filt)
        (\<lambda>bs. and_then (doing (set_item debug (i\<lparr>item_filter := read_filter bs\<rparr>))) (\<lambda>_. ret 1)))
      (\<lambda>_. holds s\<^sub>0 debug process)" for debug process i
    using nn(2) by (auto simp: triple_def and_then_def read_block_def intro: holds_set_item)
  note work = triple_then [OF the_item_triple block]
  show "triple (holds s\<^sub>0 NULL NULL) (and_then (read32 (in_data d)) (\<lambda>pid. and_then (find_mine E pid) (\<lambda>(process, debug).
        and_then (if debug = NULL then ret 0
                  else and_then (the_item debug) (\<lambda>i. and_then (read_block (in_data d + 4) sizeof_event_filt)
                    (\<lambda>bs. and_then (doing (set_item debug (i\<lparr>item_filter := read_filter bs\<rparr>))) (\<lambda>_. ret 1)))) (\<lambda>succs.
        and_then (if debug \<noteq> NULL then dbg_deref_item debug else ret ()) (\<lambda>_.
        and_then (if process \<noteq> NULL then drop_object process else ret ()) (\<lambda>_. ret succs))))))
     (\<lambda>_. holds s\<^sub>0 NULL NULL)"
    by (rule triple_then [OF read32_triple [OF nn(1)]], rule triple_weaken [OF work_triple(2) [OF assms(1,2) work]]) simp_all
qed (simp add: triple_ret)

lemma get_message_triple:
  assumes "room s\<^sub>0" and "still E" and "buffers_ok d"
  shows "triple (holds s\<^sub>0 NULL NULL) (dbg_get_message E d) (\<lambda>_. holds s\<^sub>0 NULL NULL)"
proof -
  from assms have fo: "found_objects E" and nn: "in_data d \<noteq> NULL" "out_data d \<noteq> NULL"
    by (simp_all add: still_def buffers_ok_def)
  let ?take = "\<lambda>i. and_then (\<lambda>s. Inr (take_msg E (item_chan i) s)) (\<lambda>(succs, msg).
     if succs \<noteq> 0 then and_then (write_block (out_data d) msg) (\<lambda>_. ret succs) else ret succs)"
  have take: "triple (\<lambda>s. holds s\<^sub>0 debug process s \<and> items s debug = Some i) (?take i) (\<lambda>_. holds s\<^sub>0 debug process)"
    for debug process i
  proof (rule triple_then)
    have "triple (holds s\<^sub>0 debug process) (\<lambda>s. Inr (take_msg E (item_chan i) s)) (\<lambda>_. holds s\<^sub>0 debug process)"
      by (rule waiting_triple) (use assms(2) in \<open>simp add: still_def\<close>)
    then show "triple (\<lambda>s. holds s\<^sub>0 debug process s \<and> items s debug = Some i)
        (\<lambda>s. Inr (take_msg E (item_chan i) s)) (\<lambda>_. holds s\<^sub>0 debug process)"
      by (rule triple_weaken) simp_all
  qed (use nn in \<open>auto simp: triple_def and_then_def write_block_def\<close>)
  have work: "triple (holds s\<^sub>0 debug process) (and_then (the_item debug) (\<lambda>i. and_then (the_chan (item_chan i)) (\<lambda>_. ?take i)))
      (\<lambda>_. holds s\<^sub>0 debug process)" if "debug \<noteq> NULL" for debug process
    by (rule triple_then [OF the_item_triple [OF that] triple_then [OF the_chan_triple [OF that] take]])
  show ?thesis
    unfolding dbg_get_message_def
    by (rule triple_if, rule triple_ret, assumption, rule triple_then [OF read32_triple [OF nn(1)]],
        rule triple_weaken [OF work_triple(1) [OF assms(1) fo work]]) simp_all
qed

lemma countinue_triple:
  assumes "room s\<^sub>0" and "still E" and "buffers_ok d"
  shows "triple (holds s\<^sub>0 NULL NULL) (dbg_countinue E d) (\<lambda>_. holds s\<^sub>0 NULL NULL)"
proof -
  from assms have fo: "found_objects E" and nn: "in_data d \<noteq> NULL" by (simp_all add: still_def buffers_ok_def)
  have send: "triple (\<lambda>s. holds s\<^sub>0 debug process s \<and> items s debug = Some i)
      (\<lambda>s. Inr (answer E (item_chan i) (in_data d) s)) (\<lambda>_. holds s\<^sub>0 debug process)" for debug process i
  proof -
    have "triple (holds s\<^sub>0 debug process) (\<lambda>s. Inr (answer E (item_chan i) (in_data d) s)) (\<lambda>_. holds s\<^sub>0 debug process)"
      by (rule waiting_triple) (use assms(2) in \<open>simp add: still_def\<close>)
    then show ?thesis by (rule triple_weaken) simp_all
  qed
  have work: "triple (holds s\<^sub>0 debug process) (and_then (the_item debug)
      (\<lambda>i. and_then (the_chan (item_chan i)) (\<lambda>_ s. Inr (answer E (item_chan i) (in_data d) s))))
      (\<lambda>_. holds s\<^sub>0 debug process)" if "debug \<noteq> NULL" for debug process
    by (rule triple_then [OF the_item_triple [OF that] triple_then [OF the_chan_triple [OF that] send]])
  show ?thesis
    unfolding dbg_countinue_def
    by (rule triple_if, rule triple_ret, assumption, rule triple_then [OF read32_triple [OF nn]],
        rule triple_weaken [OF work_triple(1) [OF assms(1) fo work]]) simp_all
qed

section \<open>Threads\<close>

lemma guarded_read_triple: "triple P (guarded_read E p n) (\<lambda>_. P)"
  by (simp add: triple_def guarded_read_def)

lemma create_event_triple:
  assumes "still E" and "debug \<noteq> NULL"
  shows "triple (holds s\<^sub>0 debug ob) (create_event E h context debug) (\<lambda>_. holds s\<^sub>0 debug ob)"
  unfolding create_event_def
proof (rule triple_then [OF guarded_read_triple])
  fix ctx :: "u8 list option"
  have "triple (holds s\<^sub>0 debug ob) (and_then (send_event_of E debug m) (\<lambda>_. ret ())) (\<lambda>_. holds s\<^sub>0 debug ob)" for m
    by (rule triple_then [OF send_event_triple [OF assms]], rule triple_ret)
  then show "triple (holds s\<^sub>0 debug ob) (case ctx of None \<Rightarrow> ret ()
     | Some ctx \<Rightarrow> let (tid, teb) = thread_info E h; msg = msg_from_here E DBG_START_THREAD (Thread_Start tid teb ctx)
         in and_then (send_event_of E debug (msg_bytes (replicate sizeof_dbg_msg 0) msg)) (\<lambda>_. ret ()))
     (\<lambda>_. holds s\<^sub>0 debug ob)"
    by (cases ctx) (auto simp: triple_ret Let_def split: prod.splits)
qed

lemma create_body_triple:
  assumes "room s\<^sub>0" and "still E"
  shows "triple (holds s\<^sub>0 NULL NULL) (create_body E p_thread h_process context)
           (\<lambda>(h, process, debug). holds s\<^sub>0 debug process)"
  unfolding create_body_def
proof (rule triple_then [OF guarded_read_triple])
  fix bs :: "u8 list option"
  have fo: "NT_SUCCESS (fst (ref_process E h_process)) \<Longrightarrow> snd (ref_process E h_process) \<noteq> NULL"
    using assms(2) by (simp add: still_def found_objects_def)
  have found: "triple (\<lambda>s. holds s\<^sub>0 NULL process s \<and> st = fst (ref_process E h_process)
        \<and> process = (if NT_SUCCESS st then snd (ref_process E h_process) else NULL))
      (if \<not> NT_SUCCESS st then ret (h, NULL, NULL)
       else and_then (report_event process DBG_START_THREAD (create_event E h context)) (\<lambda>debug. ret (h, process, debug)))
      (\<lambda>(h, process, debug). holds s\<^sub>0 debug process)" for process h st
  proof (cases "NT_SUCCESS st")
    case True
    have "triple (holds s\<^sub>0 NULL process)
      (and_then (report_event process DBG_START_THREAD (create_event E h context)) (\<lambda>debug. ret (h, process, debug)))
      (\<lambda>(h, process, debug). holds s\<^sub>0 debug process)"
      by (rule triple_then [OF report_event_triple [OF assms(1) create_event_triple [OF assms(2)]]]) (auto intro: triple_ret)
    then show ?thesis using True by (auto intro: triple_weaken)
  qed (auto intro!: triple_ret)
  show "triple (holds s\<^sub>0 NULL NULL) (case bs of None \<Rightarrow> ret (NULL, NULL, NULL)
     | Some bs \<Rightarrow> let h_thread = de32 bs in and_then (take_object (ref_process E h_process)) (\<lambda>(st, process).
         if \<not> NT_SUCCESS st then ret (h_thread, NULL, NULL)
         else and_then (report_event process DBG_START_THREAD (create_event E h_thread context))
           (\<lambda>debug. ret (h_thread, process, debug))))
     (\<lambda>(h, process, debug). holds s\<^sub>0 debug process)"
  proof (cases bs)
    case (Some b)
    show ?thesis
      unfolding Some option.case Let_def [where s = "de32 b"]
      by (rule triple_then [OF take_object_triple [OF fo]], simp, simp only: split_paired_all prod.case, rule found)
  qed (simp add: triple_ret)
qed

lemma create_thread_triple:
  assumes "room s\<^sub>0" and "still E"
  shows "triple (holds s\<^sub>0 NULL NULL) (NewNtCreateThread E p_thread h_process context suspended) (\<lambda>_. holds s\<^sub>0 NULL NULL)"
proof -
  have old: "triple (holds s\<^sub>0 NULL NULL) (\<lambda>s. Inr (old_create E True (log_call (OldCreateThread True) s)))
      (\<lambda>_. holds s\<^sub>0 NULL NULL)"
  proof (rule waiting_triple)
    fix s :: "('a, 'b) drv_state_scheme"
    have "same_registry (log_call (OldCreateThread True) s) (snd (old_create E True (log_call (OldCreateThread True) s)))"
      using assms(2) by (simp add: still_def)
    then show "same_registry s (snd (old_create E True (log_call (OldCreateThread True) s)))"
      by (rule same_registry_log) simp
  qed
  have resume: "triple (holds s\<^sub>0 NULL NULL)
      (and_then (if h \<noteq> NULL \<and> \<not> suspended then doing (log_call (ResumeThread h)) else ret ()) (\<lambda>_. ret v))
      (\<lambda>_. holds s\<^sub>0 NULL NULL)" for h and v :: ntstatus
  proof (rule triple_then)
    show "triple (holds s\<^sub>0 NULL NULL) (if h \<noteq> NULL \<and> \<not> suspended then doing (log_call (ResumeThread h)) else ret ())
        (\<lambda>_. holds s\<^sub>0 NULL NULL)"
      by (simp add: triple_def holds_log fun_eq_iff)
  qed (rule triple_ret)
  show ?thesis
    unfolding NewNtCreateThread_def
  proof (rule triple_then [OF old], rule triple_if)
    fix st :: ntstatus
    show "triple (holds s\<^sub>0 NULL NULL)
       (and_then (create_body E p_thread h_process context) (\<lambda>(h_thread, process, debug).
        and_then (if process \<noteq> NULL then drop_object process else ret ()) (\<lambda>_.
        and_then (give_back debug) (\<lambda>_.
        and_then (if h_thread \<noteq> NULL \<and> \<not> suspended then doing (log_call (ResumeThread h_thread)) else ret ()) (\<lambda>_.
        ret st))))) (\<lambda>_. holds s\<^sub>0 NULL NULL)"
      by (rule triple_then [OF create_body_triple [OF assms]], simp only: split_paired_all prod.case,
          rule triple_then [OF drop_any_triple], rule triple_then [OF give_back_triple], rule resume)
  qed (rule triple_ret)
qed

lemma exit_body_triple:
  assumes "room s\<^sub>0" and "still E"
  shows "triple (holds s\<^sub>0 NULL ob) (exit_body E thr st) (\<lambda>debug. holds s\<^sub>0 debug ob)"
  unfolding exit_body_def Let_def
  by (rule report_event_triple [OF assms(1)], rule triple_then [OF send_event_triple [OF assms(2)]], assumption)
     (rule triple_ret)

section \<open>Exceptions\<close>

text \<open>The scan only reads, and what it finds is not used; it faults when it leaves the array.\<close>

lemma filter_scan_in_range:
  assumes "filtr_count f \<le> 100"
  shows "\<exists>j. filter_scan code f i = Inr j"
  using assms
proof (induction code f i rule: filter_scan.induct)
  case (1 code f i)
  have "unat i < FILTER_MAX" if "i < filtr_count f"
    using that 1(2) by (simp add: word_less_nat_alt word_le_nat_alt)
  with 1 show ?case by (subst filter_scan.simps) (auto simp: Let_def not_le)
qed

lemma filter_scan_out_of_range:
  assumes "100 < filtr_count f" and "\<And>k. k < FILTER_MAX \<Longrightarrow>
      \<not> (filtr_from (filters f ! k) \<le> code \<and> code \<le> filtr_to (filters f ! k))" and "i \<le> 100"
  shows "filter_scan code f i = Inl Out_Of_Bounds"
  using assms
proof (induction code f i rule: filter_scan.induct)
  case (1 code f i)
  have lt: "i < filtr_count f" using 1(2,4) by simp
  show ?case
  proof (cases "unat i < FILTER_MAX")
    case True
    then have "i + 1 \<le> 100" by (simp add: word_le_nat_alt unat_add_small)
    with 1 True lt show ?thesis by (subst filter_scan.simps) (simp add: Let_def)
  next
    case False
    with lt show ?thesis by (subst filter_scan.simps) simp
  qed
qed

text \<open>The handler without the loop.\<close>

definition exception_unfiltered :: "('e, ('e, 'z) drv_state_scheme) kenv \<Rightarrow> addr \<Rightarrow> u8
    \<Rightarrow> (('e, 'z) drv_state_scheme, u32) op" where
  "exception_unfiltered E except_record first_chance =
     and_then (find_event_item (cur_process E) DBG_EXCEPTION) (\<lambda>(debug, wanted).
     and_then (if \<not> wanted then ret 0 else exception_event E except_record first_chance debug) (\<lambda>handled.
     and_then (give_back debug) (\<lambda>_.
     ret handled)))"

definition filters_in_range :: "('e, 'z) drv_state_scheme \<Rightarrow> bool" where
  "filters_in_range s \<longleftrightarrow> (\<forall>a i. items s a = Some i \<longrightarrow> filtr_count (item_filter i) \<le> 100)"

lemma find_event_run:
  assumes "items_ok s" and "filters_in_range s" and "find_event_item process code s = Inr ((debug, wanted), t)" and wanted
  shows "\<exists>i. the_item debug t = Inr (i, t) \<and> filtr_count (item_filter i) \<le> 100"
proof -
  obtain u where f: "dbg_find_item NULL process s = Inr (debug, u)"
    using assms(3) by (auto simp: find_event_item_def split: if_splits elim!: and_thenE)
  have range: "filters_in_range u"
    using f assms(2) dbg_find_item_run [OF assms(1), of NULL process]
    by (auto simp: filters_in_range_def take_ref_def kernel_simps split: option.splits if_splits)
  from assms(3,4) f obtain i where "the_item debug u = Inr (i, u)" "t = u"
    by (auto simp: find_event_item_def and_then_def the_item_def split: if_splits option.splits)
  with range show ?thesis
    by (auto simp: the_item_def filters_in_range_def split: if_splits option.splits)
qed

lemma exception_without_filters:
  assumes "items_ok s" and "filters_in_range s" and "except_record \<noteq> NULL"
  shows "dbg_process_exception E except_record first_chance s = exception_unfiltered E except_record first_chance s"
proof (cases "find_event_item (cur_process E) DBG_EXCEPTION s")
  case (Inl e)
  then show ?thesis using assms(3) by (simp add: dbg_process_exception_def exception_unfiltered_def read32_def)
next
  case (Inr r)
  obtain debug wanted t where r: "r = ((debug, wanted), t)" by (cases r) auto
  show ?thesis
  proof (cases wanted)
    case True
    from find_event_run [OF assms(1,2) Inr [unfolded r] True] obtain i
      where i: "the_item debug t = Inr (i, t)" "filtr_count (item_filter i) \<le> 100" by blast
    obtain j where "filter_scan (rd32 (kmem s) except_record) (item_filter i) 0 = Inr j"
      using filter_scan_in_range [OF i(2)] by blast
    then show ?thesis
      using assms(3) Inr r True i(1)
      by (simp add: dbg_process_exception_def exception_unfiltered_def read32_def and_then_def)
  next
    case False
    then show ?thesis
      using assms(3) Inr r by (simp add: dbg_process_exception_def exception_unfiltered_def read32_def)
  qed
qed

lemma exception_event_triple:
  assumes "still E" and "except_record \<noteq> NULL" and "debug \<noteq> NULL"
  shows "triple (holds s\<^sub>0 debug ob) (exception_event E except_record first_chance debug) (\<lambda>_. holds s\<^sub>0 debug ob)"
  unfolding exception_event_def
proof (rule triple_then [OF read_block_triple [OF assms(2)]])
  fix rec
  let ?msg = "msg_bytes (stack E) (msg_from_here E DBG_EXCEPTION (Exception_Raised rec first_chance))"
  have reply: "triple (holds s\<^sub>0 debug ob) (exception_reply except_record a) (\<lambda>_. holds s\<^sub>0 debug ob)" for a
    using assms(2) by (cases a) (auto simp: exception_reply_def triple_def Let_def and_then_def write_block_def)
  have "triple (holds s\<^sub>0 debug ob) (and_then (send_event_of E debug ?msg) (exception_reply except_record))
      (\<lambda>_. holds s\<^sub>0 debug ob)"
    by (rule triple_then [OF send_event_triple [OF assms(1,3)] reply])
  then show "triple (\<lambda>s. holds s\<^sub>0 debug ob s \<and> rec = load (kmem s) except_record sizeof_EXCEPTION_RECORD)
      (and_then (send_event_of E debug ?msg) (exception_reply except_record)) (\<lambda>_. holds s\<^sub>0 debug ob)"
    by (rule triple_weaken) simp_all
qed

lemma exception_triple:
  assumes "room s\<^sub>0" and "still E" and "except_record \<noteq> NULL"
  shows "triple (holds s\<^sub>0 NULL NULL) (exception_unfiltered E except_record first_chance) (\<lambda>_. holds s\<^sub>0 NULL NULL)"
proof -
  have maybe: "triple (\<lambda>s. holds s\<^sub>0 debug NULL s \<and> (wanted \<longrightarrow> debug \<noteq> NULL))
      (if \<not> wanted then ret 0 else exception_event E except_record first_chance debug)
      (\<lambda>_. holds s\<^sub>0 debug NULL)" for debug wanted
  proof (cases "wanted \<and> debug \<noteq> NULL")
    case True
    then show ?thesis using triple_weaken [OF exception_event_triple [OF assms(2,3)]] by simp
  next
    case False
    then show ?thesis by (cases wanted) (auto simp: triple_def)
  qed
  show ?thesis
    unfolding exception_unfiltered_def
    by (rule triple_then [OF find_event_triple [OF assms(1)]], simp only: split_paired_all prod.case,
        rule triple_then [OF maybe], rule triple_then [OF give_back_triple], rule triple_ret)
qed

end
