(* ===== verification/Debug_Demo.thy ===== *)
theory Debug_Demo
  imports Handler_Balance
begin

text \<open>
  One debugger with one debugged process, in an executive where every lookup of an even id
  succeeds and where waiting changes nothing: the state and environment in which the properties of
  the handlers are tried out.
\<close>

definition demo_item :: dbg_item where
  "demo_item = \<lparr>debugger = 0x1000, debugged = 0x2000, active = 1, ref_count = 1, item_chan = 0x5000,
     item_filter = empty_filter\<lparr>event_mask := 0x1F\<rparr>\<rparr>"

definition demo_state :: "(bool, unit) drv_state_scheme" where
  "demo_state = \<lparr>kmem = (\<lambda>a. if a = 0x100 then 0x20 else 0), pool = [0x7000, 0x8000], cr0 = 0, intr = True, irql = 0, calls = [],
     descs = Map.empty, hook_descriptor_list = [],
     chans = [0x5000 \<mapsto> channel_init flag_event 736 88 (replicate 824 0)], items = [0x4000 \<mapsto> demo_item],
     dbg_item_list = [0x4000], ntkrn_base = 0, thread_enth_offs = 0, sc_key = 0, nt_terminate_process = 0,
     nt_resume_thread = 0, term_events = Map.empty\<rparr>"

text \<open>The object of the process or thread with an id is at 256 times the id.\<close>

definition demo_lookup :: "handle \<Rightarrow> ntstatus \<times> addr" where
  "demo_lookup h = (if h = 0x10 \<or> h = 0x20 \<or> h = 0x30 then (STATUS_SUCCESS, 256 * h) else (STATUS_UNSUCCESSFUL, 0))"

definition demo_env :: "(bool, (bool, 'z) drv_state_scheme) kenv" where
  "demo_env = \<lparr>events = flag_event, cur_process = 0x1000, cur_process_id = 0x10, cur_thread_id = 0x11, from_user = True,
     lookup_process = demo_lookup, ref_process = demo_lookup, ref_thread = demo_lookup,
     ob_open = (\<lambda>_. (STATUS_SUCCESS, 0x44)), id_of_process = (\<lambda>p. p div 256), id_of_thread = (\<lambda>t. t div 256),
     process_of_thread = (\<lambda>_. 0x2000), system_thread = (STATUS_SUCCESS, 0x48), thread_info = (\<lambda>_. (0x21, 0x7FFDE000)),
     readable = (\<lambda>_ _. True), stack = replicate 736 0, block_junk = (\<lambda>_. replicate 1000 0),
     terminate = (\<lambda>_ _ s. (STATUS_SUCCESS, s)), old_terminate = (\<lambda>_ _ s. (STATUS_SUCCESS, s)),
     old_term_thread = (\<lambda>_ _ s. (STATUS_SUCCESS, s)), old_create = (\<lambda>_ s. (STATUS_SUCCESS, s)),
     send_wait = (\<lambda>_ _ s. ((1, cont_bytes \<lparr>proc_id = 0x20, status = 3, new_record = replicate 80 7\<rparr>), s)),
     take_msg = (\<lambda>_ s. ((1, replicate 736 0), s)), answer = (\<lambda>_ _ s. (1, s))\<rparr>"

lemma NT_UNSUCCESSFUL [simp]: "\<not> NT_SUCCESS 0xC0000001"
  by (simp add: NT_SUCCESS_def sint_uint signed_take_bit_def)

lemma demo_still: "still (demo_env :: (bool, (bool, 'z) drv_state_scheme) kenv)"
  by (simp add: still_def demo_env_def same_registry_def found_objects_def demo_lookup_def)

lemma demo_found: "found_objects (demo_env :: (bool, (bool, 'z) drv_state_scheme) kenv)"
  by (rule conjunct1 [OF demo_still [unfolded still_def]])

lemma demo_items_ok: "items_ok demo_state"
  by (auto simp: items_ok_def demo_state_def demo_item_def split: if_splits)

lemma demo_room: "room demo_state"
  by (simp add: room_def item_refs_def demo_state_def demo_item_def)

lemma demo_relations: "relations demo_state = [(0x4000, 0x1000, 0x2000)]"
  by (simp add: relations_def relation_of_def demo_state_def demo_item_def)

lemma demo_refs: "item_refs demo_state a = (if a = 0x4000 then 1 else 0)"
  by (simp add: item_refs_def demo_state_def demo_item_def)

lemma demo_filters: "filters_in_range demo_state"
  by (simp add: filters_in_range_def demo_state_def demo_item_def empty_filter_def)

lemma demo_pid [simp]: "rd32 (kmem demo_state) 0x100 = 0x20"
  by (simp add: rd32_def demo_state_def)

lemma demo_found_process [simp]:
  "lookup_process demo_env 0x20 = (STATUS_SUCCESS, 0x2000)" "lookup_process demo_env 0x30 = (STATUS_SUCCESS, 0x3000)"
  "cur_process demo_env = 0x1000"
  by (simp_all add: demo_env_def demo_lookup_def)

lemmas demo_simps = demo_items_ok demo_room demo_still demo_found demo_filters

end
