(* ===== verification/Debug_Properties.thy ===== *)
theory Debug_Properties
  imports Debug_Demo
begin

text \<open>
  The properties of the registry and of the handlers and hooks of the driver that work on one
  item, each with an instance on one debugger and one debugged process.
\<close>

section \<open>What is taken is given back\<close>

text \<open>The registry, the references to items and to objects are as before.\<close>

definition balanced :: "('e, 'z) drv_state_scheme \<Rightarrow> ('e, 'z) drv_state_scheme \<Rightarrow> bool" where
  "balanced s t \<longleftrightarrow> items_ok t \<and> relations t = relations s \<and> item_refs t = item_refs s
     \<and> (\<forall>p. obj_count (calls t) p = obj_count (calls s) p)"

lemma triple_balanced:
  assumes "\<And>s\<^sub>0. room s\<^sub>0 \<Longrightarrow> triple (holds s\<^sub>0 NULL NULL) f (\<lambda>_. holds s\<^sub>0 NULL NULL)" and "items_ok s" and "room s"
  shows "\<exists>v t. f s = Inr (v, t) \<and> balanced s t"
  using tripleD [OF assms(1) [OF assms(3)] holds_start [OF assms(2)]]
  by (auto simp: balanced_def holds_def taken_def)

lemma handlers_balance:
  assumes "items_ok s" and "room s" and "filters_in_range s" and "still E" and "buffers_ok d" and "except_record \<noteq> NULL"
  shows "\<forall>f \<in> {dbg_set_filter E d, dbg_get_message E d, dbg_countinue E d,
      NewNtCreateThread E p_thread h_process context suspended, dbg_process_exception E except_record first_chance}.
    \<exists>v t. f s = Inr (v, t) \<and> balanced s t"
proof -
  have fo: "found_objects E" using assms(4) by (simp add: still_def)
  note b = triple_balanced [OF _ assms(1,2)]
  have "\<exists>v t. dbg_process_exception E except_record first_chance s = Inr (v, t) \<and> balanced s t"
    unfolding exception_without_filters [OF assms(1,3,6)] by (rule b [OF exception_triple [OF _ assms(4,6)]])
  then show ?thesis
    using b [OF set_filter_triple [OF _ fo assms(5)]] b [OF get_message_triple [OF _ assms(4,5)]]
      b [OF countinue_triple [OF _ assms(4,5)]] b [OF create_thread_triple [OF _ assms(4)]] by simp
qed

text \<open>C12: the handlers that work on an item run without a fault from every well-formed registry and
  give back all they took: no use after free, no \<open>NULL\<close> access, no reference to an item or to a
  process object kept or given back twice, and the debug relations are as before.\<close>

theorem handlers_balanced:
  assumes "items_ok s" and "room s" and "filters_in_range s" and "still E" and "buffers_ok d" and "except_record \<noteq> NULL"
  shows "\<forall>f \<in> {dbg_set_filter E d, dbg_get_message E d, dbg_countinue E d,
      NewNtCreateThread E p_thread h_process context suspended, dbg_process_exception E except_record first_chance}.
    \<exists>v t. f s = Inr (v, t) \<and> balanced s t"
  using assms by (rule handlers_balance)

definition demo_call :: syscall where
  "demo_call = \<lparr>number = 5, in_data = 0x100, in_size = 812, out_data = 0x800, out_size = 736\<rparr>"

lemma demo_buffers: "buffers_ok demo_call"
  by (simp add: buffers_ok_def demo_call_def)

lemma handlers_balanced_witness:
  "(\<exists>v t. dbg_set_filter demo_env demo_call demo_state = Inr (v, t) \<and> balanced demo_state t)
   \<and> (\<exists>v t. dbg_process_exception demo_env 0x100 1 demo_state = Inr (v, t) \<and> balanced demo_state t)"
  using handlers_balanced [OF demo_items_ok demo_room demo_filters demo_still demo_buffers, of "0x100" 0 0 0 True 1]
  by simp

section \<open>The filter of an item\<close>

lemma set_item_twice: "set_item a k (set_item a j s) = set_item a k s"
  by (simp add: set_item_def)

lemma deref_taken:
  assumes "items_ok s" and "items s a = Some i" and "unat (ref_count i) < 2 ^ 32 - 1"
    and "ref_count j = ref_count i + 1" and "item_chan j = item_chan i"
  shows "dbg_deref_item a (set_item a j s) = Inr ((), set_item a (j\<lparr>ref_count := ref_count i\<rparr>) s)"
proof -
  have r: "ref_count i + 1 \<noteq> 0" using unat_inc [OF assms(3)] by (metis nat.distinct(1) unat_0)
  have nz: "ref_count i \<noteq> 0" using items_okD(2) [OF assms(1,2)] .
  have ok: "items_ok (set_item a j s)" by (rule items_ok_set [OF assms(1,2)]) (simp_all add: r assms)
  have it: "items (set_item a j s) a = Some j" by (simp add: kernel_simps)
  show ?thesis using dbg_deref_item_run [OF ok it] nz by (simp add: set_item_def assms)
qed

lemma set_filter_run:
  assumes "items_ok s" and "room s" and "in_data d \<noteq> NULL" and "in_data d + 4 \<noteq> NULL"
    and "in_size d = word_of_nat sizeof_set_filter_data"
    and "lookup_process E (rd32 (kmem s) (in_data d)) = (STATUS_SUCCESS, process)" and "process \<noteq> NULL"
  shows "\<exists>t. let a = relation_find (cur_process E) process (relations s) in
    dbg_set_filter E d s = Inr (if a = NULL then 0 else 1, t)
    \<and> items t = (if a = NULL then items s
        else (items s)(a \<mapsto> (the (items s a))\<lparr>item_filter := read_filter (load (kmem s) (in_data d + 4) 808)\<rparr>))"
proof -
  let ?a = "relation_find (cur_process E) process (relations s)"
  let ?s = "log_call SpinAcquire (log_call (ObRef process) s)"
  have ok: "items_ok (log_call (ObRef process) s)" using assms(1) by simp
  have find: "dbg_find_item (cur_process E) process (log_call (ObRef process) s)
      = Inr (?a, log_call SpinRelease (take_ref ?a ?s))"
    using dbg_find_item_run [OF ok, of "cur_process E" process] by simp
  show ?thesis
  proof (cases "?a = NULL")
    case True
    have "take_ref NULL ?s = ?s" by (rule take_ref_null) (use assms(1) in simp)
    then show ?thesis
      using assms find True
      by (simp add: dbg_set_filter_def read32_def find_mine_def take_object_def and_then_def drop_object_def kernel_simps)
  next
    case False
    from relation_find_in [OF False] obtain x y where "(?a, x, y) \<in> set (relations s)" by blast
    then obtain i where i: "items s ?a = Some i" by (rule relations_item [OF assms(1)])
    let ?u = "log_call SpinRelease ?s"
    have u: "items_ok ?u" "items ?u ?a = Some i" using assms(1) i by (simp_all add: kernel_simps)
    have small: "unat (ref_count i) < 2 ^ 32 - 1" using assms(2) i by (auto simp: room_def item_refs_def dest: spec [of _ ?a])
    have taken: "log_call SpinRelease (take_ref ?a ?s) = set_item ?a (i\<lparr>ref_count := ref_count i + 1\<rparr>) ?u"
      using i by (simp add: take_ref_def kernel_simps set_item_def log_call_def)
    have km: "kmem (set_item b j ?u) = kmem s" for b j by (simp add: set_item_def kernel_simps)
    let ?F = "read_filter (load (kmem s) (in_data d + 4) 808)"
    let ?j = "i\<lparr>ref_count := ref_count i + 1, item_filter := ?F\<rparr>"
    have "?j\<lparr>ref_count := ref_count i\<rparr> = i\<lparr>item_filter := ?F\<rparr>" by (cases i) simp
    with deref_taken [OF u small, of ?j]
    have given: "dbg_deref_item ?a (set_item ?a ?j ?u) = Inr ((), set_item ?a (i\<lparr>item_filter := ?F\<rparr>) ?u)" by simp
    define a where "a = ?a"
    note facts = find taken i False given
    have "dbg_set_filter E d s = Inr (1, log_call (ObDeref process) (set_item a (i\<lparr>item_filter := ?F\<rparr>) ?u))"
      using assms facts unfolding a_def [symmetric]
      by (simp add: dbg_set_filter_def read32_def read_block_def find_mine_def take_object_def and_then_def
          drop_object_def kernel_simps the_item_def km set_item_twice)
    then show ?thesis using i False by (simp add: a_def kernel_simps Let_def)
  qed
qed

text \<open>C18: \<open>dbg_set_filter\<close> succeeds exactly when the caller debugs the process with the id in the
  buffer, and then stores the 808 bytes behind the id as the filter of that item, and of no other;
  when it does not, no item changes.\<close>

theorem set_filter_stores:
  assumes "items_ok s" and "room s" and "in_data d \<noteq> NULL" and "in_data d + 4 \<noteq> NULL"
    and "in_size d = word_of_nat sizeof_set_filter_data"
    and "lookup_process E (rd32 (kmem s) (in_data d)) = (STATUS_SUCCESS, process)" and "process \<noteq> NULL"
  shows "\<exists>t. let a = relation_find (cur_process E) process (relations s) in
    dbg_set_filter E d s = Inr (if a = NULL then 0 else 1, t)
    \<and> items t = (if a = NULL then items s
        else (items s)(a \<mapsto> (the (items s a))\<lparr>item_filter := read_filter (load (kmem s) (in_data d + 4) 808)\<rparr>))"
  by (rule set_filter_run [OF assms])

lemma set_filter_stores_witness:
  "\<exists>t. dbg_set_filter demo_env demo_call demo_state = Inr (1, t)
    \<and> items t 0x4000 = Some (demo_item\<lparr>item_filter := read_filter (load (kmem demo_state) 0x104 808)\<rparr>)"
proof -
  have "in_data demo_call = 0x100" "in_size demo_call = 812" by (simp_all add: demo_call_def)
  moreover have "relation_find 0x1000 0x2000 (relations demo_state) = 0x4000"
    by (simp add: demo_relations relation_find_def)
  moreover have "items demo_state 0x4000 = Some demo_item" by (simp add: demo_state_def)
  ultimately show ?thesis
    using set_filter_stores [OF demo_items_ok demo_room, of demo_call demo_env "0x2000"] by (auto simp: Let_def)
qed

section \<open>Messages\<close>

text \<open>C17: every message the driver makes has the size of the channel and the debugger's buffer, whatever
  event it carries and whatever the memory of the variable held before, and the debugger reads
  from it exactly the event that was written; so does the driver from the reply.\<close>

theorem messages_round_trip:
  assumes "event_fits (event m)" and "event_code m = code_of (event m)" and "length before = sizeof_dbg_msg"
    and "length (new_record c) = sizeof_EXCEPTION_RECORD"
  shows "length (msg_bytes before m) = sizeof_dbg_msg \<and> read_msg (msg_bytes before m) = Some m
    \<and> length (cont_bytes c) = sizeof_cont_dat \<and> read_cont (cont_bytes c) = c"
  using length_msg [OF assms(1,3)] read_msg_bytes [OF assms(1,2)] read_cont_bytes [OF assms(4)] assms(4)
  by (simp add: cont_bytes_def)

lemma messages_round_trip_witness:
  "read_msg (msg_bytes (replicate 736 0xAA) \<lparr>process_id = 1, thread_id = 2, event_code = 2, event = Terminated 3 4\<rparr>)
     = Some \<lparr>process_id = 1, thread_id = 2, event_code = 2, event = Terminated 3 4\<rparr>"
  using messages_round_trip [of "\<lparr>process_id = 1, thread_id = 2, event_code = 2, event = Terminated 3 4\<rparr>"
      "replicate 736 0xAA" "\<lparr>proc_id = 1, status = 1, new_record = replicate 80 0\<rparr>"] by simp

section \<open>Exceptions\<close>

lemma find_event_found:
  fixes process :: addr
  assumes "items_ok s" and "relation_find NULL process (relations s) = a" and "a \<noteq> NULL" and "items s a = Some i"
  defines "u \<equiv> log_call SpinRelease (take_ref a (log_call SpinAcquire s))"
  shows "find_event_item process code s = Inr ((a, event_mask (item_filter i) AND code \<noteq> 0), u)"
    and "the_item a u = Inr (i\<lparr>ref_count := ref_count i + 1\<rparr>, u)"
proof -
  show item: "the_item a u = Inr (i\<lparr>ref_count := ref_count i + 1\<rparr>, u)"
    using assms(3,4) by (simp add: u_def the_item_def take_ref_def kernel_simps)
  show "find_event_item process code s = Inr ((a, event_mask (item_filter i) AND code \<noteq> 0), u)"
    using dbg_find_item_run [OF assms(1), of NULL process] assms(2,3) item
    by (simp add: find_event_item_def and_then_def u_def)
qed

text \<open>The exception filters never decide anything. As long as the number of filters is in range,
  \<open>dbg_process_exception\<close> does exactly what it would do without the loop over them; and a number
  above 100, which \<open>dbg_set_filter\<close> stores unchecked, makes the loop read past the array as soon as
  no filter inside it contains the code.\<close>

theorem exception_filters_ignored:
  assumes "items_ok s" and "except_record \<noteq> NULL"
  shows "(filters_in_range s \<longrightarrow>
      dbg_process_exception E except_record first_chance s = exception_unfiltered E except_record first_chance s)
    \<and> (\<forall>a i. relation_find NULL (cur_process E) (relations s) = a \<and> a \<noteq> NULL \<and> items s a = Some i
        \<and> event_mask (item_filter i) AND DBG_EXCEPTION \<noteq> 0 \<and> 100 < filtr_count (item_filter i)
        \<and> (\<forall>k < FILTER_MAX. \<not> (filtr_from (filters (item_filter i) ! k) \<le> rd32 (kmem s) except_record
              \<and> rd32 (kmem s) except_record \<le> filtr_to (filters (item_filter i) ! k)))
        \<longrightarrow> dbg_process_exception E except_record first_chance s = Inl Out_Of_Bounds)"
proof (intro conjI impI allI)
  assume "filters_in_range s"
  then show "dbg_process_exception E except_record first_chance s = exception_unfiltered E except_record first_chance s"
    by (rule exception_without_filters [OF assms(1) _ assms(2)])
next
  fix a i
  assume a: "relation_find NULL (cur_process E) (relations s) = a \<and> a \<noteq> NULL \<and> items s a = Some i
        \<and> event_mask (item_filter i) AND DBG_EXCEPTION \<noteq> 0 \<and> 100 < filtr_count (item_filter i)
        \<and> (\<forall>k < FILTER_MAX. \<not> (filtr_from (filters (item_filter i) ! k) \<le> rd32 (kmem s) except_record
              \<and> rd32 (kmem s) except_record \<le> filtr_to (filters (item_filter i) ! k)))"
  then have scan: "filter_scan (rd32 (kmem s) except_record) (item_filter i) 0 = Inl Out_Of_Bounds"
    by (intro filter_scan_out_of_range) auto
  have found: "relation_find NULL (cur_process E) (relations s) = a" "a \<noteq> NULL" "items s a = Some i" using a by auto
  have "event_mask (item_filter i) AND DBG_EXCEPTION \<noteq> 0" using a by blast
  with scan find_event_found [OF assms(1) found] assms(2)
  show "dbg_process_exception E except_record first_chance s = Inl Out_Of_Bounds"
    by (simp add: dbg_process_exception_def read32_def and_then_def)
qed

definition wide_filter :: event_filt where
  "wide_filter = \<lparr>event_mask = 1, filtr_count = 101, filters = replicate 100 \<lparr>filtr_from = 1, filtr_to = 1\<rparr>\<rparr>"

definition filtered_state :: "(bool, unit) drv_state_scheme" where
  "filtered_state = set_item 0x4000 (demo_item\<lparr>item_filter := wide_filter\<rparr>) demo_state"

lemma exception_filters_ignored_witness:
  "dbg_process_exception (demo_env\<lparr>cur_process := 0x2000\<rparr>) 0x300 1 filtered_state = Inl Out_Of_Bounds"
proof -
  have i: "items demo_state 0x4000 = Some demo_item" by (simp add: demo_state_def)
  have ok: "items_ok filtered_state"
    unfolding filtered_state_def by (rule items_ok_set [OF demo_items_ok i]) (simp_all add: demo_item_def)
  have rel: "relations filtered_state = relations demo_state"
    unfolding filtered_state_def by (rule relations_set [OF i]) simp_all
  have it: "items filtered_state 0x4000 = Some (demo_item\<lparr>item_filter := wide_filter\<rparr>)"
    by (simp add: filtered_state_def kernel_simps)
  have "rd32 (kmem filtered_state) 0x300 = 0" by (simp add: filtered_state_def set_item_def demo_state_def rd32_def)
  then show ?thesis
    using exception_filters_ignored [OF ok, of "0x300" "demo_env\<lparr>cur_process := 0x2000\<rparr>" 1] it
    by (simp add: rel demo_relations relation_find_def wide_filter_def)
qed

lemma dispatches_log: "count_list (calls (log_call c u)) OldDispatchException
    = count_list (calls u) OldDispatchException + (if c = OldDispatchException then 1 else 0)"
  by (simp add: kernel_simps)

text \<open>Giving an item back that the list still refers to changes neither the memory nor the calls of the dispatcher.\<close>

lemma give_back_frame:
  assumes "holds s p NULL w" and "p \<noteq> NULL"
  shows "\<exists>v. give_back p w = Inr ((), v) \<and> kmem v = kmem w
    \<and> count_list (calls v) OldDispatchException = count_list (calls w) OldDispatchException"
proof -
  from assms have ok: "items_ok w" and more: "1 < item_refs w p" by (simp_all add: holds_def taken_def)
  then obtain j where j: "items w p = Some j" by (auto simp: item_refs_def split: option.splits)
  then have "ref_count j \<noteq> 1" using more by (auto simp: item_refs_def)
  then show ?thesis using dbg_deref_item_run [OF ok j] assms(2) by (simp add: give_back_def set_item_def dispatches_log)
qed

text \<open>What the reply does, once the debugger has been asked.\<close>

lemma exception_event_reply:
  assumes "rec \<noteq> NULL" and "\<And>c m u. send_wait E c m u = ((1, cont_bytes r), u)" and "length (new_record r) = sizeof_EXCEPTION_RECORD"
    and "the_item a u = Inr (i, u)" and "the_chan (item_chan i) u = Inr (c, u)"
  shows "exception_event E rec first_chance a u = Inr (if status r AND RES_CONTINUE \<noteq> 0 then 1 else 0,
    if status r AND RES_CORRECT_FRAME \<noteq> 0 then set_mem (store (kmem u) rec (new_record r)) u else u)"
  using assms read_cont_bytes [OF assms(3)]
  by (simp add: exception_event_def exception_reply_def send_event_of_def and_then_def read_block_def write_block_def Let_def)

text \<open>An exception that is nobody's business.\<close>

lemma dispatch_unasked:
  assumes "items_ok s" and "filters_in_range s" and "rec \<noteq> NULL"
    and "user_mode \<Longrightarrow> relation_find NULL (cur_process E) (relations s) = NULL"
  shows "\<exists>t. NewKiDispatchException E rec user_mode first_chance s = Inr ((), t) \<and> kmem t = kmem s
    \<and> count_list (calls t) OldDispatchException = count_list (calls s) OldDispatchException + 1"
proof (cases user_mode)
  case True
  have "dbg_find_item NULL (cur_process E) s = Inr (NULL, log_call SpinRelease (log_call SpinAcquire s))"
    using dbg_find_item_run [OF assms(1), of NULL "cur_process E"] assms(1,4) True take_ref_null [of "log_call SpinAcquire s"]
    by simp
  then show ?thesis
    using True assms(4) by (simp add: NewKiDispatchException_def exception_without_filters [OF assms(1-3)]
        exception_unfiltered_def find_event_item_def give_back_def and_then_def Let_def kernel_simps)
qed (simp add: NewKiDispatchException_def and_then_def kernel_simps)

text \<open>An exception in a process that is debugged.\<close>

lemma dispatch_debugged:
  assumes "items_ok s" and "room s" and "filters_in_range s" and "rec \<noteq> NULL"
    and "\<And>c m u. send_wait E c m u = ((1, cont_bytes r), u)" and "length (new_record r) = sizeof_EXCEPTION_RECORD"
    and "a = relation_find NULL (cur_process E) (relations s)" and "a \<noteq> NULL" and "items s a = Some i"
  defines "asked \<equiv> event_mask (item_filter i) AND DBG_EXCEPTION \<noteq> 0"
  shows "\<exists>t. NewKiDispatchException E rec True first_chance s = Inr ((), t)
    \<and> kmem t = (if asked \<and> status r AND RES_CORRECT_FRAME \<noteq> 0 then store (kmem s) rec (new_record r) else kmem s)
    \<and> count_list (calls t) OldDispatchException = count_list (calls s) OldDispatchException
        + (if asked \<and> status r AND RES_CONTINUE \<noteq> 0 then 0 else 1)"
proof -
  define u where "u = log_call SpinRelease (take_ref a (log_call SpinAcquire s))"
  note found = find_event_found [OF assms(1) assms(7) [symmetric] assms(8,9), folded u_def]
  have held: "holds s a NULL u"
    using tripleD [OF find_triple [OF assms(2)] holds_start [OF assms(1)], of NULL "cur_process E"]
      dbg_find_item_run [OF assms(1), of NULL "cur_process E"] by (simp add: u_def assms(7))
  have km: "kmem u = kmem s" "count_list (calls u) OldDispatchException = count_list (calls s) OldDispatchException"
    using assms(9) by (simp_all add: u_def take_ref_def kernel_simps set_item_def)
  obtain c where c: "the_chan (item_chan i) u = Inr (c, u)"
    using items_okD(3,4) [OF assms(1,9)] by (auto simp: u_def the_chan_def take_ref_def assms(9) kernel_simps set_item_def)
  let ?w = "if asked \<and> status r AND RES_CORRECT_FRAME \<noteq> 0 then set_mem (store (kmem u) rec (new_record r)) u else u"
  have "holds s a NULL ?w" using held by simp
  from give_back_frame [OF this assms(8)] obtain v where "give_back a ?w = Inr ((), v)" "kmem v = kmem ?w"
      "count_list (calls v) OldDispatchException = count_list (calls ?w) OldDispatchException" by blast
  then show ?thesis
    using exception_event_reply [OF assms(4-6) found(2), of c first_chance] c found(1) km assms(8)
    by (auto simp: NewKiDispatchException_def exception_without_filters [OF assms(1,3,4)] asked_def
        exception_unfiltered_def and_then_def Let_def kernel_simps split: if_splits)
qed

text \<open>C16: an exception in a debugged process goes to the debugger first: with a filter that asks for
  exceptions, the record is replaced in place exactly when the reply says \<open>RES_CORRECT_FRAME\<close>, and the
  kernel's own dispatcher runs exactly when it does not say \<open>RES_CONTINUE\<close>. An exception in kernel
  mode, or in a process nobody debugs, goes to the kernel's dispatcher with the record unchanged.\<close>

theorem dispatch_follows_reply:
  assumes "items_ok s" and "room s" and "filters_in_range s" and "rec \<noteq> NULL"
    and "\<And>c m u. send_wait E c m u = ((1, cont_bytes r), u)" and "length (new_record r) = sizeof_EXCEPTION_RECORD"
  shows "\<forall>user_mode. let a = relation_find NULL (cur_process E) (relations s);
      asked = (user_mode \<and> a \<noteq> NULL \<and> event_mask (item_filter (the (items s a))) AND DBG_EXCEPTION \<noteq> 0) in
    \<exists>t. NewKiDispatchException E rec user_mode first_chance s = Inr ((), t)
      \<and> kmem t = (if asked \<and> status r AND RES_CORRECT_FRAME \<noteq> 0 then store (kmem s) rec (new_record r) else kmem s)
      \<and> count_list (calls t) OldDispatchException = count_list (calls s) OldDispatchException
          + (if asked \<and> status r AND RES_CONTINUE \<noteq> 0 then 0 else 1)"
proof
  fix user_mode
  let ?a = "relation_find NULL (cur_process E) (relations s)"
  show "let a = ?a; asked = (user_mode \<and> a \<noteq> NULL \<and> event_mask (item_filter (the (items s a))) AND DBG_EXCEPTION \<noteq> 0) in
    \<exists>t. NewKiDispatchException E rec user_mode first_chance s = Inr ((), t)
      \<and> kmem t = (if asked \<and> status r AND RES_CORRECT_FRAME \<noteq> 0 then store (kmem s) rec (new_record r) else kmem s)
      \<and> count_list (calls t) OldDispatchException = count_list (calls s) OldDispatchException
          + (if asked \<and> status r AND RES_CONTINUE \<noteq> 0 then 0 else 1)"
  proof (cases "user_mode \<and> ?a \<noteq> NULL")
    case False
    then show ?thesis using dispatch_unasked [OF assms(1,3,4), of user_mode E first_chance] by auto
  next
    case True
    then obtain x y where "(?a, x, y) \<in> set (relations s)" using relation_find_in by blast
    then obtain i where i: "items s ?a = Some i" by (rule relations_item [OF assms(1)])
    show ?thesis using dispatch_debugged [OF assms refl _ i, of first_chance] True i by simp
  qed
qed

lemma dispatch_follows_reply_witness:
  "\<exists>t. NewKiDispatchException (demo_env\<lparr>cur_process := 0x2000\<rparr>) 0x300 True 1 demo_state = Inr ((), t)
     \<and> kmem t = store (kmem demo_state) 0x300 (replicate 80 7) \<and> count_list (calls t) OldDispatchException = 0"
proof -
  let ?r = "\<lparr>proc_id = 0x20, status = 3, new_record = replicate 80 7\<rparr>"
  have "send_wait (demo_env\<lparr>cur_process := 0x2000\<rparr>) c m u = ((1, cont_bytes ?r), u)" for c m u
    by (simp add: demo_env_def)
  note reply = dispatch_follows_reply [OF demo_items_ok demo_room demo_filters _ this, of "0x300" 1]
  have "items demo_state 0x4000 = Some demo_item" "calls demo_state = []" by (simp_all add: demo_state_def)
  moreover have "event_mask (item_filter demo_item) = 0x1F" by (simp add: demo_item_def)
  ultimately show ?thesis
    using spec [OF reply, of True] by (simp add: demo_relations relation_find_def Let_def)
qed

section \<open>Loaded images\<close>

lemma load_event_triple:
  assumes "still E" and "us_buffer name \<noteq> NULL" and "debug \<noteq> NULL"
  shows "triple (holds s\<^sub>0 debug ob) (load_event E name pid img debug) (\<lambda>_. holds s\<^sub>0 debug ob)"
  unfolding load_event_def Let_def
proof (rule triple_then [OF read_block_triple [OF assms(2)]])
  fix bs
  let ?n = "if dll_name_bytes < unat (us_length name) then dll_name_bytes else unat (us_length name)"
  have send: "triple (holds s\<^sub>0 debug ob) (and_then (send_event_of E debug m) (\<lambda>_. ret ())) (\<lambda>_. holds s\<^sub>0 debug ob)" for m
    by (rule triple_then [OF send_event_triple [OF assms(1,3)]], rule triple_ret)
  show "triple (\<lambda>s. holds s\<^sub>0 debug ob s \<and> bs = load (kmem s) (us_buffer name) ?n)
     (and_then (send_event_of E debug (msg_bytes (stack E) \<lparr>process_id = pid, thread_id = cur_thread_id E,
        event_code = DBG_LOAD_DLL, event = Dll_Load (image_base img) (image_size img) (bs @ replicate (dll_name_bytes - ?n) 0)\<rparr>))
      (\<lambda>_. ret ())) (\<lambda>_. holds s\<^sub>0 debug ob)"
    by (rule triple_weaken [OF send]) simp_all
qed

text \<open>The routine for loaded images does not look at the status of its lookup, because it compares
  before it assigns. When the process is not found it goes on with a pointer that was never set;
  when it is, the reference to the process object that the lookup took is never given back, while
  the item it finds is.\<close>

theorem load_image_leaks:
  assumes "items_ok s" and "room s" and "still E" and "us_buffer name \<noteq> NULL"
  shows "if NT_SUCCESS (fst (lookup_process E pid))
    then \<exists>t. load_image_notify_routine E name pid img s = Inr ((), t) \<and> item_refs t = item_refs s
      \<and> relations t = relations s \<and> obj_count (calls t) (snd (lookup_process E pid))
          = obj_count (calls s) (snd (lookup_process E pid)) + 1
    else load_image_notify_routine E name pid img s = Inl Uninit_Read"
proof -
  obtain st process where l: "lookup_process E pid = (st, process)" by (cases "lookup_process E pid")
  have one: "NT_SUCCESS 1" by (simp add: NT_SUCCESS_def)
  show ?thesis
  proof (cases "NT_SUCCESS st")
    case False
    then show ?thesis
      using one by (auto simp: l load_image_notify_routine_def take_object_def and_then_def use_var_def Let_def)
  next
    case True
    have found: "process \<noteq> NULL" using assms(3) True l by (auto simp: still_def found_objects_def dest: spec [of _ pid])
    let ?s = "log_call (ObRef process) s"
    have h: "holds s NULL process ?s" using holds_start [OF assms(1)] found by (simp add: holds_def kernel_simps)
    have "triple (holds s NULL process) (and_then (report_event process DBG_LOAD_DLL (load_event E name pid img)) give_back)
        (\<lambda>_. holds s NULL process)"
      by (rule triple_then [OF report_event_triple [OF assms(2) load_event_triple [OF assms(3,4)]] give_back_triple])
    from tripleD [OF this h] obtain t
      where "and_then (report_event process DBG_LOAD_DLL (load_event E name pid img)) give_back ?s = Inr ((), t)"
        "holds s NULL process t" by auto
    then show ?thesis
      using True l found one
      by (auto simp: load_image_notify_routine_def take_object_def and_then_def use_var_def holds_def taken_def Let_def
          split: sum.splits)
  qed
qed

lemma load_image_leaks_witness:
  "\<exists>t. load_image_notify_routine demo_env \<lparr>us_length = 8, us_buffer = 0x300\<rparr> 0x20 \<lparr>image_base = 0x400000, image_size = 0x1000\<rparr>
      demo_state = Inr ((), t) \<and> obj_count (calls t) 0x2000 = 1"
  using load_image_leaks [OF demo_items_ok demo_room demo_still, of "\<lparr>us_length = 8, us_buffer = 0x300\<rparr>" "0x20"
      "\<lparr>image_base = 0x400000, image_size = 0x1000\<rparr>"]
  by (auto simp: demo_state_def)

end
