(* ===== verification/Attach_Properties.thy ===== *)
theory Attach_Properties
  imports Debug_Demo
begin

text \<open>
  \<open>dbg_attach_call\<close> of \<open>src/kernel/sys/debug.c\<close> on every path: the one that creates a relation, and
  the ones that end in a read of the variable \<open>chan\<close> before it is set.
\<close>

section \<open>A new item\<close>

text \<open>The registry with one more item, as the handler leaves it.\<close>

definition with_item :: "addr \<Rightarrow> dbg_item \<Rightarrow> addr \<Rightarrow> 'e channel \<Rightarrow> ('e, 'z) drv_state_scheme \<Rightarrow> ('e, 'z) drv_state_scheme" where
  "with_item a i c ch s = s\<lparr>items := (items s)(a \<mapsto> i), chans := (chans s)(c \<mapsto> ch), dbg_item_list := dbg_item_list s @ [a]\<rparr>"

lemma with_item_simps [kernel_simps]:
  "items (with_item a i c ch s) = (items s)(a \<mapsto> i)" "chans (with_item a i c ch s) = (chans s)(c \<mapsto> ch)"
  "dbg_item_list (with_item a i c ch s) = dbg_item_list s @ [a]" "calls (with_item a i c ch s) = calls s"
  by (simp_all add: with_item_def)

lemma with_item_ok:
  assumes "items_ok s" and "items s a = None" and "a \<noteq> NULL" and "chans s c = None" and "c \<noteq> NULL"
    and "ref_count i \<noteq> 0" and "item_chan i = c" and "active i \<noteq> 0"
  shows "items_ok (with_item a i c ch s)"
    and "relations (with_item a i c ch s) = relations s @ [(a, debugger i, debugged i)]"
    and "item_refs (with_item a i c ch s) = (item_refs s)(a := unat (ref_count i))"
proof -
  note ok = items_okE [OF assms(1)]
  have new: "item_chan j \<noteq> c" if "items s b = Some j" for b j using ok(4) [OF that] assms(4) by auto
  show "items_ok (with_item a i c ch s)"
  proof (rule items_okI)
    show "distinct (dbg_item_list (with_item a i c ch s))" using ok(1,2) assms(2) by (auto simp: kernel_simps)
    show "set (dbg_item_list (with_item a i c ch s)) = dom (items (with_item a i c ch s))"
      using ok(2) by (auto simp: kernel_simps)
    show "items (with_item a i c ch s) NULL = None" using ok(3) assms(3) by (simp add: kernel_simps)
    show "ref_count k \<noteq> 0 \<and> item_chan k \<noteq> NULL \<and> chans (with_item a i c ch s) (item_chan k) \<noteq> None"
      if "items (with_item a i c ch s) b = Some k" for b k
      using that ok(4) [of b k] assms(5-7) by (auto simp: kernel_simps split: if_splits)
    show "b = b'" if "items (with_item a i c ch s) b = Some k" "items (with_item a i c ch s) b' = Some l"
      "item_chan k = item_chan l" for b b' k l
      using that ok(5) [of b k b' l] new [of b k] new [of b' l] assms(7) by (auto simp: kernel_simps split: if_splits)
  qed
  have out: "a \<notin> set (dbg_item_list s)" using ok(2) assms(2) by auto
  have "map (relation_of ((items s)(a \<mapsto> i))) [b \<leftarrow> bs. active (the (((items s)(a \<mapsto> i)) b)) \<noteq> 0]
      = map (relation_of (items s)) [b \<leftarrow> bs. active (the (items s b)) \<noteq> 0]" if "a \<notin> set bs" for bs
    using that by (induction bs) (auto simp: relation_of_def)
  from this [OF out] show "relations (with_item a i c ch s) = relations s @ [(a, debugger i, debugged i)]"
    using assms(8) by (simp add: relations_def kernel_simps relation_of_def)
  show "item_refs (with_item a i c ch s) = (item_refs s)(a := unat (ref_count i))"
    by (auto simp: item_refs_def kernel_simps fun_eq_iff)
qed

section \<open>Attaching\<close>

text \<open>A process has at most one debugger.\<close>

definition one_debugger :: "('e, 'z) drv_state_scheme \<Rightarrow> bool" where
  "one_debugger s \<longleftrightarrow> distinct (map (\<lambda>(a, x, y). y) (relations s))"

text \<open>Two blocks for the channel and the item, fresh and different.\<close>

definition fresh_blocks :: "addr \<Rightarrow> addr \<Rightarrow> ('e, 'z) drv_state_scheme \<Rightarrow> bool" where
  "fresh_blocks c a s \<longleftrightarrow> take 2 (pool s) = [c, a] \<and> c \<noteq> NULL \<and> a \<noteq> NULL \<and> chans s c = None \<and> items s a = None"

lemma relation_find_no:
  "relation_find NULL y rs = NULL \<Longrightarrow> \<forall>(a, x, y') \<in> set rs. a \<noteq> NULL \<Longrightarrow> y \<notin> (\<lambda>(a, x, y). y) ` set rs" if "y \<noteq> NULL"
  using relation_find_none [of NULL y rs] that by fastforce

lemma attach_run:
  assumes "items_ok s" and "fresh_blocks c a s" and "in_size d = 4" and "in_data d \<noteq> NULL"
    and "lookup_process E (rd32 (kmem s) (in_data d)) = (st, process)" and "NT_SUCCESS st" and "process \<noteq> NULL"
    and "process \<noteq> cur_process E" and "relation_find NULL process (relations s) = NULL"
  shows "\<exists>t. dbg_attach_call E d s = Inr (1, t)
    \<and> items t = (items s)(a \<mapsto> \<lparr>debugger = cur_process E, debugged = process, active = 1, ref_count = 1,
        item_chan = c, item_filter = empty_filter\<rparr>)
    \<and> chans t = (chans s)(c \<mapsto> channel_init (events E) 736 88 (take 824 (block_junk E c)))
    \<and> dbg_item_list t = dbg_item_list s @ [a] \<and> kmem t = kmem s
    \<and> calls t = calls s @ [ObRef process, SpinAcquire, SpinRelease, PoolAlloc 912 c, PoolAlloc 836 a,
         ObRef (cur_process E), ObRef process, ObDeref process]"
proof -
  let ?s = "log_call (ObRef process) s"
  have ok: "items_ok ?s" using assms(1) by simp
  have null: "take_ref NULL (log_call SpinAcquire ?s) = log_call SpinAcquire ?s" by (rule take_ref_null) (use ok in simp)
  have find: "dbg_find_item NULL process ?s = Inr (NULL, log_call SpinRelease (log_call SpinAcquire ?s))"
    using dbg_find_item_run [OF ok, of NULL process] assms(9) null by simp
  obtain ps where ps: "pool s = c # a # ps"
    using assms(2) by (cases "pool s"; cases "tl (pool s)") (auto simp: fresh_blocks_def numeral_2_eq_2)
  from assms(2) have nn: "c \<noteq> NULL" "a \<noteq> NULL" by (simp_all add: fresh_blocks_def)
  show ?thesis
    using assms find ps nn
    by (simp add: dbg_attach_call_def attach_body_def read32_def take_object_def and_then_def channel_alloc_def
        mem_alloc_def Let_def kernel_simps dbg_new_item_def the_item_def dbg_deref_item_def set_item_def drop_object_def
        sizeof_channel_def sizeof_dbg_item_def log_call_def)
qed

lemma attach_adds:
  assumes "items_ok s" and "one_debugger s" and "fresh_blocks c a s" and "in_size d = 4" and "in_data d \<noteq> NULL"
    and "lookup_process E (rd32 (kmem s) (in_data d)) = (st, process)" and "NT_SUCCESS st" and "process \<noteq> NULL"
    and "process \<noteq> cur_process E" and "relation_find NULL process (relations s) = NULL"
  shows "\<exists>t. dbg_attach_call E d s = Inr (1, t) \<and> items_ok t \<and> one_debugger t
    \<and> relations t = relations s @ [(a, cur_process E, process)] \<and> item_refs t = (item_refs s)(a := 1)
    \<and> (\<forall>p. obj_count (calls t) p = obj_count (calls s) p + (if p = cur_process E \<or> p = process then 1 else 0))
    \<and> (\<exists>ch. chans t c = Some ch \<and> snd_size ch = 736 \<and> rcv_size ch = 88 \<and> released ch = 0)"
proof -
  let ?i = "\<lparr>debugger = cur_process E, debugged = process, active = 1, ref_count = 1, item_chan = c, item_filter = empty_filter\<rparr>"
  let ?ch = "channel_init (events E) 736 88 (take 824 (block_junk E c))"
  from attach_run [OF assms(1,3-10)] obtain t where t: "dbg_attach_call E d s = Inr (1, t)"
      "items t = (items s)(a \<mapsto> ?i)" "chans t = (chans s)(c \<mapsto> ?ch)" "dbg_item_list t = dbg_item_list s @ [a]"
      "calls t = calls s @ [ObRef process, SpinAcquire, SpinRelease, PoolAlloc 912 c, PoolAlloc 836 a,
         ObRef (cur_process E), ObRef process, ObDeref process]"
    by (elim exE conjE) (rule that)
  let ?w = "with_item a ?i c ?ch s"
  have fresh: "items s a = None" "a \<noteq> NULL" "chans s c = None" "c \<noteq> NULL"
    using assms(3) by (simp_all add: fresh_blocks_def)
  note new = with_item_ok [OF assms(1) fresh, of ?i ?ch, simplified]
  have same: "items t = items ?w" "chans t = chans ?w" "dbg_item_list t = dbg_item_list ?w"
    by (simp_all only: t(2-4) with_item_simps)
  then have ok: "items_ok t = items_ok ?w" "relations t = relations ?w" "item_refs t = item_refs ?w"
    by (simp_all only: items_ok_def relations_def item_refs_def [abs_def])
  have "process \<notin> (\<lambda>(a, x, y). y) ` set (relations s)"
    by (rule relation_find_no [OF assms(8,10) relations_nonnull [OF assms(1)]])
  then have "one_debugger t" using assms(2) ok new by (simp add: one_debugger_def)
  moreover have "obj_count (calls t) p = obj_count (calls s) p + (if p = cur_process E \<or> p = process then 1 else 0)" for p
    using assms(9) by (simp add: t(5) obj_count_def)
  ultimately show ?thesis using t(1,3) ok new by (simp add: channel_init_def)
qed

text \<open>C15: attaching to a process that nobody debugs, with a fresh pool, creates exactly one relation,
  at the end of the list, between the caller and the process; the item has one reference, both
  process objects one more, and the channel is made for messages of 736 and replies of 88 bytes.
  The registry stays well formed, and a process keeps having at most one debugger.\<close>

theorem attach_adds_relation:
  assumes "items_ok s" and "one_debugger s" and "fresh_blocks c a s" and "in_size d = 4" and "in_data d \<noteq> NULL"
    and "lookup_process E (rd32 (kmem s) (in_data d)) = (st, process)" and "NT_SUCCESS st" and "process \<noteq> NULL"
    and "process \<noteq> cur_process E" and "relation_find NULL process (relations s) = NULL"
  shows "\<exists>t. dbg_attach_call E d s = Inr (1, t) \<and> items_ok t \<and> one_debugger t
    \<and> relations t = relations s @ [(a, cur_process E, process)] \<and> item_refs t = (item_refs s)(a := 1)
    \<and> (\<forall>p. obj_count (calls t) p = obj_count (calls s) p + (if p = cur_process E \<or> p = process then 1 else 0))
    \<and> (\<exists>ch. chans t c = Some ch \<and> snd_size ch = 736 \<and> rcv_size ch = 88 \<and> released ch = 0)"
  using assms by (rule attach_adds)

definition attach_call :: syscall where
  "attach_call = \<lparr>number = 3, in_data = 0x100, in_size = 4, out_data = 0, out_size = 0\<rparr>"

text \<open>The process \<open>0x3000\<close> attaches to the one that already is a debugger.\<close>

definition attach_env :: "(bool, (bool, 'z) drv_state_scheme) kenv" where
  "attach_env = demo_env\<lparr>cur_process := 0x3000, lookup_process := (\<lambda>_. (STATUS_SUCCESS, 0x1000))\<rparr>"

lemma attach_adds_relation_witness:
  "\<exists>t. dbg_attach_call attach_env attach_call demo_state = Inr (1, t)
     \<and> relations t = [(0x4000, 0x1000, 0x2000), (0x8000, 0x3000, 0x1000)]"
proof -
  have "one_debugger demo_state" by (simp add: one_debugger_def demo_relations)
  moreover have "fresh_blocks 0x7000 0x8000 demo_state" by (simp add: fresh_blocks_def demo_state_def)
  moreover have "relation_find NULL 0x1000 (relations demo_state) = NULL"
    by (simp add: demo_relations relation_find_def)
  ultimately show ?thesis
    using attach_adds_relation [OF demo_items_ok, of "0x7000" "0x8000" attach_call attach_env STATUS_SUCCESS "0x1000"]
    by (auto simp: attach_call_def attach_env_def demo_relations)
qed

text \<open>C21: when attaching fails before the channel is allocated (a wrong size, an unknown process, the
  caller itself, a process that is debugged already), the handler reads its variable \<open>chan\<close>,
  which was never set, and may free whatever it holds; in every other case it does not.\<close>

theorem attach_reads_unset_channel:
  assumes "items_ok s" and "room s" and "in_data d \<noteq> NULL"
    and "lookup_process E (rd32 (kmem s) (in_data d)) = (st, process)" and "NT_SUCCESS st \<Longrightarrow> process \<noteq> NULL"
  shows "dbg_attach_call E d s = Inl Uninit_Read \<longleftrightarrow>
    in_size d \<noteq> 4 \<or> \<not> NT_SUCCESS st \<or> process = cur_process E \<or> relation_find NULL process (relations s) \<noteq> NULL"
proof (cases "in_size d \<noteq> 4 \<or> \<not> NT_SUCCESS st \<or> process = cur_process E")
  case True
  then show ?thesis
    using assms(3-5)
    by (auto simp: dbg_attach_call_def attach_body_def read32_def take_object_def and_then_def use_var_def drop_object_def)
next
  case False
  then have c: "in_size d = 4" "NT_SUCCESS st" "process \<noteq> cur_process E" "process \<noteq> NULL" using assms(5) by auto
  let ?s = "log_call (ObRef process) s" and ?a = "relation_find NULL process (relations s)"
  have ok: "items_ok ?s" using assms(1) by simp
  note find = dbg_find_item_run [OF ok, of NULL process, simplified]
  show ?thesis
  proof (cases "?a = NULL")
    case True
    have null: "take_ref NULL (log_call SpinAcquire ?s) = log_call SpinAcquire ?s" by (rule take_ref_null) (use ok in simp)
    have "\<exists>r. dbg_attach_call E d s = Inr r"
      using assms(3,4) c True find null
      by (simp add: dbg_attach_call_def attach_body_def read32_def take_object_def and_then_def channel_alloc_def
          mem_alloc_def Let_def kernel_simps dbg_new_item_def the_item_def dbg_deref_item_def set_item_def
          drop_object_def use_var_def channel_free_def the_chan_def split: list.splits)
    then show ?thesis using c True by auto
  next
    case False
    have "room ?s" using assms(2) by (simp add: room_def)
    from tripleD [OF find_triple [OF this] holds_start [OF ok], of NULL process] find
    have held: "holds ?s ?a NULL (log_call SpinRelease (take_ref ?a (log_call SpinAcquire ?s)))" by simp
    from tripleD [OF give_back_triple held] obtain u
      where u: "dbg_deref_item ?a (log_call SpinRelease (take_ref ?a (log_call SpinAcquire ?s))) = Inr ((), u)"
      using False by (auto simp: give_back_def)
    show ?thesis
      using assms(3,4) c False find u
      by (simp add: dbg_attach_call_def attach_body_def read32_def take_object_def and_then_def use_var_def drop_object_def)
  qed
qed

lemma attach_reads_unset_channel_witness:
  "dbg_attach_call demo_env (attach_call\<lparr>in_size := 8\<rparr>) demo_state = Inl Uninit_Read"
  using attach_reads_unset_channel [OF demo_items_ok demo_room, of "attach_call\<lparr>in_size := 8\<rparr>" demo_env STATUS_SUCCESS "0x2000"]
  by (simp add: attach_call_def)

end
