(* ===== verification/Registry_Properties.thy ===== *)
theory Registry_Properties
  imports Debug_Demo
begin

text \<open>
  The registry of \<open>src/kernel/sys/dbg_item.c\<close> refines its abstraction: the list of debug relations in
  the order they were made, and the number of references to each item. On it, the loop of
  \<open>dbg_process_terminated\<close> ends and removes what it is meant to remove; and the ring test of
  \<open>NewNtTerminateThread\<close> finds the last thread.
\<close>

section \<open>Operations on the abstraction\<close>

definition reg_abs :: "('e, 'z) dstate_scheme \<Rightarrow> (addr \<times> addr \<times> addr) list \<times> (addr \<Rightarrow> nat)" where
  "reg_abs s = (relations s, item_refs s)"

definition abs_find :: "addr \<Rightarrow> addr \<Rightarrow> (addr \<times> addr \<times> addr) list \<times> (addr \<Rightarrow> nat)
    \<Rightarrow> addr \<times> (addr \<times> addr \<times> addr) list \<times> (addr \<Rightarrow> nat)" where
  "abs_find x y R = (let r = relation_find x y (fst R) in
     (r, fst R, if r = NULL then snd R else (snd R)(r := snd R r + 1)))"

definition abs_deref :: "addr \<Rightarrow> (addr \<times> addr \<times> addr) list \<times> (addr \<Rightarrow> nat)
    \<Rightarrow> (addr \<times> addr \<times> addr) list \<times> (addr \<Rightarrow> nat)" where
  "abs_deref a R = (if snd R a = 1 then [r \<leftarrow> fst R. fst r \<noteq> a] else fst R, (snd R)(a := snd R a - 1))"

definition abs_delete :: "addr \<Rightarrow> (addr \<times> addr \<times> addr) list \<times> (addr \<Rightarrow> nat)
    \<Rightarrow> (addr \<times> addr \<times> addr) list \<times> (addr \<Rightarrow> nat)" where
  "abs_delete a R = ([r \<leftarrow> fst R. fst r \<noteq> a], (snd R)(a := snd R a - 1))"

lemma find_abs:
  assumes "items_ok s" and "room s"
  shows "\<exists>r t. dbg_find_item x y s = Inr (r, t) \<and> items_ok t \<and> (r, reg_abs t) = abs_find x y (reg_abs s)"
proof -
  let ?r = "relation_find x y (relations s)"
  obtain r t where t: "dbg_find_item x y s = Inr (r, t)" "items_ok t" "relations t = relations s"
      "r = NULL \<Longrightarrow> item_refs t = item_refs s" "r \<noteq> NULL \<Longrightarrow> item_refs t = (item_refs s)(r := Suc (item_refs s r))"
    using registry.find_ok [OF assms(1), of x y] assms(2) by (auto simp: room_def)
  moreover have "r = ?r" using t(1) dbg_find_item_run [OF assms(1), of x y] by simp
  ultimately show ?thesis by (auto simp: reg_abs_def abs_find_def Let_def)
qed

definition freed :: "dbg_item \<Rightarrow> addr \<Rightarrow> kcall list" where
  "freed i a = (if ref_count i = 1
     then [PoolFree (item_chan i), ObDeref (debugged i), ObDeref (debugger i), PoolFree a] else [])"

lemma deref_abs:
  assumes "items_ok s" and "items s a = Some i"
  shows "\<exists>t. dbg_deref_item a s = Inr ((), t) \<and> items_ok t \<and> reg_abs t = abs_deref a (reg_abs s)
    \<and> calls t = calls s @ freed i a"
proof (cases "ref_count i = 1")
  case True
  have "item_refs s a = 1" using assms(2) True by (simp add: item_refs_def)
  then show ?thesis
    using dbg_deref_item_run [OF assms] True drop_item_ok [OF assms]
    by (simp add: reg_abs_def abs_deref_def freed_def drop_item_simps)
next
  case False
  let ?i = "i\<lparr>ref_count := ref_count i - 1\<rparr>"
  have nz: "ref_count i \<noteq> 0" using items_okD(2) [OF assms] .
  have u: "unat (ref_count i - 1) = unat (ref_count i) - 1" by (rule unat_minus_one [OF nz])
  have "unat (ref_count i) \<noteq> unat (1 :: u32)" using False unfolding word_unat_eq_iff .
  then have n1: "item_refs s a \<noteq> 1" using assms(2) by (simp add: item_refs_def)
  have "items_ok (set_item a ?i s)" by (rule items_ok_set [OF assms]) (use False in simp_all)
  moreover have "relations (set_item a ?i s) = relations s" by (rule relations_set [OF assms(2)]) simp_all
  moreover have "item_refs (set_item a ?i s) = (item_refs s)(a := item_refs s a - 1)"
    using assms(2) by (simp add: refs_set u item_refs_def)
  ultimately show ?thesis
    using dbg_deref_item_run [OF assms] False n1 by (simp add: reg_abs_def abs_deref_def freed_def set_item_def)
qed

lemma delete_abs:
  assumes "items_ok s" and "items s a = Some i"
  shows "\<exists>t. dbg_delete_item K a s = Inr ((), t) \<and> items_ok t \<and> reg_abs t = abs_delete a (reg_abs s)"
proof -
  have "0 < item_refs s a" using items_okD(2) [OF assms] assms(2) by (simp add: item_refs_def unat_gt_0)
  then show ?thesis using dbg_delete_item_run [OF assms(1), of a K] by (auto simp: reg_abs_def abs_delete_def)
qed

text \<open>C13: finding, giving back and deleting do to relations and reference counts what their
  abstract counterparts do, keep the registry well formed, and do not fault: a search returns the
  first match in the order of attaching and takes one reference; giving back the last reference
  frees the channel, releases both processes and frees the item, once each and in this order, and
  giving back any other frees nothing; deleting removes the relation at once.\<close>

theorem registry_refines:
  assumes "items_ok s" and "room s" and "items s a = Some i"
  shows "(\<exists>r t. dbg_find_item x y s = Inr (r, t) \<and> items_ok t \<and> (r, reg_abs t) = abs_find x y (reg_abs s))
    \<and> (\<exists>t. dbg_deref_item a s = Inr ((), t) \<and> items_ok t \<and> reg_abs t = abs_deref a (reg_abs s)
         \<and> calls t = calls s @ freed i a)
    \<and> (\<exists>t. dbg_delete_item K a s = Inr ((), t) \<and> items_ok t \<and> reg_abs t = abs_delete a (reg_abs s))"
  using find_abs [OF assms(1,2)] deref_abs [OF assms(1,3)] delete_abs [OF assms(1,3)] by blast

lemma registry_refines_witness:
  "\<exists>t. dbg_deref_item 0x4000 demo_state = Inr ((), t) \<and> relations t = []
     \<and> calls t = [PoolFree 0x5000, ObDeref 0x2000, ObDeref 0x1000, PoolFree 0x4000]"
proof -
  have i: "items demo_state 0x4000 = Some demo_item" by (simp add: demo_state_def)
  have "snd (reg_abs demo_state) 0x4000 = 1" by (simp add: reg_abs_def item_refs_def i demo_item_def)
  moreover have "calls demo_state = []" by (simp add: demo_state_def)
  ultimately show ?thesis
    using registry_refines [OF demo_items_ok demo_room i, of 0 0 flag_event]
    by (auto simp: reg_abs_def abs_deref_def demo_relations freed_def demo_item_def)
qed

end
