(* ===== verification/Terminate_Properties.thy ===== *)
theory Terminate_Properties
  imports Registry_Properties
begin

text \<open>
  What happens when a process terminates: the loop of \<open>dbg_process_terminated\<close> over the processes it
  debugs, the delayed event for its own debugger, and the run in which the two together give back
  a reference too many.
\<close>

section \<open>The loop over the debugged processes\<close>

text \<open>Terminating a process leaves the registry alone, and its handle can be opened.\<close>

definition quiet_kill :: "('e, ('e, 'z) drv_state_scheme) kenv \<Rightarrow> bool" where
  "quiet_kill E \<longleftrightarrow> (\<forall>h st s. same_registry s (snd (terminate E h st s))) \<and> (\<forall>p. NT_SUCCESS (fst (ob_open E p)))"

lemma same_registry_abs:
  assumes "same_registry s t" and "items_ok s"
  shows "items_ok t" and "reg_abs t = reg_abs s" and "items t = items s"
  using same_registry_holds [OF assms(1) holds_start [OF assms(2)]] assms(1)
  by (simp_all add: holds_def taken_def reg_abs_def same_registry_def)

lemma terminate_one_run:
  assumes "items_ok s" and "2 \<le> item_refs s a" and "quiet_kill E"
  shows "\<exists>t. terminate_one E a s = Inr ((), t) \<and> items_ok t
    \<and> relations t = [r \<leftarrow> relations s. fst r \<noteq> a] \<and> item_refs t = (item_refs s)(a := item_refs s a - 2)"
proof -
  obtain i where i: "items s a = Some i" using assms(2) by (auto simp: item_refs_def split: option.splits)
  have nn: "a \<noteq> NULL" using items_okD(1) [OF assms(1) i] .
  define h where "h = snd (ob_open E (debugged i))"
  have h: "open_process_by_ptr (ob_open E) (debugged i) = Some h"
    using assms(3) by (simp add: open_process_by_ptr_def quiet_kill_def h_def split_beta)
  let ?kill = "log_call (CloseHandle h) (snd (terminate E h STATUS_SUCCESS (log_call (TerminateProcess h STATUS_SUCCESS) s)))"
  define u where "u = (if h \<noteq> NULL then ?kill else s)"
  have u: "items_ok u" "reg_abs u = reg_abs s" "items u a = Some i"
  proof -
    have "same_registry (log_call (TerminateProcess h STATUS_SUCCESS) s)
        (snd (terminate E h STATUS_SUCCESS (log_call (TerminateProcess h STATUS_SUCCESS) s)))"
      using assms(3) by (simp add: quiet_kill_def)
    note k = same_registry_abs [OF this]
    show "items_ok u" "reg_abs u = reg_abs s" "items u a = Some i"
      using k assms(1) i by (auto simp: u_def reg_abs_def kernel_simps)
  qed
  obtain v where v: "dbg_delete_item (events E) a u = Inr ((), v)" "items_ok v" "reg_abs v = abs_delete a (reg_abs s)"
    using delete_abs [OF u(1,3), of "events E"] u(2) by auto
  have "0 < item_refs v a" using v(3) assms(2) by (simp add: reg_abs_def abs_delete_def)
  then obtain j where j: "items v a = Some j" by (auto simp: item_refs_def split: option.splits)
  obtain t where t: "dbg_deref_item a v = Inr ((), t)" "items_ok t" "reg_abs t = abs_deref a (abs_delete a (reg_abs s))"
    using deref_abs [OF v(2) j] v(3) by auto
  have "terminate_one E a s = Inr ((), t)"
    using i nn h t(1) v(1)
    by (simp add: terminate_one_def and_then_def the_item_def use_var_def u_def split: if_splits)
  then show ?thesis using t(2,3) by (auto simp: reg_abs_def abs_deref_def abs_delete_def numeral_2_eq_2)
qed

lemma relations_distinct: "items_ok s \<Longrightarrow> distinct (map fst (relations s))"
  by (auto simp: relations_def relation_of_def items_ok_def distinct_map comp_def inj_on_def)

lemma terminate_loop_run:
  assumes "items_ok s" and "room s" and "quiet_kill E" and "process \<noteq> NULL"
  shows "\<exists>t. terminate_loop E process s = Some (Inr ((), t)) \<and> items_ok t
    \<and> relations t = [(a, x, y) \<leftarrow> relations s. x \<noteq> process]
    \<and> item_refs t = (\<lambda>a. item_refs s a - (if \<exists>y. (a, process, y) \<in> set (relations s) then 1 else 0))"
  using assms(1,2)
proof (induction "length [(a, x, y) \<leftarrow> relations s. x = process]" arbitrary: s rule: less_induct)
  case less
  obtain r t where find: "dbg_find_item process NULL s = Inr (r, t)" "items_ok t" "(r, reg_abs t) = abs_find process NULL (reg_abs s)"
    using find_abs [OF less.prems, of process NULL] by blast
  then have r: "r = relation_find process NULL (relations s)" and rel: "relations t = relations s"
    and refs: "item_refs t = (if r = NULL then item_refs s else (item_refs s)(r := item_refs s r + 1))"
    by (auto simp: reg_abs_def abs_find_def Let_def)
  show ?case
  proof (cases "r = NULL")
    case True
    have none: "\<forall>(a, x, y) \<in> set (relations s). x \<noteq> process"
      using relation_find_none [OF True [unfolded r] relations_nonnull [OF less.prems(1)]] assms(4) by auto
    then have "[(a, x, y) \<leftarrow> relations s. x \<noteq> process] = relations s" by (auto intro: filter_True)
    moreover have "\<nexists>y. (a, process, y) \<in> set (relations s)" for a using none by auto
    ultimately show ?thesis
      using find True rel refs by (subst terminate_loop.simps) simp
  next
    case False
    from relation_find_in [OF False [unfolded r]] assms(4) obtain y where m: "(r, process, y) \<in> set (relations s)"
      unfolding r [symmetric] by auto
    obtain i where i: "items s r = Some i" by (rule relations_item [OF less.prems(1) m])
    have pos: "0 < item_refs s r" using items_okD(2) [OF less.prems(1) i] i by (simp add: item_refs_def unat_gt_0)
    then have "2 \<le> item_refs t r" using refs False by simp
    from terminate_one_run [OF find(2) this assms(3)] obtain u
      where u: "terminate_one E r t = Inr ((), u)" "items_ok u" "relations u = [q \<leftarrow> relations s. fst q \<noteq> r]"
        and ur: "item_refs u = (item_refs s)(r := item_refs s r - 1)"
      using rel refs False by auto
    have uniq: "fst q = r \<Longrightarrow> q \<in> set (relations s) \<Longrightarrow> q = (r, process, y)" for q
      using relations_distinct [OF less.prems(1)] m by (metis distinct_map fst_conv inj_on_eq_iff)
    have drop: "[(a, x, y) \<leftarrow> relations u. P x] = [(a, x, y) \<leftarrow> relations s. P x]" if "\<not> P process" for P
    proof -
      have "[(a, x, y) \<leftarrow> relations u. P x] = [q \<leftarrow> relations s. fst q \<noteq> r \<and> P (fst (snd q))]"
        by (simp add: u(3) case_prod_unfold conj_commute)
      also have "\<dots> = [(a, x, y) \<leftarrow> relations s. P x]"
        by (rule filter_cong) (use uniq that in \<open>auto simp: case_prod_unfold\<close>)
      finally show ?thesis .
    qed
    have shorter: "length [(a, x, y) \<leftarrow> relations u. x = process] < length [(a, x, y) \<leftarrow> relations s. x = process]"
    proof -
      have "[(a, x, y) \<leftarrow> relations u. x = process] = [q \<leftarrow> [(a, x, y) \<leftarrow> relations s. x = process]. fst q \<noteq> r]"
        by (simp add: u(3) case_prod_unfold conj_commute)
      moreover have "(r, process, y) \<in> set [(a, x, y) \<leftarrow> relations s. x = process]" using m by simp
      ultimately show ?thesis using length_filter_less [of "(r, process, y)" _ "\<lambda>q. fst q \<noteq> r"] by (simp only: fst_conv simp_thms)
    qed
    have roomy: "room u" using less.prems(2) by (auto simp: room_def ur dest: spec [of _ r])
    from less.hyps [OF shorter u(2) roomy] obtain v where v: "terminate_loop E process u = Some (Inr ((), v))"
        "items_ok v" "relations v = [(a, x, y) \<leftarrow> relations s. x \<noteq> process]"
        "item_refs v = (\<lambda>a. item_refs u a - (if \<exists>y. (a, process, y) \<in> set (relations u) then 1 else 0))"
      using drop [of "\<lambda>x. x \<noteq> process"] by auto
    have "item_refs v = (\<lambda>a. item_refs s a - (if \<exists>y. (a, process, y) \<in> set (relations s) then 1 else 0))"
      using m by (auto simp: v(4) ur u(3) fun_eq_iff)
    moreover have "terminate_loop E process s = Some (Inr ((), v))"
      using find(1) False u(1) v(1) by (subst terminate_loop.simps) simp
    ultimately show ?thesis using v by blast
  qed
qed

lemma debugger_ends:
  assumes "items_ok s" and "room s" and "quiet_kill E" and "process \<noteq> NULL"
    and "\<forall>(a, x, y) \<in> set (relations s). y \<noteq> process"
  shows "\<exists>t. dbg_process_terminated E process exit_code s = Some (Inr ((), t)) \<and> items_ok t
    \<and> relations t = [(a, x, y) \<leftarrow> relations s. x \<noteq> process]
    \<and> item_refs t = (\<lambda>a. item_refs s a - (if \<exists>y. (a, process, y) \<in> set (relations s) then 1 else 0))"
proof -
  obtain t where t: "terminate_loop E process s = Some (Inr ((), t))" "items_ok t"
    "relations t = [(a, x, y) \<leftarrow> relations s. x \<noteq> process]"
    "item_refs t = (\<lambda>a. item_refs s a - (if \<exists>y. (a, process, y) \<in> set (relations s) then 1 else 0))"
    using terminate_loop_run [OF assms(1-4)] by blast
  have "room t"
    unfolding room_def
  proof
    fix a
    have "item_refs t a \<le> item_refs s a" by (simp add: t(4))
    also have "\<dots> < 2 ^ 32 - 1" using assms(2) by (simp add: room_def)
    finally show "item_refs t a < 2 ^ 32 - 1" .
  qed
  obtain r u where u: "dbg_find_item NULL process t = Inr (r, u)" "items_ok u" "(r, reg_abs u) = abs_find NULL process (reg_abs t)"
    using find_abs [OF t(2) \<open>room t\<close>, of NULL process] by blast
  have "r = NULL"
  proof (rule ccontr)
    assume "r \<noteq> NULL"
    moreover have "r = relation_find NULL process (relations t)"
      using u(3) by (simp add: abs_find_def reg_abs_def Let_def)
    ultimately obtain x' y' where "(r, x', y') \<in> set (relations t)" "y' = process"
      using relation_find_in [of NULL process "relations t"] assms(4) by auto
    then show False using t(3) assms(5) by auto
  qed
  moreover from this have "reg_abs u = reg_abs t" using u(3) by (simp add: abs_find_def reg_abs_def Let_def)
  ultimately have "dbg_process_terminated E process exit_code s = Some (Inr ((), u))"
    using t(1) u(1) by (simp add: dbg_process_terminated_def followed_by_def run_op_def post_terminated_def)
  then show ?thesis using u(2) \<open>reg_abs u = reg_abs t\<close> t(3,4) by (simp add: reg_abs_def)
qed


lemma demo_quiet_kill: "quiet_kill (demo_env :: (bool, (bool, 'z) drv_state_scheme) kenv)"
  by (simp add: quiet_kill_def demo_env_def same_registry_def)


section \<open>A reference too many\<close>

text \<open>
  Terminating the debugged process runs the hook of \<open>NtTerminateProcess\<close> for it, on the same
  registry, before the service returns.
\<close>

definition hooked_env :: "(bool, (bool, unit) drv_state_scheme) kenv" where
  "hooked_env = demo_env\<lparr>terminate := (\<lambda>h st s.
     case dbg_process_terminated demo_env 0x2000 st s of Some (Inr ((), t)) \<Rightarrow> (STATUS_SUCCESS, t) | _ \<Rightarrow> (STATUS_UNSUCCESSFUL, s))\<rparr>"

text \<open>
  The run: the debugger \<open>0x1000\<close> terminates while it debugs \<open>0x2000\<close> and has asked for termination
  events. The state it leaves, and what the delayed event finds in it.
\<close>

definition after_hooked :: "(bool, unit) drv_state_scheme" where
  "after_hooked = (case dbg_process_terminated hooked_env 0x1000 0 demo_state of
     Some (Inr (u, t)) \<Rightarrow> t | _ \<Rightarrow> demo_state)"

lemma after_hooked_run:
  "case dbg_process_terminated hooked_env 0x1000 0 demo_state of Some (Inr (u, t)) \<Rightarrow> True | _ \<Rightarrow> False"
  by code_simp

lemma after_hooked_event:
  "case term_events after_hooked 0x7000 of Some (a, msg) \<Rightarrow> a = 0x4000 | None \<Rightarrow> False"
  by code_simp

lemma after_hooked_item:
  "case items after_hooked 0x4000 of
     Some i \<Rightarrow> ref_count i = 1 \<and> active i = 0 \<and> item_chan i = 0x5000 | None \<Rightarrow> False"
  by code_simp

lemma after_hooked_chan: "case chans after_hooked 0x5000 of Some ch \<Rightarrow> released ch = 1 | None \<Rightarrow> False"
  by code_simp

text \<open>C22: the thread of a delayed termination event gives back two references to the item of its event,
  one in \<open>dbg_delete_item\<close> and one after it. When the item has only one left, because the
  relation was deleted in the meantime, the first one frees it and the second one writes to freed
  memory.\<close>

theorem delayed_event_over_releases:
  assumes "term_events s e = Some (a, msg)" and "items s a = Some i" and "ref_count i = 1" and "a \<noteq> NULL"
    and "item_chan i \<noteq> NULL" and "chans s (item_chan i) \<noteq> None"
    and "same_registry s (snd (send_wait E (item_chan i) msg s))"
    and "term_events (snd (send_wait E (item_chan i) msg s)) e = Some (a, msg)"
  shows "dbg_delayed_term_event E e s = Inl (Use_After_Free a)"
proof -
  define u where "u = snd (send_wait E (item_chan i) msg s)"
  obtain r where send: "send_wait E (item_chan i) msg s = (r, u)" by (cases "send_wait E (item_chan i) msg s") (simp add: u_def)
  have u: "items u a = Some i" "chans u (item_chan i) \<noteq> None" "term_events u e = Some (a, msg)"
    using assms(2,6,7,8) by (auto simp: u_def same_registry_def)
  then obtain ch where ch: "chans u (item_chan i) = Some ch" by blast
  obtain v where v: "dbg_delete_item (events E) a u = Inr ((), v)" "items v a = None"
    using u assms(3-5) ch
    by (simp add: dbg_delete_item_def the_item_def and_then_def release_chan_def the_chan_def set_item_def
        dbg_deref_item_def Let_def channel_free_def mem_free_def log_call_def)
  show ?thesis
    using assms(1,2,4-6) send u v
    by (auto simp: dbg_delayed_term_event_def the_event_def send_event_of_def the_item_def the_chan_def and_then_def
        dbg_deref_item_def)
qed

lemma delayed_event_over_releases_witness:
  "\<exists>t. dbg_process_terminated hooked_env 0x1000 0 demo_state = Some (Inr ((), t))
     \<and> dbg_delayed_term_event demo_env 0x7000 t = Inl (Use_After_Free 0x4000)"
proof -
  have run: "dbg_process_terminated hooked_env 0x1000 0 demo_state = Some (Inr ((), after_hooked))"
  proof (cases "dbg_process_terminated hooked_env 0x1000 0 demo_state")
    case None
    with after_hooked_run show ?thesis by (simp only: option.case)
  next
    case (Some r)
    with after_hooked_run obtain u t where "r = Inr (u, t)" by (cases r) auto
    with Some show ?thesis by (simp add: after_hooked_def)
  qed
  obtain msg i ch where "term_events after_hooked 0x7000 = Some (0x4000, msg)" "items after_hooked 0x4000 = Some i"
      "ref_count i = 1" "item_chan i = 0x5000" "chans after_hooked 0x5000 = Some ch"
    using after_hooked_event after_hooked_item after_hooked_chan by (auto split: option.splits)
  then have "dbg_delayed_term_event demo_env 0x7000 after_hooked = Inl (Use_After_Free 0x4000)"
    using delayed_event_over_releases [of after_hooked "0x7000" "0x4000" msg i demo_env]
    by (simp add: demo_env_def same_registry_def)
  with run show ?thesis by blast
qed

section \<open>The last thread\<close>

text \<open>The ring of list entries through the list head \<open>h\<close> and the threads \<open>ts\<close>.\<close>

definition ring :: "mem \<Rightarrow> addr \<Rightarrow> addr list \<Rightarrow> bool" where
  "ring m h ts \<longleftrightarrow> distinct (h # ts) \<and> (\<forall>k < length (h # ts). rd32 m ((h # ts) ! k) = (ts @ [h]) ! k)"

text \<open>C20: on a well-formed ring of a process's threads the test of \<open>NewNtTerminateThread\<close> is true of a
  thread exactly when it is the only one.\<close>

theorem last_thread_found:
  assumes "ring m h ts" and "t \<in> set ts"
  shows "last_on_ring m t \<longleftrightarrow> length ts = 1"
proof -
  from assms(2) obtain k where k: "k < length ts" "t = ts ! k" by (auto simp: in_set_conv_nth)
  have dist: "distinct (h # ts)" using assms(1) by (simp add: ring_def)
  have ptr: "rd32 m ((h # ts) ! j) = (ts @ [h]) ! j" if "j < length (h # ts)" for j
    using assms(1) that by (simp add: ring_def)
  have step: "rd32 m t = (ts @ [h]) ! Suc k" using ptr [of "Suc k"] k by simp
  show ?thesis
  proof (cases "Suc k = length ts")
    case True
    then have "rd32 m t = h" using step k by (simp add: nth_append)
    moreover have "rd32 m h = ts ! 0" using ptr [of 0] k by (cases ts) simp_all
    ultimately have "last_on_ring m t \<longleftrightarrow> ts ! 0 = ts ! k" using k by (simp add: last_on_ring_def nth_append)
    also have "\<dots> \<longleftrightarrow> k = 0" using dist k nth_eq_iff_index_eq [of ts 0 k] by (cases ts) auto
    finally show ?thesis using True by auto
  next
    case False
    then have two: "Suc k < length ts" using k by simp
    then have "rd32 m t = ts ! Suc k" using step by (simp add: nth_append)
    moreover have "rd32 m (ts ! Suc k) = (ts @ [h]) ! Suc (Suc k)" using ptr [of "Suc (Suc k)"] two by simp
    moreover have "(ts @ [h]) ! Suc (Suc k) \<noteq> ts ! k"
    proof (cases "Suc (Suc k) = length ts")
      case True
      then show ?thesis using dist k by (auto simp: nth_append)
    next
      case False
      then show ?thesis using dist two k nth_eq_iff_index_eq [of ts "Suc (Suc k)" k] by (simp add: nth_append)
    qed
    ultimately show ?thesis using two k by (simp add: last_on_ring_def)
  qed
qed

lemma last_thread_found_witness:
  "last_on_ring (wr32 (wr32 (\<lambda>_. 0) 0x100 0x200) 0x200 0x100) 0x200"
proof -
  have "ring (wr32 (wr32 (\<lambda>_. 0) 0x100 0x200) 0x200 0x100) 0x100 [0x200]"
    unfolding ring_def by code_simp
  from last_thread_found [OF this] show ?thesis by simp
qed

end
