(* ===== verification/Registry_Invariant.thy ===== *)
theory Registry_Invariant
  imports Debug_Properties Attach_Properties Terminate_Properties
begin

text \<open>
  The registry between the calls: the well-formedness that every operation of the driver on it keeps.
\<close>

section \<open>Well-formedness\<close>

text \<open>
  Between calls every item in memory is that of a debug relation and has exactly the one reference
  that keeps it there, and no process has two debuggers.
\<close>

definition settled :: "('e, 'z) drv_state_scheme \<Rightarrow> bool" where
  "settled s \<longleftrightarrow> items_ok s \<and> one_debugger s \<and> (\<forall>a. item_refs s a = (if a \<in> fst ` set (relations s) then 1 else 0))"

definition no_items :: "('e, 'z) drv_state_scheme \<Rightarrow> bool" where
  "no_items s \<longleftrightarrow> dbg_item_list s = [] \<and> items s = Map.empty"

lemma settled_empty: "no_items s \<Longrightarrow> settled s"
  by (simp add: settled_def no_items_def items_ok_def one_debugger_def relations_def item_refs_def)

lemma settled_room: "settled s \<Longrightarrow> room s"
  by (simp add: settled_def room_def)

section \<open>Steps\<close>

text \<open>
  A step is one complete call of an operation that may happen in the state: the handlers and hooks that
  look up an item, the attaching of a debugger, the termination of a process that is not debugged.
\<close>

inductive registry_step :: "('e, ('e, 'z) drv_state_scheme) kenv \<Rightarrow> ('e, 'z) drv_state_scheme \<Rightarrow> ('e, 'z) drv_state_scheme \<Rightarrow> bool"
  for E where
  works: "filters_in_range s \<Longrightarrow> buffers_ok d \<Longrightarrow> except_record \<noteq> NULL \<Longrightarrow>
    f \<in> {dbg_set_filter E d, dbg_get_message E d, dbg_countinue E d,
      NewNtCreateThread E p_thread h_process context suspended, dbg_process_exception E except_record first_chance} \<Longrightarrow>
    f s = Inr (v, t) \<Longrightarrow> registry_step E s t"
| attaches: "fresh_blocks c a s \<Longrightarrow> in_size d = 4 \<Longrightarrow> in_data d \<noteq> NULL \<Longrightarrow>
    lookup_process E (rd32 (kmem s) (in_data d)) = (st, process) \<Longrightarrow> NT_SUCCESS st \<Longrightarrow> process \<noteq> NULL \<Longrightarrow>
    process \<noteq> cur_process E \<Longrightarrow> relation_find NULL process (relations s) = NULL \<Longrightarrow>
    dbg_attach_call E d s = Inr (1, t) \<Longrightarrow> registry_step E s t"
| ends: "process \<noteq> NULL \<Longrightarrow> \<forall>(a, x, y) \<in> set (relations s). y \<noteq> process \<Longrightarrow>
    dbg_process_terminated E process exit_code s = Some (Inr ((), t)) \<Longrightarrow> registry_step E s t"

inductive registry_run :: "('e, ('e, 'z) drv_state_scheme) kenv \<Rightarrow> ('e, 'z) drv_state_scheme \<Rightarrow> ('e, 'z) drv_state_scheme \<Rightarrow> bool"
  for E s where
  run_start: "registry_run E s s"
| run_step: "registry_run E s t \<Longrightarrow> registry_step E t u \<Longrightarrow> registry_run E s u"

lemma settled_works:
  assumes "settled s" and "still E" and "filters_in_range s" and "buffers_ok d" and "except_record \<noteq> NULL"
    and "f \<in> {dbg_set_filter E d, dbg_get_message E d, dbg_countinue E d,
      NewNtCreateThread E p_thread h_process context suspended, dbg_process_exception E except_record first_chance}"
    and "f s = Inr (v, t)"
  shows "settled t"
proof -
  have "items_ok s" "room s" using assms(1) settled_room by (auto simp: settled_def)
  from handlers_balance [OF this assms(3,2,4,5)] assms(6) have "\<exists>v t. f s = Inr (v, t) \<and> balanced s t" by blast
  then have "balanced s t" using assms(7) by simp
  then show ?thesis using assms(1) by (simp add: settled_def balanced_def one_debugger_def)
qed

lemma settled_attaches:
  assumes "settled s" and "fresh_blocks c a s" and "in_size d = 4" and "in_data d \<noteq> NULL"
    and "lookup_process E (rd32 (kmem s) (in_data d)) = (st, process)" and "NT_SUCCESS st" and "process \<noteq> NULL"
    and "process \<noteq> cur_process E" and "relation_find NULL process (relations s) = NULL"
    and "dbg_attach_call E d s = Inr (1, t)"
  shows "settled t \<and> relations t = relations s @ [(a, cur_process E, process)]"
proof -
  have "items_ok s" "one_debugger s" using assms(1) by (simp_all add: settled_def)
  from attach_adds [OF this assms(2-9)] assms(10)
  have t: "items_ok t" "one_debugger t" "relations t = relations s @ [(a, cur_process E, process)]" "item_refs t = (item_refs s)(a := 1)"
    by auto
  then show ?thesis using assms(1) by (auto simp: settled_def)
qed

lemma settled_ends:
  assumes "settled s" and "quiet_kill E" and "process \<noteq> NULL" and "\<forall>(a, x, y) \<in> set (relations s). y \<noteq> process"
    and "dbg_process_terminated E process exit_code s = Some (Inr ((), t))"
  shows "settled t"
proof -
  have ok: "items_ok s" "room s" using assms(1) settled_room by (auto simp: settled_def)
  from debugger_ends [OF ok assms(2-4), of exit_code] assms(5)
  have t: "items_ok t" "relations t = [(a, x, y) \<leftarrow> relations s. x \<noteq> process]"
    "item_refs t = (\<lambda>a. item_refs s a - (if \<exists>y. (a, process, y) \<in> set (relations s) then 1 else 0))"
    by auto
  have uniq: "q = r" if "q \<in> set (relations s)" "r \<in> set (relations s)" "fst q = fst r" for q r
    using relations_distinct [OF ok(1)] that by (auto simp: distinct_map dest: inj_onD)
  have "item_refs t a = (if a \<in> fst ` set (relations t) then 1 else 0)" for a
  proof (cases "\<exists>x y. (a, x, y) \<in> set (relations s)")
    case True
    then obtain x y where r: "(a, x, y) \<in> set (relations s)" by blast
    then have one: "item_refs s a = 1" using assms(1) by (force simp: settled_def)
    have only: "(a, x', y') \<in> set (relations s) \<longleftrightarrow> x' = x \<and> y' = y" for x' y' using uniq [OF _ r] r by auto
    have "a \<in> fst ` set (relations t) \<longleftrightarrow> x \<noteq> process" using only by (force simp: t(2))
    then show ?thesis using one only by (simp add: t(3))
  next
    case False
    then have "a \<notin> fst ` set (relations s)" "a \<notin> fst ` set (relations t)" by (auto simp: t(2))
    then show ?thesis using assms(1) by (simp add: t(3) settled_def)
  qed
  moreover have "one_debugger t"
    using assms(1) by (auto simp: settled_def one_debugger_def t(2) intro: distinct_map_filter)
  ultimately show ?thesis using t(1) by (simp add: settled_def)
qed



definition idle_state :: "(bool, unit) drv_state_scheme" where
  "idle_state = demo_state\<lparr>items := Map.empty, dbg_item_list := []\<rparr>"


end
