(* ===== verification/Regio.thy ===== *)
theory Regio
  imports Kernel
begin

text \<open>
  Access to the registry, \<open>src/kernel/sys/regio.c\<close>. The registry itself belongs to the system: its
  state and the \<open>Zw\<close> functions on it are parameters. Names are sequences of 16-bit characters; a
  buffer that holds a name is read up to its first zero, as \<open>RtlInitUnicodeString\<close> does.
\<close>

section \<open>The system's registry\<close>

type_synonym wname = "u16 list"

record 'r reg_api =
  zw_open_key :: "handle \<Rightarrow> wname \<Rightarrow> 'r \<Rightarrow> (ntstatus \<times> handle) \<times> 'r"
  zw_create_key :: "handle \<Rightarrow> wname \<Rightarrow> 'r \<Rightarrow> (ntstatus \<times> handle) \<times> 'r"
  zw_enumerate_key :: "handle \<Rightarrow> u32 \<Rightarrow> 'r \<Rightarrow> ntstatus \<times> wname"      \<comment> \<open>the name in \<open>KEY_BASIC_INFORMATION\<close>\<close>
  zw_query_value :: "handle \<Rightarrow> wname \<Rightarrow> 'r \<Rightarrow> ntstatus \<times> u8 list"    \<comment> \<open>the data in \<open>KEY_VALUE_PARTIAL_INFORMATION\<close>\<close>
  zw_set_value :: "handle \<Rightarrow> wname \<Rightarrow> u32 \<Rightarrow> u8 list \<Rightarrow> 'r \<Rightarrow> ntstatus \<times> 'r"
  zw_delete_key :: "handle \<Rightarrow> 'r \<Rightarrow> ntstatus \<times> 'r"
  zw_close :: "handle \<Rightarrow> 'r \<Rightarrow> 'r"

text \<open>A name in a buffer, and the literals of the driver.\<close>

definition c_name :: "u16 list \<Rightarrow> wname" where
  "c_name buf = takeWhile (\<lambda>c. c \<noteq> 0) buf"

definition wide :: "string \<Rightarrow> wname" where
  "wide s = map (\<lambda>c. of_char c) s"

section \<open>Keys and values\<close>

text \<open>\<open>h_key\<close> keeps its initial \<open>NULL\<close> when the call fails.\<close>

definition reg_open_key :: "'r reg_api \<Rightarrow> u16 list \<Rightarrow> handle \<Rightarrow> 'r \<Rightarrow> handle \<times> 'r" where
  "reg_open_key R key_name par_key r =
     (case zw_open_key R par_key (c_name key_name) r of
        ((st, h), r) \<Rightarrow> (if NT_SUCCESS st then h else NULL, r))"

definition reg_create_key :: "'r reg_api \<Rightarrow> u16 list \<Rightarrow> handle \<Rightarrow> 'r \<Rightarrow> handle \<times> 'r" where
  "reg_create_key R key_name par_key r =
     (case zw_create_key R par_key (c_name key_name) r of
        ((st, h), r) \<Rightarrow> (if NT_SUCCESS st then h else NULL, r))"

text \<open>The name copied into the caller's buffer, with a zero behind it.\<close>

definition reg_enum_key :: "'r reg_api \<Rightarrow> handle \<Rightarrow> u32 \<Rightarrow> u16 list \<Rightarrow> 'r \<Rightarrow> u32 \<times> u16 list" where
  "reg_enum_key R h_key index key_name r =
     (case zw_enumerate_key R h_key index r of
        (st, name) \<Rightarrow>
          if NT_SUCCESS st then (1, name @ 0 # drop (Suc (length name)) key_name) else (0, key_name))"

text \<open>
  The data of a value copied to the start of the buffer, as much of it as fits; a shorter value
  leaves the rest of the buffer as it was.
\<close>

definition reg_query_val :: "'r reg_api \<Rightarrow> handle \<Rightarrow> wname \<Rightarrow> u8 list \<Rightarrow> 'r \<Rightarrow> u32 \<times> u8 list" where
  "reg_query_val R reg_key val_name dat_buff r =
     (case zw_query_value R reg_key val_name r of
        (st, dat) \<Rightarrow>
          if NT_SUCCESS st
          then let buf_size = (if length dat < length dat_buff then length dat else length dat_buff)
               in (1, take buf_size dat @ drop buf_size dat_buff)
          else (0, dat_buff))"

definition reg_set_val :: "'r reg_api \<Rightarrow> handle \<Rightarrow> wname \<Rightarrow> u32 \<Rightarrow> u8 list \<Rightarrow> 'r \<Rightarrow> u32 \<times> 'r" where
  "reg_set_val R reg_key val_name dat_type dat_buff r =
     (case zw_set_value R reg_key val_name dat_type dat_buff r of
        (st, r) \<Rightarrow> (if NT_SUCCESS st then 1 else 0, r))"

section \<open>delete_key_recurse\<close>

text \<open>
  The function and the loop inside it call each other; they are one recursion over the two kinds of
  work: a key to delete by its parent and name, or an open key whose subkeys from an index on are
  still to be tried, with the buffer \<open>name\<close>. The result is \<open>res\<close>; \<open>None\<close> is a run without end.
\<close>

datatype delete_job = Delete_Key handle "u16 list" | Delete_Subkeys handle u32 "u16 list"

partial_function (option) delete_key_run :: "'r reg_api \<Rightarrow> u16 list \<Rightarrow> delete_job \<Rightarrow> 'r \<Rightarrow> (u32 \<times> 'r) option" where
  "delete_key_run R junk job r =
     (case job of
        Delete_Key par_key sub_key \<Rightarrow>
          (case reg_open_key R sub_key par_key r of (h_key, r) \<Rightarrow>
             if h_key = NULL then Some (0, r)
             else Option.bind (delete_key_run R junk (Delete_Subkeys h_key 0 junk) r) (\<lambda>(_, r).
                    case zw_delete_key R h_key r of
                      (st, r) \<Rightarrow> Some (if NT_SUCCESS st then 1 else 0, zw_close R h_key r)))
      | Delete_Subkeys h_key idx name \<Rightarrow>
          (case reg_enum_key R h_key idx name r of (got, name) \<Rightarrow>
             if got = 0 then Some (0, r)
             else Option.bind (delete_key_run R junk (Delete_Key h_key name) r) (\<lambda>(res, r).
                    delete_key_run R junk
                      (Delete_Subkeys h_key (if res \<noteq> 0 then idx + 1 - 1 else idx + 1) name) r)))"

declare delete_key_run.simps [code]

text \<open>\<open>junk\<close> is what a fresh \<open>name\<close> buffer on the stack holds.\<close>

definition delete_key_recurse :: "'r reg_api \<Rightarrow> u16 list \<Rightarrow> handle \<Rightarrow> u16 list \<Rightarrow> 'r \<Rightarrow> (u32 \<times> 'r) option" where
  "delete_key_recurse R junk par_key sub_key r = delete_key_run R junk (Delete_Key par_key sub_key) r"

end
