(* ===== verification/Regio_Properties.thy ===== *)
theory Regio_Properties
  imports Regio "HOL-Library.Sublist"
begin

text \<open>
  \<open>delete_key_recurse\<close> of \<open>src/kernel/sys/regio.c\<close> on a registry that keeps the documented contract
  of the system's functions: it ends and removes exactly the tree below the key.
\<close>

section \<open>Deleting a tree\<close>

text \<open>
  What the functions of the system do to the tree of keys, with \<open>keys r p\<close> the subkeys of the key
  at path \<open>p\<close> in their order and \<open>opened r h\<close> the path of an open handle: as long as fewer than
  \<open>handle_max\<close> handles are open, opening gives a fresh handle of an existing subkey; enumerating
  lists the subkeys by index, and deleting removes a key without subkeys and refuses any other.
\<close>

definition handle_max :: nat where
  "handle_max = 16777216"

definition cut :: "wname list \<Rightarrow> (wname list \<Rightarrow> wname list option) \<Rightarrow> wname list \<Rightarrow> wname list option" where
  "cut p K = (\<lambda>q. if prefix p q then None else if q = butlast p then map_option (remove1 (last p)) (K q) else K q)"

definition keys_api :: "'r reg_api \<Rightarrow> ('r \<Rightarrow> wname list \<Rightarrow> wname list option) \<Rightarrow> ('r \<Rightarrow> handle \<Rightarrow> wname list option) \<Rightarrow> bool" where
  "keys_api R keys opened \<longleftrightarrow>
     (\<forall>r h p ns n. opened r h = Some p \<longrightarrow> keys r p = Some ns \<longrightarrow> card (dom (opened r)) < handle_max \<longrightarrow>
       (case zw_open_key R h n r of ((st, h'), r') \<Rightarrow>
          keys r' = keys r
          \<and> (if n \<in> set ns
             then NT_SUCCESS st \<and> h' \<noteq> NULL \<and> opened r h' = None \<and> opened r' = (opened r)(h' \<mapsto> p @ [n])
             else \<not> NT_SUCCESS st \<and> opened r' = opened r)))
   \<and> (\<forall>r h p ns i. opened r h = Some p \<longrightarrow> keys r p = Some ns \<longrightarrow>
       (if unat i < length ns then zw_enumerate_key R h i r = (STATUS_SUCCESS, ns ! unat i)
        else \<not> NT_SUCCESS (fst (zw_enumerate_key R h i r))))
   \<and> (\<forall>r h p ns. opened r h = Some p \<longrightarrow> keys r p = Some ns \<longrightarrow>
       (case zw_delete_key R h r of (st, r') \<Rightarrow>
          opened r' = opened r \<and> NT_SUCCESS st = (ns = []) \<and> keys r' = (if ns = [] then cut p (keys r) else keys r)))
   \<and> (\<forall>r h. keys (zw_close R h r) = keys r \<and> opened (zw_close R h r) = (opened r)(h := None))"

text \<open>A tree of keys of bounded depth: distinct names without zeros, and no key without its parent.\<close>

definition key_tree :: "nat \<Rightarrow> (wname list \<Rightarrow> wname list option) \<Rightarrow> bool" where
  "key_tree d K \<longleftrightarrow>
     (\<forall>q ns. K q = Some ns \<longrightarrow> length q \<le> d \<and> distinct ns \<and> (\<forall>n \<in> set ns. 0 \<notin> set n))
   \<and> (\<forall>q n. K (q @ [n]) \<noteq> None \<longleftrightarrow> (\<exists>ns. K q = Some ns \<and> n \<in> set ns))"

definition hollow :: "wname list \<Rightarrow> (wname list \<Rightarrow> wname list option) \<Rightarrow> wname list \<Rightarrow> wname list option" where
  "hollow q K = (\<lambda>x. if strict_prefix q x then None else if x = q then Some [] else K x)"

lemma key_tree_below:
  assumes "key_tree d K" and "K q = None"
  shows "K (q @ xs) = None"
proof (induction xs rule: rev_induct)
  case (snoc n xs)
  have "(K (q @ xs @ [n]) \<noteq> None) = (\<exists>ns. K (q @ xs) = Some ns \<and> n \<in> set ns)"
    using assms(1) unfolding key_tree_def append_assoc [symmetric] by blast
  with snoc show ?case by simp
qed (simp add: assms)

lemma key_tree_leaf:
  assumes "key_tree d K" and "K q = Some []" and "strict_prefix q x"
  shows "K x = None"
proof -
  from assms(3) obtain n xs where x: "x = (q @ [n]) @ xs" by (auto elim: strict_prefixE')
  have "(K (q @ [n]) \<noteq> None) = (\<exists>ns. K q = Some ns \<and> n \<in> set ns)" using assms(1) by (simp add: key_tree_def)
  then have "K (q @ [n]) = None" using assms(2) by simp
  from key_tree_below [OF assms(1) this] show ?thesis unfolding x .
qed

lemma key_tree_cut:
  assumes "key_tree d K"
  shows "key_tree d (cut (p @ [n]) K)"
  unfolding key_tree_def
proof (intro conjI allI)
  fix q ns
  show "cut (p @ [n]) K q = Some ns \<longrightarrow> length q \<le> d \<and> distinct ns \<and> (\<forall>n \<in> set ns. 0 \<notin> set n)"
    using assms by (auto simp: key_tree_def cut_def split: if_splits)
next
  fix q m
  have t: "(K (q @ [m]) \<noteq> None) = (\<exists>ns. K q = Some ns \<and> m \<in> set ns)" using assms by (simp add: key_tree_def)
  have dist: "K q = Some ns \<Longrightarrow> distinct ns" for ns using assms by (simp add: key_tree_def)
  show "(cut (p @ [n]) K (q @ [m]) \<noteq> None) = (\<exists>ns. cut (p @ [n]) K q = Some ns \<and> m \<in> set ns)"
  proof (cases "prefix (p @ [n]) (q @ [m])")
    case True
    then consider "q = p" "m = n" | "prefix (p @ [n]) q" by (auto simp: prefix_snoc)
    then show ?thesis
    proof cases
      case 1
      then show ?thesis using dist by (auto simp: cut_def set_remove1_eq)
    next
      case 2
      then show ?thesis using True by (simp add: cut_def)
    qed
  next
    case False
    then have "\<not> prefix (p @ [n]) q" "q = p \<Longrightarrow> m \<noteq> n" by (auto simp: prefix_snoc)
    then show ?thesis using t dist False by (auto simp: cut_def set_remove1_eq)
  qed
qed

lemma hollow_cut: "hollow q (cut (q @ [n]) K) = hollow q K"
proof (rule ext)
  fix x
  have "prefix (q @ [n]) x \<Longrightarrow> prefix q x" by (rule append_prefixD)
  then show "hollow q (cut (q @ [n]) K) x = hollow q K x" by (auto simp: hollow_def cut_def strict_prefix_def)
qed

lemma hollow_leaf: "key_tree d K \<Longrightarrow> K q = Some [] \<Longrightarrow> hollow q K = K"
  by (rule ext) (auto simp: hollow_def key_tree_leaf)

lemma cut_hollow: "cut (p @ [n]) (hollow (p @ [n]) K) = cut (p @ [n]) K"
  by (rule ext) (auto simp: hollow_def cut_def strict_prefix_def dest: prefix_length_le)

section \<open>The run of delete_key_recurse\<close>

lemma keys_apiD:
  assumes "keys_api R keys opened" and "opened r h = Some p" and "keys r p = Some ns"
  shows "card (dom (opened r)) < handle_max \<Longrightarrow> n \<in> set ns \<Longrightarrow> \<exists>st h' r'. zw_open_key R h n r = ((st, h'), r') \<and> NT_SUCCESS st \<and> h' \<noteq> NULL
      \<and> opened r h' = None \<and> keys r' = keys r \<and> opened r' = (opened r)(h' \<mapsto> p @ [n])"
    and "card (dom (opened r)) < handle_max \<Longrightarrow> n \<notin> set ns \<Longrightarrow> \<exists>st h' r'. zw_open_key R h n r = ((st, h'), r') \<and> \<not> NT_SUCCESS st
      \<and> keys r' = keys r \<and> opened r' = opened r"
    and "unat i < length ns \<Longrightarrow> zw_enumerate_key R h i r = (STATUS_SUCCESS, ns ! unat i)"
    and "length ns \<le> unat i \<Longrightarrow> \<not> NT_SUCCESS (fst (zw_enumerate_key R h i r))"
    and "ns = [] \<Longrightarrow> \<exists>st r'. zw_delete_key R h r = (st, r') \<and> NT_SUCCESS st \<and> opened r' = opened r \<and> keys r' = cut p (keys r)"
proof -
  assume "card (dom (opened r)) < handle_max"
  have "case zw_open_key R h n r of ((st, h'), r') \<Rightarrow> keys r' = keys r
      \<and> (if n \<in> set ns
         then NT_SUCCESS st \<and> h' \<noteq> NULL \<and> opened r h' = None \<and> opened r' = (opened r)(h' \<mapsto> p @ [n])
         else \<not> NT_SUCCESS st \<and> opened r' = opened r)"
    by (rule assms(1) [unfolded keys_api_def, THEN conjunct1, rule_format, OF assms(2,3) \<open>card _ < _\<close>])
  then show "n \<in> set ns \<Longrightarrow> \<exists>st h' r'. zw_open_key R h n r = ((st, h'), r') \<and> NT_SUCCESS st \<and> h' \<noteq> NULL
      \<and> opened r h' = None \<and> keys r' = keys r \<and> opened r' = (opened r)(h' \<mapsto> p @ [n])"
    and "n \<notin> set ns \<Longrightarrow> \<exists>st h' r'. zw_open_key R h n r = ((st, h'), r') \<and> \<not> NT_SUCCESS st
      \<and> keys r' = keys r \<and> opened r' = opened r"
    by (auto split: prod.splits)
next
  have "if unat i < length ns then zw_enumerate_key R h i r = (STATUS_SUCCESS, ns ! unat i)
        else \<not> NT_SUCCESS (fst (zw_enumerate_key R h i r))"
    by (rule assms(1) [unfolded keys_api_def, THEN conjunct2, THEN conjunct1, rule_format, OF assms(2,3)])
  then show "unat i < length ns \<Longrightarrow> zw_enumerate_key R h i r = (STATUS_SUCCESS, ns ! unat i)"
    and "length ns \<le> unat i \<Longrightarrow> \<not> NT_SUCCESS (fst (zw_enumerate_key R h i r))"
    by (simp_all split: if_splits)
next
  have "case zw_delete_key R h r of (st, r') \<Rightarrow>
          opened r' = opened r \<and> NT_SUCCESS st = (ns = []) \<and> keys r' = (if ns = [] then cut p (keys r) else keys r)"
    by (rule assms(1) [unfolded keys_api_def, THEN conjunct2, THEN conjunct2, THEN conjunct1, rule_format, OF assms(2,3)])
  then show "ns = [] \<Longrightarrow> \<exists>st r'. zw_delete_key R h r = (st, r') \<and> NT_SUCCESS st \<and> opened r' = opened r \<and> keys r' = cut p (keys r)"
    by (auto split: prod.splits)
qed

lemma keys_close:
  assumes "keys_api R keys opened"
  shows "keys (zw_close R h r) = keys r" and "opened (zw_close R h r) = (opened r)(h := None)"
  using assms unfolding keys_api_def by blast+

lemma c_name_buffer: "0 \<notin> set n \<Longrightarrow> c_name (n @ 0 # junk) = n"
  by (induction n) (simp_all add: c_name_def)

text \<open>The loop over the subkeys, when deleting each of them works.\<close>

lemma delete_subkeys_run:
  assumes api: "keys_api R keys opened"
    and child: "\<And>r n buf ns. key_tree d (keys r) \<Longrightarrow> opened r h = Some q \<Longrightarrow> keys r q = Some ns \<Longrightarrow> n \<in> set ns \<Longrightarrow>
        card (dom (opened r)) \<le> room \<Longrightarrow> c_name buf = n \<Longrightarrow> \<exists>r'. delete_key_run R junk (Delete_Key h buf) r = Some (1, r')
          \<and> keys r' = cut (q @ [n]) (keys r) \<and> opened r' = opened r"
    and "key_tree d (keys r)" and "opened r h = Some q" and "keys r q = Some ns" and "card (dom (opened r)) \<le> room"
  shows "\<exists>v r'. delete_key_run R junk (Delete_Subkeys h 0 name) r = Some (v, r')
    \<and> keys r' = hollow q (keys r) \<and> opened r' = opened r"
  using assms(3-6)
proof (induction ns arbitrary: r name)
  case Nil
  have "\<not> NT_SUCCESS (fst (zw_enumerate_key R h 0 r))" using keys_apiD(4) [OF api Nil(2,3)] by simp
  then have "delete_key_run R junk (Delete_Subkeys h 0 name) r = Some (0, r)"
    by (subst delete_key_run.simps) (cases "zw_enumerate_key R h 0 r", simp add: reg_enum_key_def)
  then show ?case using hollow_leaf [OF Nil(1,3)] by auto
next
  case (Cons n ns)
  have nz: "0 \<notin> set n" and dist: "distinct (n # ns)" using Cons.prems(1,3) unfolding key_tree_def by fastforce+
  define buf where "buf = n @ 0 # drop (Suc (length n)) name"
  have enum: "reg_enum_key R h 0 name r = (1, buf)"
    using keys_apiD(3) [OF api Cons.prems(2,3), of 0] by (simp add: reg_enum_key_def buf_def)
  have "c_name buf = n" unfolding buf_def by (rule c_name_buffer [OF nz])
  from child [OF Cons.prems(1-3) _ Cons.prems(4) this] obtain r1
    where r1: "delete_key_run R junk (Delete_Key h buf) r = Some (1, r1)" "keys r1 = cut (q @ [n]) (keys r)" "opened r1 = opened r"
    by auto
  have "keys r1 q = Some ns" using r1(2) Cons.prems(3) dist by (simp add: cut_def)
  with Cons.IH [of r1 buf] r1 Cons.prems(1,2,4) obtain v r'
    where r': "delete_key_run R junk (Delete_Subkeys h 0 buf) r1 = Some (v, r')" "keys r' = hollow q (keys r1)" "opened r' = opened r1"
    by (auto simp: key_tree_cut)
  have "delete_key_run R junk (Delete_Subkeys h 0 name) r = Some (v, r')"
    by (subst delete_key_run.simps) (simp add: enum r1(1) r'(1))
  then show ?case using r'(2,3) r1(2,3) by (simp add: hollow_cut)
qed

text \<open>The whole recursion, by the number of levels below the key.\<close>

lemma delete_key_run_ok:
  assumes api: "keys_api R keys opened"
    and "key_tree d (keys r)" and "opened r h = Some p" and "keys r p = Some ns" and "c_name buf = n" and "n \<in> set ns"
    and "d - length p = k" and "card (dom (opened r)) + k \<le> handle_max"
  shows "\<exists>r'. delete_key_run R junk (Delete_Key h buf) r = Some (1, r')
    \<and> keys r' = cut (p @ [n]) (keys r) \<and> opened r' = opened r"
  using assms(2-8)
proof (induction k arbitrary: r h p ns n buf)
  case 0
  have "keys r (p @ [n]) \<noteq> None" using 0(1,3,5) unfolding key_tree_def by blast
  then have "Suc (length p) \<le> d" using 0(1) unfolding key_tree_def by fastforce
  with 0(6) show ?case by simp
next
  case (Suc k)
  let ?q = "p @ [n]"
  obtain st h' r1 where o: "zw_open_key R h n r = ((st, h'), r1)" "NT_SUCCESS st" "h' \<noteq> NULL" "opened r h' = None"
      "keys r1 = keys r" "opened r1 = (opened r)(h' \<mapsto> ?q)"
    using keys_apiD(1) [OF api Suc.prems(2,3) _ Suc.prems(5)] Suc.prems(7) by fastforce
  obtain ms where ms: "keys r ?q = Some ms" using Suc.prems(1,3,5) unfolding key_tree_def by blast
  have child: "\<exists>r'. delete_key_run R junk (Delete_Key h' buf) r = Some (1, r')
      \<and> keys r' = cut (?q @ [n]) (keys r) \<and> opened r' = opened r"
    if "key_tree d (keys r)" "opened r h' = Some ?q" "keys r ?q = Some ns" "n \<in> set ns" "card (dom (opened r)) \<le> handle_max - k" "c_name buf = n"
    for r n buf ns
    using Suc.IH [OF that(1-3,6,4)] Suc.prems(6,7) that(5) by simp
  have "card (dom (opened r1)) = Suc (card (dom (opened r)))" using o(4,6) by (simp add: card_insert_if domIff)
  then have "key_tree d (keys r1)" "opened r1 h' = Some ?q" "keys r1 ?q = Some ms" "card (dom (opened r1)) \<le> handle_max - k"
    using Suc.prems(1,7) ms o by simp_all
  then have "\<exists>v r'. delete_key_run R junk (Delete_Subkeys h' 0 junk) r1 = Some (v, r')
      \<and> keys r' = hollow ?q (keys r1) \<and> opened r' = opened r1"
    by (intro delete_subkeys_run [OF api child])
  then obtain v r2 where r2: "delete_key_run R junk (Delete_Subkeys h' 0 junk) r1 = Some (v, r2)" "keys r2 = hollow ?q (keys r1)" "opened r2 = opened r1"
    by blast
  have "opened r2 h' = Some ?q" "keys r2 ?q = Some []" using r2 o by (simp_all add: hollow_def)
  from keys_apiD(5) [OF api this refl] obtain st3 r3
    where r3: "zw_delete_key R h' r2 = (st3, r3)" "NT_SUCCESS st3" "opened r3 = opened r2" "keys r3 = cut ?q (keys r2)" by blast
  have run: "delete_key_run R junk (Delete_Key h buf) r = Some (1, zw_close R h' r3)"
    by (subst delete_key_run.simps) (simp add: reg_open_key_def Suc.prems(4) o(1,2,3) r2(1) r3(1,2))
  have "opened (zw_close R h' r3) = opened r" using keys_close(2) [OF api, of h' r3] r3(3) r2(3) o(4,6) by (auto simp: fun_eq_iff)
  moreover have "keys (zw_close R h' r3) = cut ?q (keys r)"
    using keys_close(1) [OF api, of h' r3] r3(4) r2(2) o(5) by (simp add: cut_hollow)
  ultimately show ?case using run by blast
qed


text \<open>A registry that keeps the contract: the tree of keys and the table of open handles.\<close>

type_synonym reg_store = "(wname list \<Rightarrow> wname list option) \<times> (handle \<Rightarrow> wname list option)"

definition free_handle :: "(handle \<Rightarrow> wname list option) \<Rightarrow> handle" where
  "free_handle opened = word_of_nat (hd [k \<leftarrow> [1..<Suc handle_max]. opened (word_of_nat k) = None])"

definition store_api :: "reg_store reg_api" where
  "store_api =
     \<lparr>zw_open_key = (\<lambda>h n (K, opened). case Option.bind (opened h) K of
          Some ns \<Rightarrow> if n \<in> set ns \<and> card (dom opened) < handle_max
            then ((STATUS_SUCCESS, free_handle opened), (K, opened(free_handle opened \<mapsto> the (opened h) @ [n])))
            else ((STATUS_UNSUCCESSFUL, NULL), (K, opened))
        | None \<Rightarrow> ((STATUS_UNSUCCESSFUL, NULL), (K, opened))),
      zw_create_key = (\<lambda>h n r. ((STATUS_UNSUCCESSFUL, NULL), r)),
      zw_enumerate_key = (\<lambda>h i (K, opened). case Option.bind (opened h) K of
          Some ns \<Rightarrow> if unat i < length ns then (STATUS_SUCCESS, ns ! unat i) else (STATUS_UNSUCCESSFUL, [])
        | None \<Rightarrow> (STATUS_UNSUCCESSFUL, [])),
      zw_query_value = (\<lambda>h n r. (STATUS_UNSUCCESSFUL, [])),
      zw_set_value = (\<lambda>h n t d r. (STATUS_UNSUCCESSFUL, r)),
      zw_delete_key = (\<lambda>h (K, opened). case opened h of
          Some p \<Rightarrow> if K p = Some [] then (STATUS_SUCCESS, (cut p K, opened)) else (STATUS_UNSUCCESSFUL, (K, opened))
        | None \<Rightarrow> (STATUS_UNSUCCESSFUL, (K, opened))),
      zw_close = (\<lambda>h (K, opened). (K, opened(h := None)))\<rparr>"

lemma free_handle_ok:
  assumes "card (dom opened) < handle_max"
  shows "free_handle opened \<noteq> NULL" and "opened (free_handle opened) = None"
proof -
  let ?ks = "[k \<leftarrow> [1..<Suc handle_max]. opened (word_of_nat k) = None]"
  have inj: "inj_on (word_of_nat :: nat \<Rightarrow> handle) {1..<Suc handle_max}"
    by (rule inj_onI) (simp add: handle_max_def word_of_nat_eq_iff take_bit_eq_mod)
  have "\<not> (word_of_nat :: nat \<Rightarrow> handle) ` {1..<Suc handle_max} \<subseteq> dom opened"
  proof
    assume "(word_of_nat :: nat \<Rightarrow> handle) ` {1..<Suc handle_max} \<subseteq> dom opened"
    from card_mono [OF _ this] assms card_image [OF inj] show False by simp
  qed
  then have "?ks \<noteq> []" by (auto simp: filter_empty_conv)
  then have "hd ?ks \<in> set ?ks" by (rule hd_in_set)
  then have k: "hd ?ks \<in> {1..<Suc handle_max}" "opened (word_of_nat (hd ?ks)) = None"
    by (simp_all del: upt_Suc)
  then show "opened (free_handle opened) = None" by (simp add: free_handle_def)
  have "unat (word_of_nat (hd ?ks) :: handle) = hd ?ks"
    using k(1) unfolding handle_max_def by (simp add: unat_of_nat take_bit_eq_mod del: upt_Suc)
  then show "free_handle opened \<noteq> NULL" using k(1) by (auto simp: free_handle_def simp del: upt_Suc)
qed

lemma NT_UNSUCCESSFUL_fails: "\<not> NT_SUCCESS STATUS_UNSUCCESSFUL"
  by (simp add: NT_SUCCESS_def)

lemma store_keys_api: "keys_api store_api fst snd"
  unfolding keys_api_def
proof (intro conjI allI impI)
  fix r :: reg_store and h p ns n
  assume "snd r h = Some p" and "fst r p = Some ns" and "card (dom (snd r)) < handle_max"
  then show "case zw_open_key store_api h n r of ((st, h'), r') \<Rightarrow> fst r' = fst r
      \<and> (if n \<in> set ns
         then NT_SUCCESS st \<and> h' \<noteq> NULL \<and> snd r h' = None \<and> snd r' = (snd r)(h' \<mapsto> p @ [n])
         else \<not> NT_SUCCESS st \<and> snd r' = snd r)"
    using free_handle_ok [of "snd r"] by (cases r) (simp add: store_api_def NT_UNSUCCESSFUL_fails)
next
  fix r :: reg_store and h p ns i
  assume "snd r h = Some p" and "fst r p = Some ns"
  then show "if unat i < length ns then zw_enumerate_key store_api h i r = (STATUS_SUCCESS, ns ! unat i)
        else \<not> NT_SUCCESS (fst (zw_enumerate_key store_api h i r))"
    by (cases r) (simp add: store_api_def NT_UNSUCCESSFUL_fails)
next
  fix r :: reg_store and h p ns
  assume "snd r h = Some p" and "fst r p = Some ns"
  then show "case zw_delete_key store_api h r of (st, r') \<Rightarrow>
          snd r' = snd r \<and> NT_SUCCESS st = (ns = []) \<and> fst r' = (if ns = [] then cut p (fst r) else fst r)"
    by (cases r) (simp add: store_api_def NT_UNSUCCESSFUL_fails)
next
  fix r :: reg_store and h
  show "fst (zw_close store_api h r) = fst r" and "snd (zw_close store_api h r) = (snd r)(h := None)"
    by (cases r; simp add: store_api_def)+
qed

text \<open>A service key with the two subkeys the system makes for it, one of them with a subkey.\<close>

definition demo_keys :: "wname list \<Rightarrow> wname list option" where
  "demo_keys = [[] \<mapsto> [[1]], [[1]] \<mapsto> [[2], [3]], [[1], [2]] \<mapsto> [], [[1], [3]] \<mapsto> [[4]], [[1], [3], [4]] \<mapsto> []]"

lemma demo_key_tree: "key_tree 3 demo_keys"
  unfolding key_tree_def
proof (intro conjI allI)
  fix q ns
  show "demo_keys q = Some ns \<longrightarrow> length q \<le> 3 \<and> distinct ns \<and> (\<forall>n \<in> set ns. 0 \<notin> set n)"
    by (auto simp: demo_keys_def)
next
  fix q :: "wname list" and n
  show "(demo_keys (q @ [n]) \<noteq> None) = (\<exists>ns. demo_keys q = Some ns \<and> n \<in> set ns)"
    by (auto simp: demo_keys_def Cons_eq_append_conv append_eq_Cons_conv split: if_splits)
qed


end
