(* ===== verification/Init.thy ===== *)
theory Init
  imports Regio Code_Hook Debug_Hooks
begin

text \<open>
  \<open>init_debug\<close> of \<open>src/kernel/sys/debug.c\<close>: the offsets of the kernel's functions come from the
  registry, where the user-mode library has put them, and each function is hooked at the kernel's
  base plus its offset. Where the driver's own functions and pointer variables are in memory is a
  parameter, and so is what the variable \<open>offs\<close> on the stack holds at first.
\<close>

section \<open>The driver's image\<close>

record driver_image =
  new_nt_terminate_process :: addr
  old_nt_terminate_process :: addr     \<comment> \<open>\<open>&OldNtTerminateProcess\<close>, and so on\<close>
  new_nt_terminate_thread :: addr
  old_nt_terminate_thread :: addr
  new_nt_create_thread :: addr
  old_nt_create_thread :: addr
  new_ki_dispatch_exception :: addr
  old_ki_dispatch_exception :: addr
  new_nt_term_proc_at :: addr          \<comment> \<open>\<open>new_nt_term_proc\<close> of \<open>syscall.c\<close>\<close>
  old_nt_term_proc_at :: addr

section \<open>Offsets\<close>

text \<open>
  \<open>reg_query_val(h_key, name, &v, sizeof(v))\<close> for a variable of 32 bits with the value \<open>v\<close> before
  the call.
\<close>

definition query32 :: "'r reg_api \<Rightarrow> 'r \<Rightarrow> handle \<Rightarrow> string \<Rightarrow> u32 \<Rightarrow> u32 \<times> u32" where
  "query32 R r h_key name v =
     (case reg_query_val R h_key (wide name) (le32 v) r of (ok, bs) \<Rightarrow> (ok, de32 bs))"

text \<open>
  One step of the initialisation: an offset is read into \<open>offs\<close> and the function at the base plus
  it is hooked. The result says whether both worked, and is followed by the new value of \<open>offs\<close>.
  \<open>None\<close> is a decoder that does not return.
\<close>

definition hook_symbol :: "'r reg_api \<Rightarrow> 'r \<Rightarrow> handle \<Rightarrow> u32 \<Rightarrow> string \<Rightarrow> addr \<Rightarrow> addr \<Rightarrow> u32
    \<Rightarrow> ('e, 'z) drv_state_scheme \<Rightarrow> (bool \<times> u32 \<times> ('e, 'z) drv_state_scheme) option" where
  "hook_symbol R r h_key n_cpu name new old offs s =
     (case query32 R r h_key name offs of (ok, offs) \<Rightarrow>
        if ok = 0 then Some (False, offs, s)
        else (case set_hook n_cpu (ntkrn_base s + offs) new old s of
                None \<Rightarrow> None
              | Some (b, s) \<Rightarrow> Some (b, offs, s)))"

text \<open>The same for \<open>NtTerminateProcess\<close>, whose address is also kept.\<close>

definition hook_terminate :: "'r reg_api \<Rightarrow> 'r \<Rightarrow> handle \<Rightarrow> u32 \<Rightarrow> driver_image \<Rightarrow> u32
    \<Rightarrow> ('e, 'z) drv_state_scheme \<Rightarrow> (bool \<times> u32 \<times> ('e, 'z) drv_state_scheme) option" where
  "hook_terminate R r h_key n_cpu I offs s =
     (case query32 R r h_key ''sym__NtTerminateProcess@8'' offs of (ok, offs) \<Rightarrow>
        if ok = 0 then Some (False, offs, s)
        else let s = s\<lparr>nt_terminate_process := ntkrn_base s + offs\<rparr> in
             (case set_hook n_cpu (nt_terminate_process s) (new_nt_terminate_process I) (old_nt_terminate_process I) s of
                None \<Rightarrow> None
              | Some (b, s) \<Rightarrow> Some (b, offs, s)))"

text \<open>The steps up to the first that fails.\<close>

fun first_failing :: "(u32 \<Rightarrow> 's \<Rightarrow> (bool \<times> u32 \<times> 's) option) list \<Rightarrow> u32 \<Rightarrow> 's \<Rightarrow> (bool \<times> 's) option" where
  "first_failing [] offs s = Some (True, s)"
| "first_failing (f # fs) offs s =
     (case f offs s of
        None \<Rightarrow> None
      | Some (b, offs, s) \<Rightarrow> if b then first_failing fs offs s else Some (False, s))"

definition init_debug :: "'r reg_api \<Rightarrow> 'r \<Rightarrow> handle \<Rightarrow> u32 \<Rightarrow> driver_image \<Rightarrow> u32
    \<Rightarrow> ('e, 'z) drv_state_scheme \<Rightarrow> (bool \<times> ('e, 'z) drv_state_scheme) option" where
  "init_debug R r h_key n_cpu I offs s =
     (case query32 R r h_key ''sym__ETHREAD.ThreadListEntry'' (thread_enth_offs s) of (ok, v) \<Rightarrow>
      let s = s\<lparr>thread_enth_offs := v\<rparr> in
      if ok = 0 then Some (False, s)
      else case query32 R r h_key ''sym__NtResumeThread@8'' offs of (ok, offs) \<Rightarrow>
      if ok = 0 then Some (False, s)
      else let s = s\<lparr>nt_resume_thread := ntkrn_base s + offs\<rparr> in
      (case first_failing
         [hook_terminate R r h_key n_cpu I,
          hook_symbol R r h_key n_cpu ''sym__NtTerminateThread@8'' (new_nt_terminate_thread I) (old_nt_terminate_thread I),
          hook_symbol R r h_key n_cpu ''sym__NtCreateThread@32'' (new_nt_create_thread I) (old_nt_create_thread I),
          hook_symbol R r h_key n_cpu ''sym__KiDispatchException@20'' (new_ki_dispatch_exception I) (old_ki_dispatch_exception I)]
         offs s of
         None \<Rightarrow> None
       | Some (b, s) \<Rightarrow> Some (b, if b then log_call SetImageNotify s else s)))"

section \<open>What a step and a run of steps does\<close>

lemma hook_symbol_done:
  assumes "hook_symbol R r h_key n_cpu name new old offs s = Some (True, offs', t)"
  shows "set_hook n_cpu (ntkrn_base s + offs') new old s = Some (True, t)
    \<and> query32 R r h_key name offs = (1, offs')"
  using assms by (auto simp: hook_symbol_def query32_def reg_query_val_def split: prod.splits option.splits if_splits)

end
