(* ===== verification/Syscall.thy ===== *)
theory Syscall
  imports Init
begin

text \<open>
  The entry of the driver, \<open>src/kernel/sys/syscall.c\<close>: a call of \<open>NtTerminateProcess\<close> from user mode
  with the access key as exit status is a system call of the driver. Its arguments are captured,
  its buffers locked, the handler of its number runs, and the buffers are unlocked. The table of
  handlers ends with \<open>dbg_countinue\<close>; \<open>dbg_get_version\<close> is from \<open>driver.c\<close>.
\<close>

section \<open>The table\<close>

abbreviation (input) DBG_VERSION :: u32 where "DBG_VERSION \<equiv> 1"

definition dbg_get_version :: "syscall \<Rightarrow> ('z kstate_scheme, u32) op" where
  "dbg_get_version d =
     (if out_size d = 4 then and_then (write32 (out_data d) DBG_VERSION) (\<lambda>_. ret 1) else ret 0)"

definition syscall_table :: "('e, ('e, 'z) drv_state_scheme) kenv
    \<Rightarrow> (syscall \<Rightarrow> (('e, 'z) drv_state_scheme, u32) lop) list" where
  "syscall_table E =
     [\<lambda>d. run_op (dbg_get_version d),
      \<lambda>d. run_op (dbg_open_process E d),
      dbg_terminate_process E,
      \<lambda>d. run_op (dbg_attach_call E d),
      \<lambda>d. run_op (dbg_get_message E d),
      \<lambda>d. run_op (dbg_set_filter E d),
      \<lambda>d. run_op (dbg_countinue E d)]"

abbreviation (input) SC_MAX :: u32 where "SC_MAX \<equiv> 7"
abbreviation (input) SC_DAT_LIMIT :: u32 where "SC_DAT_LIMIT \<equiv> 0x100000"

section \<open>The gate\<close>

text \<open>
  \<open>probe_user a n\<close> is the exception that probing and copying \<open>n\<close> bytes at the user address \<open>a\<close>
  raises, if any; \<open>old_term\<close> and \<open>old_zw_term\<close> are the functions the gate stands in front of.
\<close>

record 's gate_env =
  probe_user :: "addr \<Rightarrow> nat \<Rightarrow> ntstatus option"
  mm :: mm_api
  old_nt_term :: "handle \<Rightarrow> ntstatus \<Rightarrow> 's \<Rightarrow> ntstatus \<times> 's"
  old_zw_term :: "handle \<Rightarrow> ntstatus \<Rightarrow> 's \<Rightarrow> ntstatus \<times> 's"

definition sizeof_syscall :: nat where
  "sizeof_syscall = 20"

text \<open>\<open>fastcpy(&call, h_process, sizeof(syscall))\<close>\<close>

definition read_syscall :: "mem \<Rightarrow> addr \<Rightarrow> syscall" where
  "read_syscall m a = \<lparr>number = rd32 m a, in_data = rd32 m (a + 4), in_size = rd32 m (a + 8),
     out_data = rd32 m (a + 12), out_size = rd32 m (a + 16)\<rparr>"

definition no_lock :: buf_lock where
  "no_lock = \<lparr>mdl = NULL, data = NULL\<rparr>"

text \<open>
  A buffer of the call: nothing to do for \<open>NULL\<close>, otherwise it is locked. The result says whether
  the call goes on, and carries the lock and the pointer the handler will use.
\<close>

definition lock_buffer :: "mm_api \<Rightarrow> addr \<Rightarrow> u32 \<Rightarrow> 'z kstate_scheme \<Rightarrow> (bool \<times> buf_lock \<times> addr) \<times> 'z kstate_scheme" where
  "lock_buffer M buff sz s =
     (if buff = NULL then ((True, no_lock, NULL), s)
      else case dbg_lock_um_buff M buff sz s of
        ((ok, l), s) \<Rightarrow> ((ok \<noteq> 0, l, if ok \<noteq> 0 then data l else buff), s))"

text \<open>
  The \<open>do ... while (0)\<close> with the values of \<open>status\<close>, \<open>in_lock\<close> and \<open>out_lock\<close> when it is left.
\<close>

definition gate_body :: "('e, ('e, 'z) drv_state_scheme) kenv \<Rightarrow> ('e, 'z) drv_state_scheme gate_env \<Rightarrow> handle
    \<Rightarrow> (('e, 'z) drv_state_scheme, ntstatus \<times> buf_lock \<times> buf_lock) lop" where
  "gate_body E G h_process s =
     (case probe_user G h_process sizeof_syscall of
        Some code \<Rightarrow> run_op (ret (code, no_lock, no_lock)) s
      | None \<Rightarrow>
          let call = read_syscall (kmem s) h_process in
          if SC_MAX \<le> number call \<or> SC_DAT_LIMIT < in_size call \<or> SC_DAT_LIMIT < out_size call
          then run_op (ret (STATUS_UNSUCCESSFUL, no_lock, no_lock)) s
          else (case lock_buffer (mm G) (in_data call) (in_size call) s of ((ok, in_lock, p), s) \<Rightarrow>
            if \<not> ok then run_op (ret (STATUS_UNSUCCESSFUL, in_lock, no_lock)) s
            else (case lock_buffer (mm G) (out_data call) (out_size call) s of ((ok, out_lock, q), s) \<Rightarrow>
              if \<not> ok then run_op (ret (STATUS_UNSUCCESSFUL, in_lock, out_lock)) s
              else followed_by ((syscall_table E ! unat (number call)) (call\<lparr>in_data := p, out_data := q\<rparr>))
                (\<lambda>succs. run_op (ret (if succs \<noteq> 0 then STATUS_SUCCESS else STATUS_UNSUCCESSFUL, in_lock, out_lock))) s)))"

definition unlock_buffer :: "buf_lock \<Rightarrow> 'z kstate_scheme \<Rightarrow> 'z kstate_scheme" where
  "unlock_buffer l s = (if data l \<noteq> NULL then dbg_unlock_um_buff l s else s)"

definition serve_syscall :: "('e, ('e, 'z) drv_state_scheme) kenv \<Rightarrow> ('e, 'z) drv_state_scheme gate_env \<Rightarrow> handle
    \<Rightarrow> (('e, 'z) drv_state_scheme, ntstatus) lop" where
  "serve_syscall E G h_process =
     followed_by (gate_body E G h_process) (\<lambda>(status, in_lock, out_lock).
     followed_by (run_op (doing (unlock_buffer in_lock))) (\<lambda>_.
     followed_by (run_op (doing (unlock_buffer out_lock))) (\<lambda>_.
     run_op (ret status))))"

definition new_zw_term_proc :: "('e, ('e, 'z) drv_state_scheme) kenv \<Rightarrow> ('e, 'z) drv_state_scheme gate_env \<Rightarrow> handle
    \<Rightarrow> ntstatus \<Rightarrow> (('e, 'z) drv_state_scheme, ntstatus) lop" where
  "new_zw_term_proc E G h_process exit_status s =
     (if from_user E \<and> exit_status = sc_key s then serve_syscall E G h_process s
      else Some (Inr (old_zw_term G h_process exit_status s)))"

definition new_nt_term_proc :: "('e, ('e, 'z) drv_state_scheme) kenv \<Rightarrow> ('e, 'z) drv_state_scheme gate_env \<Rightarrow> handle
    \<Rightarrow> ntstatus \<Rightarrow> (('e, 'z) drv_state_scheme, ntstatus) lop" where
  "new_nt_term_proc E G h_process exit_status s =
     (if from_user E \<and> exit_status = sc_key s then serve_syscall E G h_process s
      else Some (Inr (old_nt_term G h_process exit_status s)))"

section \<open>Initialisation\<close>

text \<open>The key, then the hook of \<open>NtTerminateProcess\<close>; \<open>offset\<close> is the variable on the stack.\<close>

definition init_syscall :: "'r reg_api \<Rightarrow> 'r \<Rightarrow> handle \<Rightarrow> u32 \<Rightarrow> driver_image \<Rightarrow> u32
    \<Rightarrow> ('e, 'z) drv_state_scheme \<Rightarrow> (bool \<times> ('e, 'z) drv_state_scheme) option" where
  "init_syscall R r h_key n_cpu I offset s =
     (case query32 R r h_key ''sc_key'' (sc_key s) of (ok, v) \<Rightarrow>
      let s = s\<lparr>sc_key := v\<rparr> in
      if ok = 0 then Some (False, s)
      else (case hook_symbol R r h_key n_cpu ''sym__NtTerminateProcess@8''
                   (new_nt_term_proc_at I) (old_nt_term_proc_at I) offset s of
              None \<Rightarrow> None
            | Some (b, _, s) \<Rightarrow> Some (b, s)))"

end
