(* ===== verification/Driver.thy ===== *)
theory Driver
  imports Syscall
begin

text \<open>
  \<open>DriverEntry\<close> of \<open>src/kernel/sys/driver.c\<close>, which starts the components in order, and the hook of
  the system's service table, \<open>src/kernel/sys/sdt_hook.c\<close>, which nothing calls any more.
\<close>

section \<open>DriverEntry\<close>

text \<open>
  What the components' initialisation needs: the answers of the executive, the driver's image, the
  number of processors, and what the variables \<open>offs\<close> of \<open>init_debug\<close> and \<open>offset\<close> of
  \<open>init_syscall\<close> hold at first.
\<close>

record 'r entry_env =
  reg :: "'r reg_api"
  sysinfo :: sysinfo_api
  image :: driver_image
  n_cpus :: u32
  offs_junk :: u32
  offset_junk :: u32

text \<open>The body of the \<open>do ... while (0)\<close> after the service key is open.\<close>

definition start_components :: "'r entry_env \<Rightarrow> handle \<Rightarrow> 'r \<Rightarrow> ('e, 'z) drv_state_scheme
    \<Rightarrow> (ntstatus \<times> ('e, 'z) drv_state_scheme) option" where
  "start_components D h_key r s =
     (case get_kernel_base (sysinfo D) s of (base, s) \<Rightarrow>
      let s = s\<lparr>ntkrn_base := base\<rparr> in
      if base = NULL then Some (STATUS_UNSUCCESSFUL, s)
      else (case init_hook_list s of (ok, s) \<Rightarrow>
      if \<not> ok then Some (STATUS_UNSUCCESSFUL, s)
      else (case init_dbg_item s of
        Inl e \<Rightarrow> None
      | Inr (ok, s) \<Rightarrow>
      if ok = 0 then Some (STATUS_UNSUCCESSFUL, s)
      else (case init_debug (reg D) r h_key (n_cpus D) (image D) (offs_junk D) s of
        None \<Rightarrow> None
      | Some (ok, s) \<Rightarrow>
      if \<not> ok then Some (STATUS_UNSUCCESSFUL, s)
      else (case init_syscall (reg D) r h_key (n_cpus D) (image D) (offset_junk D) s of
        None \<Rightarrow> None
      | Some (ok, s) \<Rightarrow> Some (if ok then STATUS_SUCCESS else STATUS_UNSUCCESSFUL, s))))))"

definition DriverEntry :: "'r entry_env \<Rightarrow> u16 list \<Rightarrow> 'r \<Rightarrow> ('e, 'z) drv_state_scheme
    \<Rightarrow> (ntstatus \<times> 'r \<times> ('e, 'z) drv_state_scheme) option" where
  "DriverEntry D reg_pth r s =
     (case reg_open_key (reg D) reg_pth NULL r of (h_key, r) \<Rightarrow>
        if h_key = NULL then Some (STATUS_UNSUCCESSFUL, r, s)
        else (case start_components D h_key r s of
                None \<Rightarrow> None
              | Some (st, s) \<Rightarrow> Some (st, zw_close (reg D) h_key r, s)))"

section \<open>set_sdt_hook\<close>

text \<open>
  \<open>service_table\<close> is the address of the array of service functions, \<open>op\<close> that of the variable that
  receives the old function.
\<close>

definition set_sdt_hook :: "addr \<Rightarrow> u32 \<Rightarrow> addr \<Rightarrow> addr \<Rightarrow> 'z kstate_scheme \<Rightarrow> 'z kstate_scheme" where
  "set_sdt_hook service_table num np op s =
     (let (c, s) = mem_open s;
          s = set_mem (wr32 (kmem s) op (rd32 (kmem s) (service_table + 4 * num))) s;
          s = set_mem (wr32 (kmem s) (service_table + 4 * num) np) s
      in mem_close c s)"

end
