(* ===== verification/Init_Properties.thy ===== *)
theory Init_Properties
  imports Driver Hook_Properties Debug_Demo
begin

text \<open>
  What the initialisation leaves behind: when \<open>init_debug\<close> reports success all four functions lead
  into the driver; and they still do when \<open>DriverEntry\<close> fails after it.
\<close>

section \<open>What set_hook leaves alone\<close>

text \<open>Besides memory, pool and descriptors nothing of the driver's state, and no notify routine.\<close>

definition untouched :: "'z hstate_scheme \<Rightarrow> 'z hstate_scheme \<Rightarrow> bool" where
  "untouched s t \<longleftrightarrow> hstate.more t = hstate.more s \<and> (SetImageNotify \<in> set (calls t)) = (SetImageNotify \<in> set (calls s))"

lemma mem_alloc_untouched: "mem_alloc n s = (p, t) \<Longrightarrow> untouched s t"
  by (auto simp: untouched_def mem_alloc_def log_call_def split: list.splits)

lemmas untouched_unfold = untouched_def Let_def mem_open_def mem_close_def set_mem_def set_desc_def log_call_def mem_free_def

lemma hot_patch_old_untouched: "hot_patch_old src old h s = Some (b, t) \<Longrightarrow> untouched s t"
  by (auto simp: hot_patch_old_def untouched_unfold
      split: prod.splits option.splits if_splits bool.splits dest!: mem_alloc_untouched)

lemma hot_patch_untouched: "hot_patch src new old s = Some (h, t) \<Longrightarrow> untouched s t"
  by (auto simp: hot_patch_def untouched_unfold
      split: prod.splits option.splits if_splits bool.splits dest!: mem_alloc_untouched hot_patch_old_untouched)

lemma hook_code_untouched: "hook_code n_cpu src new old s = Some (h, t) \<Longrightarrow> untouched s t"
  by (auto simp: hook_code_def untouched_unfold global_lock_effect_def global_unlock_effect_def
      split: prod.splits option.splits if_splits bool.splits dest!: mem_alloc_untouched)

lemma set_hook_untouched: "set_hook n_cpu src new old s = Some (b, t) \<Longrightarrow> untouched s t"
  by (auto simp: set_hook_def insert_hook_def untouched_def split: option.splits if_splits
      dest!: hot_patch_untouched hook_code_untouched)

lemma untouched_fields:
  fixes s t :: "('e, 'z) drv_state_scheme"
  assumes "untouched s t"
  shows "ntkrn_base t = ntkrn_base s" "thread_enth_offs t = thread_enth_offs s" "nt_resume_thread t = nt_resume_thread s"
    "nt_terminate_process t = nt_terminate_process s" "sc_key t = sc_key s"
  using assms by (cases s; cases t; simp add: untouched_def)+

lemma hooks_ready_sub:
  assumes "hooks_ready s H" and "kmem t = kmem s" and "set (pool t) \<subseteq> set (pool s)"
  shows "hooks_ready t H"
  using assms
  by (fastforce simp: hooks_ready_def intro: hook_site_cong hook_clear_mono elim!: sorted_wrt_mono_rel [rotated])

section \<open>Offsets\<close>

definition hook_table :: "driver_image \<Rightarrow> (string \<times> addr \<times> addr) list" where
  "hook_table I =
     [(''sym__NtTerminateProcess@8'', new_nt_terminate_process I, old_nt_terminate_process I),
      (''sym__NtTerminateThread@8'', new_nt_terminate_thread I, old_nt_terminate_thread I),
      (''sym__NtCreateThread@32'', new_nt_create_thread I, old_nt_create_thread I),
      (''sym__KiDispatchException@20'', new_ki_dispatch_exception I, old_ki_dispatch_exception I)]"

text \<open>The registry holds the offset \<open>off name\<close> under each name the driver asks for.\<close>

definition holds_offsets :: "'r reg_api \<Rightarrow> 'r \<Rightarrow> handle \<Rightarrow> (string \<Rightarrow> u32) \<Rightarrow> bool" where
  "holds_offsets R r h off \<longleftrightarrow>
     (\<forall>name \<in> {''sym__ETHREAD.ThreadListEntry'', ''sym__NtResumeThread@8'', ''sym__NtTerminateProcess@8'',
         ''sym__NtTerminateThread@8'', ''sym__NtCreateThread@32'', ''sym__KiDispatchException@20''}.
       zw_query_value R h (wide name) r = (STATUS_SUCCESS, le32 (off name)))"

lemma holds_offsetsD:
  assumes "holds_offsets R r h off"
  shows "zw_query_value R h (wide ''sym__ETHREAD.ThreadListEntry'') r = (STATUS_SUCCESS, le32 (off ''sym__ETHREAD.ThreadListEntry''))"
    and "zw_query_value R h (wide ''sym__NtResumeThread@8'') r = (STATUS_SUCCESS, le32 (off ''sym__NtResumeThread@8''))"
    and "zw_query_value R h (wide ''sym__NtTerminateProcess@8'') r = (STATUS_SUCCESS, le32 (off ''sym__NtTerminateProcess@8''))"
    and "zw_query_value R h (wide ''sym__NtTerminateThread@8'') r = (STATUS_SUCCESS, le32 (off ''sym__NtTerminateThread@8''))"
    and "zw_query_value R h (wide ''sym__NtCreateThread@32'') r = (STATUS_SUCCESS, le32 (off ''sym__NtCreateThread@32''))"
    and "zw_query_value R h (wide ''sym__KiDispatchException@20'') r = (STATUS_SUCCESS, le32 (off ''sym__KiDispatchException@20''))"
  using assms by (simp_all only: holds_offsets_def ball_simps simp_thms)

lemma query32_value:
  assumes "zw_query_value R h (wide name) r = (STATUS_SUCCESS, le32 x)"
  shows "query32 R r h name v = (1, x)"
  using assms by (simp add: query32_def reg_query_val_def Let_def)

lemma query32_missing:
  assumes "\<not> NT_SUCCESS (fst (zw_query_value R h (wide name) r))"
  shows "query32 R r h name v = (0, v)"
  using assms by (cases "zw_query_value R h (wide name) r") (simp add: query32_def reg_query_val_def)

section \<open>init_debug\<close>

definition hook_sites :: "addr \<Rightarrow> (string \<Rightarrow> u32) \<Rightarrow> driver_image \<Rightarrow> (addr \<times> addr \<times> addr) list" where
  "hook_sites base off I = map (\<lambda>(name, new, old). (base + off name, new, old)) (hook_table I)"

lemma hook_step:
  assumes "zw_query_value R h (wide name) r = (STATUS_SUCCESS, le32 (off name))"
  shows "hook_symbol R r h n_cpu name new old offs s =
    map_option (\<lambda>(b, s). (b, off name, s)) (set_hook n_cpu (ntkrn_base s + off name) new old s)"
  by (simp add: hook_symbol_def query32_value [OF assms] split: option.splits)

lemma hook_terminate_step:
  fixes s :: "('e, 'z) drv_state_scheme"
  assumes "zw_query_value R h (wide ''sym__NtTerminateProcess@8'') r = (STATUS_SUCCESS, le32 (off ''sym__NtTerminateProcess@8''))"
  shows "hook_terminate R r h n_cpu I offs s =
    (let a = ntkrn_base s + off ''sym__NtTerminateProcess@8'' in
     map_option (\<lambda>(b, s). (b, off ''sym__NtTerminateProcess@8'', s))
       (set_hook n_cpu a (new_nt_terminate_process I) (old_nt_terminate_process I) (s\<lparr>nt_terminate_process := a\<rparr>)))"
  by (simp add: hook_terminate_def query32_value [OF assms] Let_def split: option.splits)

lemma first_failing_Cons:
  "first_failing (f # fs) offs s = Some (True, t) \<longleftrightarrow>
    (\<exists>offs' s'. f offs s = Some (True, offs', s') \<and> first_failing fs offs' s' = Some (True, t))"
  by (auto split: option.splits)

lemma first_failing_Nil: "first_failing [] offs s = Some (True, t) \<longleftrightarrow> t = s"
  by auto

text \<open>A successful run is four successful hooks, one after the other.\<close>

lemma init_debug_hooks:
  fixes s :: "('e, 'z) drv_state_scheme"
  assumes "holds_offsets R r h off" and "init_debug R r h n_cpu I offs s = Some (True, t)"
  shows "\<exists>u v. kmem u = kmem s \<and> pool u = pool s \<and> engine.installs n_cpu (hook_sites (ntkrn_base s) off I) u v
    \<and> t = log_call SetImageNotify v \<and> untouched u v
    \<and> thread_enth_offs u = off ''sym__ETHREAD.ThreadListEntry''
    \<and> nt_resume_thread u = ntkrn_base s + off ''sym__NtResumeThread@8''
    \<and> nt_terminate_process u = ntkrn_base s + off ''sym__NtTerminateProcess@8''
    \<and> ntkrn_base u = ntkrn_base s"
proof -
  note val = holds_offsetsD [OF assms(1)]
  define u where "u = s\<lparr>thread_enth_offs := off ''sym__ETHREAD.ThreadListEntry'',
    nt_resume_thread := ntkrn_base s + off ''sym__NtResumeThread@8'',
    nt_terminate_process := ntkrn_base s + off ''sym__NtTerminateProcess@8''\<rparr>"
  let ?n = "ntkrn_base s"
  have base: "ntkrn_base u = ?n" by (simp add: u_def)
  let ?u = "s\<lparr>thread_enth_offs := off ''sym__ETHREAD.ThreadListEntry'', nt_resume_thread := ?n + off ''sym__NtResumeThread@8''\<rparr>"
  obtain v where t: "t = log_call SetImageNotify v" and run: "first_failing
         [hook_terminate R r h n_cpu I,
          hook_symbol R r h n_cpu ''sym__NtTerminateThread@8'' (new_nt_terminate_thread I) (old_nt_terminate_thread I),
          hook_symbol R r h n_cpu ''sym__NtCreateThread@32'' (new_nt_create_thread I) (old_nt_create_thread I),
          hook_symbol R r h n_cpu ''sym__KiDispatchException@20'' (new_ki_dispatch_exception I) (old_ki_dispatch_exception I)]
         (off ''sym__NtResumeThread@8'') ?u = Some (True, v)"
    using assms(2) unfolding init_debug_def query32_value [OF val(1)] query32_value [OF val(2)]
    by (auto simp: Let_def split: option.splits if_splits)
  have start: "?u\<lparr>nt_terminate_process := ?n + off ''sym__NtTerminateProcess@8''\<rparr> = u" by (simp add: u_def)
  obtain s1 s2 s3 where
    h1: "set_hook n_cpu (?n + off ''sym__NtTerminateProcess@8'') (new_nt_terminate_process I) (old_nt_terminate_process I) u = Some (True, s1)" and
    h2: "set_hook n_cpu (ntkrn_base s1 + off ''sym__NtTerminateThread@8'') (new_nt_terminate_thread I) (old_nt_terminate_thread I) s1 = Some (True, s2)" and
    h3: "set_hook n_cpu (ntkrn_base s2 + off ''sym__NtCreateThread@32'') (new_nt_create_thread I) (old_nt_create_thread I) s2 = Some (True, s3)" and
    h4: "set_hook n_cpu (ntkrn_base s3 + off ''sym__KiDispatchException@20'') (new_ki_dispatch_exception I) (old_ki_dispatch_exception I) s3 = Some (True, v)"
    using run unfolding first_failing_Cons first_failing_Nil hook_terminate_step [where off = off, OF val(3)]
        hook_step [where off = off, OF val(4)] hook_step [where off = off, OF val(5)] hook_step [where off = off, OF val(6)] Let_def
    by (auto simp: start)
  note un = set_hook_untouched [OF h1] set_hook_untouched [OF h2] set_hook_untouched [OF h3] set_hook_untouched [OF h4]
  have "ntkrn_base s1 = ?n" "ntkrn_base s2 = ?n" "ntkrn_base s3 = ?n"
    using untouched_fields(1) [OF un(1)] untouched_fields(1) [OF un(2)] untouched_fields(1) [OF un(3)] base by simp_all
  with h1 h2 h3 h4 have "engine.installs n_cpu (hook_sites ?n off I) u v"
    by (auto simp: hook_sites_def hook_table_def)
  moreover have "untouched u v" using un by (simp add: untouched_def)
  ultimately show ?thesis using t by (intro exI [of _ u] exI [of _ v]) (simp add: u_def)
qed

definition ready_to_hook :: "addr \<Rightarrow> (string \<Rightarrow> u32) \<Rightarrow> driver_image \<Rightarrow> 'z kstate_scheme \<Rightarrow> bool" where
  "ready_to_hook base off I s \<longleftrightarrow> hooks_ready s (map (\<lambda>(f, new, old). (f, old)) (hook_sites base off I))"

text \<open>C23: when the registry holds the offsets and \<open>init_debug\<close> reports success, all four kernel
  functions lead into the driver's replacements, also the ones hooked first; the offsets of the
  functions that are only called are stored, and the notify routine is registered.\<close>

theorem init_debug_redirects:
  assumes "holds_offsets R r h off" and "ready_to_hook (ntkrn_base s) off I s"
    and "init_debug R r h n_cpu I offs s = Some (True, t)"
  shows "(\<forall>(name, new, old) \<in> set (hook_table I). redirected (kmem t) (ntkrn_base s + off name) new)
    \<and> thread_enth_offs t = off ''sym__ETHREAD.ThreadListEntry''
    \<and> nt_resume_thread t = ntkrn_base s + off ''sym__NtResumeThread@8''
    \<and> nt_terminate_process t = ntkrn_base s + off ''sym__NtTerminateProcess@8''
    \<and> SetImageNotify \<in> set (calls t)"
proof -
  from init_debug_hooks [OF assms(1,3)] obtain u v where
    u: "kmem u = kmem s" "pool u = pool s" "engine.installs n_cpu (hook_sites (ntkrn_base s) off I) u v"
      "t = log_call SetImageNotify v" "untouched u v"
      "thread_enth_offs u = off ''sym__ETHREAD.ThreadListEntry''"
      "nt_resume_thread u = ntkrn_base s + off ''sym__NtResumeThread@8''"
      "nt_terminate_process u = ntkrn_base s + off ''sym__NtTerminateProcess@8''" by blast
  have "hooks_ready u (map (\<lambda>(f, new, old). (f, old)) (hook_sites (ntkrn_base s) off I))"
    by (rule hooks_ready_sub [OF assms(2) [unfolded ready_to_hook_def]]) (use u in simp_all)
  from engine.installs_redirect [OF u(3) this]
  have "redirected (kmem v) (ntkrn_base s + off name) new" if "(name, new, old) \<in> set (hook_table I)" for name new old
    using that unfolding hook_sites_def by force
  moreover have "thread_enth_offs t = thread_enth_offs v" "nt_resume_thread t = nt_resume_thread v"
    "nt_terminate_process t = nt_terminate_process v" by (simp_all add: u(4) log_call_def)
  ultimately show ?thesis using u(4-8) untouched_fields [OF u(5)] by (auto simp: kernel_simps)
qed

section \<open>A driver that fails to start\<close>

lemma get_kernel_base_found:
  assumes "get_kernel_base Q s = (base, t)" and "base \<noteq> NULL"
  shows "kmem t = kmem s" and "set (pool t) \<subseteq> set (pool s)"
    and "(SetImageNotify \<in> set (calls t)) = (SetImageNotify \<in> set (calls s))"
  using assms
  by (auto simp: get_kernel_base_def mem_alloc_def Let_def kernel_simps split: list.splits if_splits)

definition unregistered :: "(u32 \<Rightarrow> 'z kstate_scheme \<Rightarrow> (bool \<times> u32 \<times> 'z kstate_scheme) option) \<Rightarrow> bool" where
  "unregistered f \<longleftrightarrow> (\<forall>offs s b offs' t. f offs s = Some (b, offs', t) \<longrightarrow>
     SetImageNotify \<notin> set (calls s) \<longrightarrow> SetImageNotify \<notin> set (calls t))"

lemma first_failing_unregistered:
  assumes "\<forall>f \<in> set fs. unregistered f" and "first_failing fs offs s = Some (b, t)"
    and "SetImageNotify \<notin> set (calls s)"
  shows "SetImageNotify \<notin> set (calls t)"
  using assms
proof (induction fs arbitrary: offs s)
  case (Cons f fs)
  then show ?case unfolding unregistered_def by (auto split: option.splits if_splits; blast)
qed simp

lemma hook_symbol_unregistered:
  "unregistered (hook_symbol R r h n_cpu name new old)" "unregistered (hook_terminate R r h n_cpu I)"
  by (auto simp: unregistered_def hook_symbol_def hook_terminate_def untouched_def Let_def
      split: prod.splits option.splits if_splits dest!: set_hook_untouched)

lemma init_debug_failed:
  fixes s :: "('e, 'z) drv_state_scheme"
  assumes "init_debug R r h n_cpu I offs s = Some (False, t)" and "SetImageNotify \<notin> set (calls s)"
  shows "SetImageNotify \<notin> set (calls t)"
  using assms
  by (auto simp: init_debug_def Let_def hook_symbol_unregistered simp del: first_failing.simps
      split: prod.splits option.splits if_splits dest!: first_failing_unregistered [rotated])

lemma start_without_key:
  assumes "reg_open_key (reg D) reg_pth NULL r = (h, r1)" and "h \<noteq> NULL"
    and "get_kernel_base (sysinfo D) s = (base, s1)" and "base \<noteq> NULL"
    and "\<not> NT_SUCCESS (fst (zw_query_value (reg D) h (wide ''sc_key'') r1))"
  shows "DriverEntry D reg_pth r s =
    (case init_debug (reg D) r1 h (n_cpus D) (image D) (offs_junk D)
            (s1\<lparr>ntkrn_base := base, hook_descriptor_list := [], dbg_item_list := []\<rparr>) of
        None \<Rightarrow> None
      | Some (ok, s) \<Rightarrow> Some (STATUS_UNSUCCESSFUL, zw_close (reg D) h r1, s))"
  using assms
  by (auto simp: DriverEntry_def start_components_def init_hook_list_def init_dbg_item_def init_syscall_def
      query32_missing Let_def split: option.splits)

text \<open>C27: when the access key is missing, \<open>DriverEntry\<close> fails and closes the service key, but what
  \<open>init_debug\<close> has done before stays: all four kernel functions still lead into the driver, whose
  image the system unloads after the failure.\<close>

theorem failed_start_leaves_hooks:
  fixes s :: "('e, 'z) drv_state_scheme"
  assumes "reg_open_key (reg D) reg_pth NULL r = (h, r1)" and "h \<noteq> NULL"
    and "fst (get_kernel_base (sysinfo D) s) = base" and "base \<noteq> NULL"
    and "holds_offsets (reg D) r1 h off" and "ready_to_hook base off (image D) s"
    and "\<not> NT_SUCCESS (fst (zw_query_value (reg D) h (wide ''sc_key'') r1))"
    and "SetImageNotify \<notin> set (calls s)"
    and "DriverEntry D reg_pth r s = Some (st, r2, t)" and "SetImageNotify \<in> set (calls t)"
  shows "st = STATUS_UNSUCCESSFUL \<and> r2 = zw_close (reg D) h r1
    \<and> (\<forall>(name, new, old) \<in> set (hook_table (image D)). redirected (kmem t) (base + off name) new)"
proof -
  obtain s1 where s1: "get_kernel_base (sysinfo D) s = (base, s1)" using assms(3) by (cases "get_kernel_base (sysinfo D) s") simp
  note found = get_kernel_base_found [OF s1 assms(4)]
  define s2 where "s2 = s1\<lparr>ntkrn_base := base, hook_descriptor_list := [], dbg_item_list := []\<rparr>"
  have s2: "kmem s2 = kmem s" "set (pool s2) \<subseteq> set (pool s)" "ntkrn_base s2 = base" "SetImageNotify \<notin> set (calls s2)"
    using found assms(8) by (simp_all add: s2_def)
  note run = start_without_key [OF assms(1,2) s1 assms(4,7), folded s2_def]
  have "ready_to_hook base off (image D) s2"
    using hooks_ready_sub [OF assms(6) [unfolded ready_to_hook_def] s2(1,2)] by (simp add: ready_to_hook_def)
  with s2(3) have ready: "ready_to_hook (ntkrn_base s2) off (image D) s2" by simp
  obtain ok where init: "init_debug (reg D) r1 h (n_cpus D) (image D) (offs_junk D) s2 = Some (ok, t)"
    and st: "st = STATUS_UNSUCCESSFUL" "r2 = zw_close (reg D) h r1"
    using run assms(9) by (auto split: option.splits)
  have ok using init_debug_failed [of "reg D" r1 h "n_cpus D" "image D" "offs_junk D" s2 t] init s2(4) assms(10) by (cases ok) auto
  with init_debug_redirects [OF assms(5) ready] init s2(3) st show ?thesis by simp
qed

end
