(* ===== verification/Init_Demo.thy ===== *)
theory Init_Demo
  imports Init_Properties
begin

text \<open>
  A kernel whose functions are compiled for hot patching: there the initialisation succeeds, and the
  properties of the initialisation are tried out on it.
\<close>

section \<open>Functions compiled for hot patching\<close>

text \<open>
  When every function begins with \<open>mov edi,edi\<close> behind five bytes of padding, as the kernel's do,
  the hooks succeed one after the other.
\<close>

definition patchable :: "mem \<Rightarrow> addr \<Rightarrow> bool" where
  "patchable m f \<longleftrightarrow> hot_patch_room m f \<and> rd16 m f = 0xFF8B"

definition patch_apart :: "addr \<times> addr \<times> addr \<Rightarrow> addr \<times> addr \<times> addr \<Rightarrow> bool" where
  "patch_apart = (\<lambda>(f, new, old) (f', new', old').
     disjoint_blocks (f - 5) 7 (f' - 5) 7 \<and> disjoint_blocks old 4 (f' - 5) 7)"

lemma patchable_cong:
  assumes "\<And>x. in_range (f - 5) 7 x \<Longrightarrow> m' x = m x" and "patchable m f"
  shows "patchable m' f"
proof -
  have "m' (f - 5 + word_of_nat i) = m (f - 5 + word_of_nat i)" if "i < 7" for i
    using assms(1) in_range_add [of i 7 "f - 5"] that by simp
  from this [of 0] this [of 1] this [of 2] this [of 3] this [of 4] this [of 5] this [of 6]
  have "m' (f - 5) = m (f - 5)" "m' (f - 4) = m (f - 4)" "m' (f - 3) = m (f - 3)" "m' (f - 2) = m (f - 2)"
    "m' (f - 1) = m (f - 1)" "m' f = m f" "m' (f + 1) = m (f + 1)" by (simp_all add: algebra_simps)
  then show ?thesis using assms(2) by (simp add: patchable_def hot_patch_room_def rd16_def rd32_def algebra_simps)
qed

lemma set_hook_patchable:
  assumes "src \<noteq> NULL" "new \<noteq> NULL" "old \<noteq> NULL" and "pool s = h # ps" "h \<noteq> NULL"
    and "patchable (kmem s) src" and "hot_patch_bytes_free src old"
  shows "\<exists>t. set_hook n_cpu src new old s = Some (True, t) \<and> pool t = ps
    \<and> (\<forall>x. \<not> in_range (src - 5) 7 x \<and> \<not> in_range old 4 x \<longrightarrow> kmem t x = kmem s x)"
proof -
  from hot_patch_mov_edi [OF assms(1-5) _ _ assms(7)] assms(6) obtain t where
    t: "hot_patch src new old s = Some (h, t)"
      "\<forall>x. \<not> in_range (src - 5) 7 x \<and> \<not> in_range old 4 x \<longrightarrow> kmem t x = kmem s x"
    unfolding patchable_def by blast
  have "pool t = ps" using hot_patch_mov_edi_state(1) [OF assms(1-5) _ _ t(1)] assms(6) by (simp add: patchable_def)
  then show ?thesis using t assms(5) by (intro exI [of _ "insert_hook h t"]) (simp add: set_hook_def insert_hook_def)
qed

lemma installs_patchable:
  assumes "\<forall>(f, new, old) \<in> set hs. f \<noteq> NULL \<and> new \<noteq> NULL \<and> old \<noteq> NULL \<and> patchable (kmem s) f \<and> hot_patch_bytes_free f old"
    and "sorted_wrt patch_apart hs" and "length hs \<le> length (pool s)" and "NULL \<notin> set (take (length hs) (pool s))"
  shows "\<exists>u. engine.installs n_cpu hs s u"
  using assms
proof (induction hs arbitrary: s)
  case (Cons x hs)
  obtain f new old where x: "x = (f, new, old)" by (cases x)
  obtain h ps where p: "pool s = h # ps" "h \<noteq> NULL" using Cons.prems(3,4) by (cases "pool s") auto
  from set_hook_patchable [where h = h and ps = ps and s = s and src = f and new = new and old = old] Cons.prems(1) p obtain t where
    t: "set_hook n_cpu f new old s = Some (True, t)" "pool t = ps"
      "\<forall>x. \<not> in_range (f - 5) 7 x \<and> \<not> in_range old 4 x \<longrightarrow> kmem t x = kmem s x"
    unfolding x by auto
  have "patchable (kmem t) f'" if "(f', new', old') \<in> set hs" for f' new' old'
  proof (rule patchable_cong)
    show "patchable (kmem s) f'" using Cons.prems(1) that by auto
    have "patch_apart x (f', new', old')" using Cons.prems(2) that by simp
    then show "kmem t z = kmem s z" if "in_range (f' - 5) 7 z" for z
      using t(3) that by (auto simp: x patch_apart_def disjoint_blocks_def)
  qed
  then have "\<exists>u. engine.installs n_cpu hs t u"
    using Cons.prems p t(2) by (intro Cons.IH) auto
  then show ?case using t(1) by (auto simp: x)
qed (simp add: exI)

lemma init_debug_runs:
  fixes s :: "('e, 'z) drv_state_scheme"
  assumes "holds_offsets R r h off" and "\<And>u. kmem u = kmem s \<Longrightarrow> pool u = pool s \<Longrightarrow>
      \<exists>v :: ('e, 'z) drv_state_scheme. engine.installs n_cpu (hook_sites (ntkrn_base s) off I) u v"
  shows "\<exists>t. init_debug R r h n_cpu I offs s = Some (True, t)"
proof -
  note val = holds_offsetsD [OF assms(1)]
  let ?n = "ntkrn_base s"
  let ?u0 = "s\<lparr>thread_enth_offs := off ''sym__ETHREAD.ThreadListEntry'', nt_resume_thread := ?n + off ''sym__NtResumeThread@8''\<rparr>"
  define u where "u = ?u0\<lparr>nt_terminate_process := ?n + off ''sym__NtTerminateProcess@8''\<rparr>"
  have "kmem u = kmem s" "pool u = pool s" by (simp_all add: u_def)
  from assms(2) [OF this] obtain v where "engine.installs n_cpu (hook_sites ?n off I) u v" by blast
  then obtain s1 s2 s3 where
    h: "set_hook n_cpu (?n + off ''sym__NtTerminateProcess@8'') (new_nt_terminate_process I) (old_nt_terminate_process I) u = Some (True, s1)"
      "set_hook n_cpu (?n + off ''sym__NtTerminateThread@8'') (new_nt_terminate_thread I) (old_nt_terminate_thread I) s1 = Some (True, s2)"
      "set_hook n_cpu (?n + off ''sym__NtCreateThread@32'') (new_nt_create_thread I) (old_nt_create_thread I) s2 = Some (True, s3)"
      "set_hook n_cpu (?n + off ''sym__KiDispatchException@20'') (new_ki_dispatch_exception I) (old_ki_dispatch_exception I) s3 = Some (True, v)"
    by (auto simp: hook_sites_def hook_table_def)
  have n: "ntkrn_base u = ?n" by (simp add: u_def)
  have n1: "ntkrn_base s1 = ?n" using untouched_fields(1) [OF set_hook_untouched [OF h(1)]] n by simp
  have n2: "ntkrn_base s2 = ?n" using untouched_fields(1) [OF set_hook_untouched [OF h(2)]] n1 by simp
  have n3: "ntkrn_base s3 = ?n" using untouched_fields(1) [OF set_hook_untouched [OF h(3)]] n2 by simp
  have "first_failing
         [hook_terminate R r h n_cpu I,
          hook_symbol R r h n_cpu ''sym__NtTerminateThread@8'' (new_nt_terminate_thread I) (old_nt_terminate_thread I),
          hook_symbol R r h n_cpu ''sym__NtCreateThread@32'' (new_nt_create_thread I) (old_nt_create_thread I),
          hook_symbol R r h n_cpu ''sym__KiDispatchException@20'' (new_ki_dispatch_exception I) (old_ki_dispatch_exception I)]
         (off ''sym__NtResumeThread@8'') ?u0 = Some (True, v)"
    using h n1 n2 n3
    by (simp add: hook_terminate_step [where off = off, OF val(3)] hook_step [where off = off, OF val(4)]
        hook_step [where off = off, OF val(5)] hook_step [where off = off, OF val(6)] Let_def u_def)
  then show ?thesis
    unfolding init_debug_def query32_value [OF val(1)] query32_value [OF val(2)] by (simp add: Let_def)
qed

section \<open>A kernel with four functions\<close>

definition demo_image :: driver_image where
  "demo_image =
     \<lparr>new_nt_terminate_process = 0x2000, old_nt_terminate_process = 0x3000,
      new_nt_terminate_thread = 0x2100, old_nt_terminate_thread = 0x3004,
      new_nt_create_thread = 0x2200, old_nt_create_thread = 0x3008,
      new_ki_dispatch_exception = 0x2300, old_ki_dispatch_exception = 0x300C,
      new_nt_term_proc_at = 0x2400, old_nt_term_proc_at = 0x3010\<rparr>"

definition demo_offsets :: "(wname \<times> u32) list" where
  "demo_offsets =
     [(wide ''sym__ETHREAD.ThreadListEntry'', 0x22C), (wide ''sym__NtResumeThread@8'', 0x1400),
      (wide ''sym__NtTerminateProcess@8'', 0x1000), (wide ''sym__NtTerminateThread@8'', 0x1100),
      (wide ''sym__NtCreateThread@32'', 0x1200), (wide ''sym__KiDispatchException@20'', 0x1300)]"

definition demo_offset :: "string \<Rightarrow> u32" where
  "demo_offset name = the (map_of demo_offsets (wide name))"

text \<open>The registry with the offsets; the state says whether the access key is there, too.\<close>

definition demo_reg :: "bool reg_api" where
  "demo_reg =
     \<lparr>zw_open_key = (\<lambda>h n r. ((STATUS_SUCCESS, 0x50), r)), zw_create_key = (\<lambda>h n r. ((STATUS_UNSUCCESSFUL, 0), r)),
      zw_enumerate_key = (\<lambda>h i r. (STATUS_UNSUCCESSFUL, [])),
      zw_query_value = (\<lambda>h n key. case map_of demo_offsets n of
         Some v \<Rightarrow> (STATUS_SUCCESS, le32 v)
       | None \<Rightarrow> if key then (STATUS_SUCCESS, le32 0xABCD) else (STATUS_UNSUCCESSFUL, [])),
      zw_set_value = (\<lambda>h n t d r. (STATUS_SUCCESS, r)), zw_delete_key = (\<lambda>h r. (STATUS_SUCCESS, r)), zw_close = (\<lambda>h r. r)\<rparr>"

definition demo_kernel :: "(bool, unit) drv_state_scheme" where
  "demo_kernel = demo_state\<lparr>kmem := (\<lambda>_. 0x90)(0x101000 := 0x8B, 0x101001 := 0xFF, 0x101100 := 0x8B, 0x101101 := 0xFF,
       0x101200 := 0x8B, 0x101201 := 0xFF, 0x101300 := 0x8B, 0x101301 := 0xFF),
     pool := [0x500000, 0x500100, 0x500200, 0x500300, 0x500400]\<rparr>"

definition demo_entry :: "bool entry_env" where
  "demo_entry = \<lparr>reg = demo_reg, sysinfo = \<lparr>query_status = STATUS_INFO_LENGTH_MISMATCH, query_length = 0x100,
       fill_status = STATUS_SUCCESS, first_module = 0x100000\<rparr>,
     image = demo_image, n_cpus = 1, offs_junk = 0, offset_junk = 0\<rparr>"


lemma demo_holds_offsets: "holds_offsets demo_reg r h demo_offset"
proof -
  have "list_all (\<lambda>name. map_of demo_offsets (wide name) \<noteq> None) [''sym__ETHREAD.ThreadListEntry'', ''sym__NtResumeThread@8'', ''sym__NtTerminateProcess@8'',
         ''sym__NtTerminateThread@8'', ''sym__NtCreateThread@32'', ''sym__KiDispatchException@20'']" by code_simp
  then show ?thesis unfolding holds_offsets_def by (auto simp: demo_reg_def demo_offset_def)
qed

lemma demo_sites: "hook_sites 0x100000 demo_offset demo_image =
    [(0x101000, 0x2000, 0x3000), (0x101100, 0x2100, 0x3004), (0x101200, 0x2200, 0x3008), (0x101300, 0x2300, 0x300C)]"
  by code_simp

lemma demo_patchable: "\<forall>f \<in> {0x101000, 0x101100, 0x101200, 0x101300}. patchable (kmem demo_kernel) f"
  by (simp add: patchable_def hot_patch_room_def rd16_def rd32_def demo_kernel_def)

lemma demo_installs:
  assumes "kmem u = kmem demo_kernel" and "set (pool u) \<subseteq> set (pool demo_kernel)" and "4 \<le> length (pool u)"
  shows "\<exists>v. engine.installs n_cpu (hook_sites 0x100000 demo_offset demo_image) u v"
proof (rule installs_patchable)
  have "NULL \<notin> set (pool demo_kernel)" by (simp add: demo_kernel_def)
  then show "NULL \<notin> set (take (length (hook_sites 0x100000 demo_offset demo_image)) (pool u))"
    using assms(2) by (meson in_set_takeD subsetD)
  show "sorted_wrt patch_apart (hook_sites 0x100000 demo_offset demo_image)"
    unfolding demo_sites by (simp add: patch_apart_def disjoint_blocksI)
  show "length (hook_sites 0x100000 demo_offset demo_image) \<le> length (pool u)"
    using assms(3) by (simp add: demo_sites)
  show "\<forall>(f, new, old) \<in> set (hook_sites 0x100000 demo_offset demo_image). f \<noteq> NULL \<and> new \<noteq> NULL \<and> old \<noteq> NULL
      \<and> patchable (kmem u) f \<and> hot_patch_bytes_free f old"
    using demo_patchable unfolding demo_sites assms(1) by (simp add: hot_patch_bytes_free_def disjoint_blocksI)
qed

lemma hook_clearI:
  assumes "disjoint_blocks (src - 5) 10 (f - 5) 45" and "disjoint_blocks old 4 (f - 5) 45"
    and "\<forall>b \<in> set ps. disjoint_blocks b 64 (f - 5) 45"
  shows "hook_clear ps src old f"
  using assms by (auto simp: hook_clear_def hook_writes_def disjoint_blocks_def)

definition blocks_apart :: "addr \<Rightarrow> nat \<Rightarrow> addr \<Rightarrow> nat \<Rightarrow> bool" where
  "blocks_apart a n b k \<longleftrightarrow> n \<le> unat (b - a) \<and> k \<le> unat (a - b)"

lemma blocks_apart_disjoint: "blocks_apart a n b k \<Longrightarrow> disjoint_blocks a n b k"
  by (simp add: blocks_apart_def disjoint_blocksI)

lemma demo_ready: "ready_to_hook 0x100000 demo_offset demo_image (demo_kernel\<lparr>ntkrn_base := b\<rparr>)"
proof -
  let ?m = "kmem demo_kernel" and ?ps = "pool demo_kernel"
  have short: "short_insn ?m (f + word_of_nat i)" if "f \<in> {0x101000, 0x101100, 0x101200, 0x101300}" "i < 5" for f i
    using that unfolding less_five by (intro short_insnI) (auto simp: demo_kernel_def is_prefix_bytes)
  have ps: "?ps = [0x500000, 0x500100, 0x500200, 0x500300, 0x500400]" by (simp add: demo_kernel_def)
  have site: "hook_site ?m f old ?ps" if "(f, old) \<in> {(0x101000, 0x3000), (0x101100, 0x3004), (0x101200, 0x3008), (0x101300, 0x300C)}" for f old
    using that short unfolding ps
    by (auto simp: hook_site_def hook_layout_def splice_layout_def hot_patch_bytes_free_def intro!: disjoint_blocksI)
  have apart: "list_all (\<lambda>(f, old). list_all (\<lambda>f'. f = f' \<or> blocks_apart (f - 5) 10 (f' - 5) 45
      \<and> blocks_apart old 4 (f' - 5) 45 \<and> list_all (\<lambda>b. blocks_apart b 64 (f' - 5) 45) [0x500000, 0x500100, 0x500200, 0x500300, 0x500400])
        [0x101000, 0x101100, 0x101200, 0x101300])
      [(0x101000, 0x3000), (0x101100, 0x3004), (0x101200, 0x3008), (0x101300, 0x300C)]"
    by (simp add: blocks_apart_def)
  have clear: "hook_clear ?ps f old f'"
    if "(f, old) \<in> set [(0x101000, 0x3000), (0x101100, 0x3004), (0x101200, 0x3008), (0x101300, 0x300C)]"
      "f' \<in> set [0x101000, 0x101100, 0x101200, 0x101300]" "f \<noteq> f'" for f old f'
  proof -
    from bspec [OF apart [unfolded list_all_iff] that(1)] that(2,3)
    have "blocks_apart (f - 5) 10 (f' - 5) 45 \<and> blocks_apart old 4 (f' - 5) 45 \<and> (\<forall>b \<in> set ?ps. blocks_apart b 64 (f' - 5) 45)"
      unfolding ps prod.case list_all_iff by blast
    then show ?thesis using blocks_apart_disjoint by (intro hook_clearI) blast+
  qed
  show ?thesis unfolding ready_to_hook_def demo_sites hooks_ready_def using site clear by simp
qed

section \<open>Witnesses\<close>

lemma demo_init_runs:
  "\<exists>t. init_debug demo_reg r h n_cpu demo_image offs (demo_kernel\<lparr>ntkrn_base := 0x100000\<rparr>) = Some (True, t)"
proof (rule init_debug_runs [OF demo_holds_offsets])
  fix u :: "(bool, unit) drv_state_scheme"
  assume "kmem u = kmem (demo_kernel\<lparr>ntkrn_base := 0x100000\<rparr>)" "pool u = pool (demo_kernel\<lparr>ntkrn_base := 0x100000\<rparr>)"
  then have "kmem u = kmem demo_kernel" "set (pool u) \<subseteq> set (pool demo_kernel)" "4 \<le> length (pool u)" by (simp_all add: demo_kernel_def)
  from demo_installs [OF this] show "\<exists>v :: (bool, unit) drv_state_scheme. engine.installs n_cpu (hook_sites (ntkrn_base (demo_kernel\<lparr>ntkrn_base := 0x100000\<rparr>)) demo_offset demo_image) u v"
    by simp
qed

lemma init_debug_redirects_witness:
  "\<exists>t. init_debug demo_reg True 0x50 1 demo_image 0 (demo_kernel\<lparr>ntkrn_base := 0x100000\<rparr>) = Some (True, t)
    \<and> redirected (kmem t) 0x101000 0x2000 \<and> redirected (kmem t) 0x101300 0x2300 \<and> thread_enth_offs t = 0x22C"
proof -
  obtain t where t: "init_debug demo_reg True 0x50 1 demo_image 0 (demo_kernel\<lparr>ntkrn_base := 0x100000\<rparr>) = Some (True, t)"
    using demo_init_runs by blast
  have r: "ready_to_hook (ntkrn_base (demo_kernel\<lparr>ntkrn_base := 0x100000\<rparr>)) demo_offset demo_image (demo_kernel\<lparr>ntkrn_base := 0x100000\<rparr>)"
    using demo_ready [of "0x100000"] by simp
  have o: "0x100000 + demo_offset ''sym__NtTerminateProcess@8'' = 0x101000" "0x100000 + demo_offset ''sym__KiDispatchException@20'' = 0x101300"
    "demo_offset ''sym__ETHREAD.ThreadListEntry'' = 0x22C" by code_simp+
  show ?thesis
    using t init_debug_redirects [OF demo_holds_offsets r t] by (simp add: hook_table_def demo_image_def o)
qed

lemma failed_start_leaves_hooks_witness:
  "\<exists>r t. DriverEntry demo_entry [] False demo_kernel = Some (STATUS_UNSUCCESSFUL, r, t)
    \<and> redirected (kmem t) 0x101000 0x2000 \<and> redirected (kmem t) 0x101300 0x2300"
proof -
  define s1 where "s1 = snd (get_kernel_base (sysinfo demo_entry) demo_kernel)"
  define s2 where "s2 = s1\<lparr>ntkrn_base := 0x100000, hook_descriptor_list := [], dbg_item_list := []\<rparr>"
  have base: "get_kernel_base (sysinfo demo_entry) demo_kernel = (0x100000, s1)"
    by (simp add: s1_def get_kernel_base_def demo_entry_def demo_kernel_def mem_alloc_def Let_def)
  have s2: "kmem s2 = kmem demo_kernel" "pool s2 = tl (pool demo_kernel)" "ntkrn_base s2 = 0x100000"
    by (simp_all add: s2_def s1_def get_kernel_base_def demo_entry_def demo_kernel_def mem_alloc_def Let_def kernel_simps)
  have "\<exists>t. init_debug demo_reg False 0x50 1 demo_image 0 s2 = Some (True, t)"
  proof (rule init_debug_runs [OF demo_holds_offsets])
    fix u :: "(bool, unit) drv_state_scheme"
    assume "kmem u = kmem s2" "pool u = pool s2"
    then have "kmem u = kmem demo_kernel" "set (pool u) \<subseteq> set (pool demo_kernel)" "4 \<le> length (pool u)"
      using s2 by (simp_all add: demo_kernel_def)
    from demo_installs [OF this] show "\<exists>v :: (bool, unit) drv_state_scheme. engine.installs 1 (hook_sites (ntkrn_base s2) demo_offset demo_image) u v"
      unfolding s2(3) .
  qed
  then obtain t where t: "init_debug demo_reg False 0x50 1 demo_image 0 s2 = Some (True, t)" by blast
  from init_debug_hooks [OF demo_holds_offsets t] have notify: "SetImageNotify \<in> set (calls t)" by (auto simp: kernel_simps)
  have key: "\<not> NT_SUCCESS (fst (zw_query_value demo_reg 0x50 (wide ''sc_key'') False))"
    by code_simp
  have op: "reg_open_key (reg demo_entry) [] NULL False = (0x50, False)" "(0x50 :: handle) \<noteq> NULL"
    by (simp_all add: demo_entry_def demo_reg_def reg_open_key_def)
  have e: "reg demo_entry = demo_reg" "image demo_entry = demo_image" "n_cpus demo_entry = 1" "offs_junk demo_entry = 0"
    by (simp_all add: demo_entry_def)
  have run: "DriverEntry demo_entry [] False demo_kernel = Some (STATUS_UNSUCCESSFUL, zw_close demo_reg 0x50 False, t)"
    using start_without_key [OF op base, folded s2_def] key t e by simp
  have "ready_to_hook 0x100000 demo_offset demo_image demo_kernel" using demo_ready by (simp add: ready_to_hook_def hooks_ready_def)
  moreover have "SetImageNotify \<notin> set (calls demo_kernel)" by (simp add: demo_kernel_def demo_state_def)
  moreover have o: "0x100000 + demo_offset ''sym__NtTerminateProcess@8'' = 0x101000" "0x100000 + demo_offset ''sym__KiDispatchException@20'' = 0x101300"
    by code_simp+
  ultimately show ?thesis
    using failed_start_leaves_hooks [OF op, of demo_kernel "0x100000" demo_offset] run base key notify e demo_holds_offsets
    by (simp add: hook_table_def demo_image_def)
qed

end
