(* ===== verification/Gate_Properties.thy ===== *)
theory Gate_Properties
  imports Driver Debug_Demo
begin

text \<open>
  The gate of \<open>src/kernel/sys/syscall.c\<close>: whatever a call asks for, its buffers are locked and
  unlocked in pairs; and a call without buffers reaches handlers that use them.
\<close>

section \<open>Operations that leave the locked buffers alone\<close>

definition mdl_same :: "'z kstate_scheme \<Rightarrow> 'z kstate_scheme \<Rightarrow> bool" where
  "mdl_same s t \<longleftrightarrow> (\<forall>q. mdl_live (calls t) q = mdl_live (calls s) q)"

definition mdl_keeps :: "('z kstate_scheme, 'a) op \<Rightarrow> bool" where
  "mdl_keeps f \<longleftrightarrow> (\<forall>s v t. f s = Inr (v, t) \<longrightarrow> mdl_same s t)"

named_theorems mdl_rules \<open>operations that leave the locked buffers alone\<close>

lemma mdl_same_refl [simp]: "mdl_same s s"
  by (simp add: mdl_same_def)

lemma mdl_same_trans: "mdl_same s t \<Longrightarrow> mdl_same t u \<Longrightarrow> mdl_same s u"
  by (simp add: mdl_same_def)

lemma mdl_keepsI: "(\<And>s v t. f s = Inr (v, t) \<Longrightarrow> mdl_same s t) \<Longrightarrow> mdl_keeps f"
  by (simp add: mdl_keeps_def)

lemma mdl_keeps_then [mdl_rules]: "mdl_keeps f \<Longrightarrow> (\<And>v. mdl_keeps (g v)) \<Longrightarrow> mdl_keeps (and_then f g)"
  unfolding mdl_keeps_def and_then_def by (fastforce intro: mdl_same_trans split: sum.splits)

lemma mdl_keeps_ret [mdl_rules]: "mdl_keeps (ret v)"
  by (simp add: mdl_keeps_def)

lemma mdl_keeps_if [mdl_rules]: "(b \<Longrightarrow> mdl_keeps f) \<Longrightarrow> (\<not> b \<Longrightarrow> mdl_keeps g) \<Longrightarrow> mdl_keeps (if b then f else g)"
  by simp

lemma mdl_keeps_prod [mdl_rules]: "(\<And>a b. mdl_keeps (f a b)) \<Longrightarrow> mdl_keeps (case p of (a, b) \<Rightarrow> f a b)"
  by (simp split: prod.splits)

lemma mdl_keeps_option [mdl_rules]: "mdl_keeps f \<Longrightarrow> (\<And>a. mdl_keeps (g a)) \<Longrightarrow> mdl_keeps (case p of None \<Rightarrow> f | Some a \<Rightarrow> g a)"
  by (simp split: option.splits)

lemma mdl_keeps_let [mdl_rules]: "mdl_keeps (f x) \<Longrightarrow> mdl_keeps (Let x f)"
  by simp

lemma mdl_keeps_doing [mdl_rules]: "(\<And>s. mdl_same s (f s)) \<Longrightarrow> mdl_keeps (doing f)"
  by (auto simp: mdl_keeps_def)

lemma mdl_keeps_state: "(\<And>s. mdl_same s (snd (f s))) \<Longrightarrow> mdl_keeps (\<lambda>s. Inr (f s))"
  by (auto simp: mdl_keeps_def) (metis snd_conv)

text \<open>The basic operations.\<close>

lemma mdl_same_log: "(\<And>q. mdl_live [c] q = q) \<Longrightarrow> mdl_same s (log_call c s)"
  by (simp add: mdl_same_def kernel_simps mdl_live_append)

lemma mdl_same_calls: "calls t = calls s \<Longrightarrow> mdl_same s t"
  by (simp add: mdl_same_def)

lemma mdl_same_logs:
  "mdl_same s (log_call (ObRef p) s)" "mdl_same s (log_call (ObDeref p) s)" "mdl_same s (log_call SpinAcquire s)"
  "mdl_same s (log_call SpinRelease s)" "mdl_same s (log_call (PoolAlloc n p) s)" "mdl_same s (log_call (PoolFree p) s)"
  "mdl_same s (log_call (CloseHandle p) s)" "mdl_same s (log_call (TerminateProcess p st) s)"
  "mdl_same s (log_call (StartThread p) s)"
  by (rule mdl_same_log; auto)+

lemma mdl_same_free: "mdl_same s (mem_free p s)"
  by (simp add: mem_free_def mdl_same_logs)

lemma mdl_same_alloc: "mdl_same s (snd (mem_alloc n s))"
proof (cases "pool s")
  case (Cons p ps)
  have "mdl_same s (s\<lparr>pool := ps\<rparr>)" by (rule mdl_same_calls) simp
  then have "mdl_same s (log_call (PoolAlloc n p) (s\<lparr>pool := ps\<rparr>))" by (rule mdl_same_trans) (rule mdl_same_logs)
  then show ?thesis using Cons by (simp add: mem_alloc_def)
qed (simp add: mem_alloc_def mdl_same_logs)

lemma mdl_keeps_basic [mdl_rules]:
  "mdl_keeps (read32 p)" "mdl_keeps (write32 p v)" "mdl_keeps (read_block p n)" "mdl_keeps (write_block p bs)"
  "mdl_keeps (use_var x)" "mdl_keeps (the_item a)" "mdl_keeps (the_chan c)"
  by (auto simp: mdl_keeps_def read32_def write32_def read_block_def write_block_def use_var_def the_item_def the_chan_def
      intro!: mdl_same_calls simp: kernel_simps split: if_splits option.splits)

lemma mdl_keeps_object [mdl_rules]: "mdl_keeps (take_object r)" "mdl_keeps (drop_object p)"
  by (auto simp: mdl_keeps_def take_object_def drop_object_def mdl_same_logs split: prod.splits if_splits)

lemma mdl_keeps_find [mdl_rules]: "mdl_keeps (dbg_find_item x y)"
proof (rule mdl_keepsI)
  fix s :: "('e, 'z) dstate_scheme" and v t
  assume f: "dbg_find_item x y s = Inr (v, t)"
  have *: "mdl_same s (log_call SpinRelease u)" if "calls u = calls s @ [SpinAcquire]" for u :: "('e, 'z) dstate_scheme"
  proof -
    have "mdl_same (log_call SpinAcquire s) u" by (rule mdl_same_calls) (simp add: that kernel_simps)
    then show ?thesis by (meson mdl_same_logs(3,4) mdl_same_trans)
  qed
  show "mdl_same s t"
    using f by (auto simp: dbg_find_item_def Let_def set_item_def kernel_simps split: sum.splits option.splits if_splits intro!: *)
qed

lemma mdl_keeps_free [mdl_rules]: "mdl_keeps (channel_free c)"
proof -
  have "mdl_same s (mem_free c (s\<lparr>chans := (chans s)(c := None)\<rparr>))" for s :: "('e, 'z) dstate_scheme"
    by (rule mdl_same_trans [OF mdl_same_calls mdl_same_free]) simp
  then show ?thesis unfolding channel_free_def by (intro mdl_rules)
qed

lemma mdl_keeps_deref [mdl_rules]: "mdl_keeps (dbg_deref_item a)"
proof -
  have free: "mdl_same s (mem_free a (log_call (ObDeref p) (log_call (ObDeref q) (s\<lparr>items := (items s)(a := None)\<rparr>))))"
    for p q and s :: "('e, 'z) dstate_scheme"
    by (rule mdl_same_trans [OF mdl_same_trans [OF mdl_same_trans [OF mdl_same_calls mdl_same_logs(2)] mdl_same_logs(2)] mdl_same_free]) simp
  show ?thesis
    unfolding dbg_deref_item_def
    by (intro mdl_rules free mdl_same_calls) (simp_all add: set_item_def)
qed

lemma mdl_keeps_delete [mdl_rules]: "mdl_keeps (dbg_delete_item K a)"
  unfolding dbg_delete_item_def release_chan_def
  by (intro mdl_rules mdl_same_calls) (simp_all add: set_item_def)

lemma mdl_keeps_alloc [mdl_rules]: "mdl_keeps (channel_alloc K junk m n)" "mdl_keeps (dbg_new_item cur p)"
proof -
  show "mdl_keeps (channel_alloc K junk m n)"
  proof (rule mdl_keepsI)
    fix s v t
    assume "channel_alloc K junk m n s = Inr (v, t)"
    then have "calls t = calls (snd (mem_alloc (sizeof_channel + m + n) s))"
      by (auto simp: channel_alloc_def Let_def split: prod.splits if_splits)
    then show "mdl_same s t" by (rule mdl_same_trans [OF mdl_same_alloc mdl_same_calls])
  qed
  show "mdl_keeps (dbg_new_item cur p)"
  proof (rule mdl_keepsI)
    fix s v t
    assume run: "dbg_new_item cur p s = Inr (v, t)"
    let ?u = "snd (mem_alloc sizeof_dbg_item s)"
    show "mdl_same s t"
    proof (cases "fst (mem_alloc sizeof_dbg_item s) = NULL")
      case True
      with run have "t = ?u" by (simp add: dbg_new_item_def split: prod.splits)
      then show ?thesis using mdl_same_alloc by simp
    next
      case False
      with run have "calls t = calls (log_call (ObRef p) (log_call (ObRef cur) ?u))"
        by (auto simp: dbg_new_item_def Let_def set_item_def kernel_simps split: prod.splits)
      then show ?thesis
        by (rule mdl_same_trans [OF mdl_same_trans [OF mdl_same_trans [OF mdl_same_alloc mdl_same_logs(1)] mdl_same_logs(1)] mdl_same_calls])
    qed
  qed
qed

section \<open>The handlers\<close>

text \<open>Neither what other threads do while a handler waits nor \<open>NtTerminateProcess\<close> leaves a buffer locked.\<close>

definition mdl_quiet :: "('e, ('e, 'z) drv_state_scheme) kenv \<Rightarrow> bool" where
  "mdl_quiet E \<longleftrightarrow> (\<forall>h st s. mdl_same s (snd (terminate E h st s))) \<and> (\<forall>c s. mdl_same s (snd (take_msg E c s)))
     \<and> (\<forall>c b s. mdl_same s (snd (answer E c b s)))"

definition mdl_keepsl :: "('z kstate_scheme, 'a) lop \<Rightarrow> bool" where
  "mdl_keepsl f \<longleftrightarrow> (\<forall>s v t. f s = Some (Inr (v, t)) \<longrightarrow> mdl_same s t)"

lemma mdl_keepsl_then [mdl_rules]: "mdl_keepsl f \<Longrightarrow> (\<And>v. mdl_keepsl (g v)) \<Longrightarrow> mdl_keepsl (followed_by f g)"
  unfolding mdl_keepsl_def followed_by_def by (fastforce intro: mdl_same_trans split: option.splits sum.splits)

lemma mdl_keepsl_run [mdl_rules]: "mdl_keeps f \<Longrightarrow> mdl_keepsl (run_op f)"
  by (simp add: mdl_keeps_def mdl_keepsl_def run_op_def)

lemma mdl_keepsl_if [mdl_rules]: "(b \<Longrightarrow> mdl_keepsl f) \<Longrightarrow> (\<not> b \<Longrightarrow> mdl_keepsl g) \<Longrightarrow> mdl_keepsl (if b then f else g)"
  by simp

lemma mdl_keepsl_prod [mdl_rules]: "(\<And>a b. mdl_keepsl (f a b)) \<Longrightarrow> mdl_keepsl (case p of (a, b) \<Rightarrow> f a b)"
  by (simp split: prod.splits)

lemma get_version_mdl: "mdl_keeps (dbg_get_version d)"
  unfolding dbg_get_version_def by (intro mdl_rules)

lemma open_process_mdl: "mdl_keeps (dbg_open_process E d)"
  unfolding dbg_open_process_def by (intro mdl_rules)

lemma attach_mdl: "mdl_keeps (dbg_attach_call E d)"
  unfolding dbg_attach_call_def attach_body_def by (intro mdl_rules mdl_same_calls) (simp add: set_item_def)

lemma find_mine_mdl [mdl_rules]: "mdl_keeps (find_mine E pid)"
  unfolding find_mine_def by (intro mdl_rules)

lemma set_filter_mdl: "mdl_keeps (dbg_set_filter E d)"
  unfolding dbg_set_filter_def by (intro mdl_rules mdl_same_calls) (simp add: set_item_def)

lemma get_message_mdl: "mdl_quiet E \<Longrightarrow> mdl_keeps (dbg_get_message E d)"
  unfolding dbg_get_message_def by (intro mdl_rules mdl_keeps_state) (simp_all add: mdl_quiet_def)

lemma countinue_mdl: "mdl_quiet E \<Longrightarrow> mdl_keeps (dbg_countinue E d)"
  unfolding dbg_countinue_def by (intro mdl_rules mdl_keeps_state) (simp_all add: mdl_quiet_def)

lemma terminate_one_mdl:
  assumes "mdl_quiet E"
  shows "mdl_keeps (terminate_one E debug)"
proof -
  have t: "mdl_same s (log_call (CloseHandle h) (snd (terminate E h st (log_call (TerminateProcess h st) s))))" for h st s
    using assms by (meson mdl_quiet_def mdl_same_logs(7,8) mdl_same_trans)
  show ?thesis unfolding terminate_one_def by (intro mdl_rules t)
qed

lemma terminate_loop_same:
  assumes "terminate_loop E process s = Some r"
  shows "mdl_quiet E \<longrightarrow> (\<forall>v t. r = Inr (v, t) \<longrightarrow> mdl_same s t)"
proof (rule terminate_loop.raw_induct
    [where P = "\<lambda>E process s r. mdl_quiet E \<longrightarrow> (\<forall>v t. r = Inr (v, t) \<longrightarrow> mdl_same s t)", OF _ assms])
  fix loop E process s r
  assume ih: "\<And>E process s r. loop E process s = Some r \<Longrightarrow> mdl_quiet E \<longrightarrow> (\<forall>v t. r = Inr (v, t) \<longrightarrow> mdl_same s t)"
    and step: "(case dbg_find_item process NULL s of Inl e \<Rightarrow> Some (Inl e)
      | Inr (debug, s) \<Rightarrow> if debug = NULL then Some (Inr ((), s))
          else case terminate_one E debug s of Inl e \<Rightarrow> Some (Inl e) | Inr (u, s) \<Rightarrow> loop E process s) = Some r"
  show "mdl_quiet E \<longrightarrow> (\<forall>v t. r = Inr (v, t) \<longrightarrow> mdl_same s t)"
  proof (intro impI allI)
    fix v t
    assume quiet: "mdl_quiet E" and r: "r = Inr (v, t)"
    obtain debug s1 where f: "dbg_find_item process NULL s = Inr (debug, s1)"
      using step r by (cases "dbg_find_item process NULL s") auto
    have s1: "mdl_same s s1" using mdl_keeps_find f unfolding mdl_keeps_def by blast
    show "mdl_same s t"
    proof (cases "debug = NULL")
      case True
      then have "t = s1" using step r f by simp
      then show ?thesis using s1 by simp
    next
      case False
      obtain u s2 where d: "terminate_one E debug s1 = Inr (u, s2)"
        using step r f False by (cases "terminate_one E debug s1") auto
      then have "loop E process s2 = Some (Inr (v, t))" using step r f False by simp
      from ih [OF this] quiet have "mdl_same s2 t" by simp
      moreover have "mdl_same s1 s2" using terminate_one_mdl [OF quiet] d unfolding mdl_keeps_def by blast
      ultimately show ?thesis using s1 mdl_same_trans by blast
    qed
  qed
qed

lemma terminate_mdl:
  assumes "mdl_quiet E"
  shows "mdl_keepsl (dbg_terminate_process E d)"
proof -
  have l: "mdl_keepsl (terminate_loop E process)" for process
    using terminate_loop_same assms unfolding mdl_keepsl_def by blast
  have st: "mdl_keeps (\<lambda>s. Inr (case system_thread E of (st, h) \<Rightarrow> start_system_thread st h e s))" for e
    by (rule mdl_keepsI) (auto simp: start_system_thread_def Let_def split: prod.splits if_splits
        intro: mdl_same_trans [OF mdl_same_logs(9) mdl_same_logs(7)] mdl_same_logs(9))
  have fr: "mdl_same s (mem_free e (s\<lparr>term_events := x\<rparr>))" for e x and s :: "('a, 'b) drv_state_scheme"
    by (rule mdl_same_trans [OF mdl_same_calls mdl_same_free]) simp
  have al: "mdl_keeps (\<lambda>s :: ('a, 'b) drv_state_scheme. Inr (mem_alloc sizeof_term_event s))"
    by (rule mdl_keeps_state) (rule mdl_same_alloc)
  have nt: "mdl_keeps (nt_terminate E h st)" for h st
  proof (rule mdl_keepsI)
    fix s v t
    assume "nt_terminate E h st s = Inr (v, t)"
    then have t: "t = snd (terminate E h st (log_call (TerminateProcess h st) s))" by (simp add: nt_terminate_def)
    have "mdl_same (log_call (TerminateProcess h st) s) t" using assms unfolding t mdl_quiet_def by blast
    then show "mdl_same s t" by (rule mdl_same_trans [OF mdl_same_logs(8)])
  qed
  show ?thesis
    unfolding dbg_terminate_process_def dbg_process_terminated_def post_terminated_def
    by (intro mdl_rules l st fr al nt mdl_same_calls) simp_all
qed

lemma handlers_mdl:
  assumes "mdl_quiet E" and "n < 7"
  shows "mdl_keepsl ((syscall_table E ! n) d)"
proof -
  have "n \<in> {0, 1, 2, 3, 4, 5, 6}" using assms(2) by auto
  then show ?thesis
    by (auto simp: syscall_table_def intro!: mdl_keepsl_run get_version_mdl open_process_mdl attach_mdl
        get_message_mdl set_filter_mdl countinue_mdl terminate_mdl assms(1))
qed

section \<open>The buffers of a call\<close>

text \<open>What a lock adds to the allocated, locked and mapped MDLs, and what unlocking takes away.\<close>

definition with_lock :: "buf_lock \<Rightarrow> addr list \<times> addr list \<times> addr list \<Rightarrow> addr list \<times> addr list \<times> addr list" where
  "with_lock l q = (if data l = NULL then q else case q of (al, lk, mp) \<Rightarrow> (mdl l # al, mdl l # lk, mdl l # mp))"

definition without_lock :: "buf_lock \<Rightarrow> addr list \<times> addr list \<times> addr list \<Rightarrow> addr list \<times> addr list \<times> addr list" where
  "without_lock l q = (if data l = NULL then q
     else case q of (al, lk, mp) \<Rightarrow> (remove1 (mdl l) al, remove1 (mdl l) lk, remove1 (mdl l) mp))"

lemma with_without: "without_lock l (with_lock l q) = q" "without_lock l (with_lock m (with_lock l q)) = with_lock m q"
  by (cases q; simp add: with_lock_def without_lock_def)+

lemma lock_buffer_mdl:
  assumes "lock_buffer M b n s = ((ok, l, p), t)"
  shows "mdl_live (calls t) q = with_lock l (mdl_live (calls s) q)" and "kmem t = kmem s"
    and "b = NULL \<Longrightarrow> ok \<and> p = NULL \<and> l = no_lock \<and> t = s" and "b \<noteq> NULL \<Longrightarrow> ok = (data l \<noteq> NULL)"
    and "b \<noteq> NULL \<Longrightarrow> ok \<Longrightarrow> p = data l"
proof -
  obtain r l' t' where d: "dbg_lock_um_buff M b n s = ((r, l'), t')" by (metis surj_pair)
  note bal = lock_um_buff_balance [OF d]
  show "mdl_live (calls t) q = with_lock l (mdl_live (calls s) q)"
    using assms d bal(1,2) bal(3) [of q] by (auto simp: lock_buffer_def with_lock_def no_lock_def split: if_splits prod.splits)
  show "kmem t = kmem s" using assms d bal(4) by (auto simp: lock_buffer_def split: if_splits)
  show "b = NULL \<Longrightarrow> ok \<and> p = NULL \<and> l = no_lock \<and> t = s" "b \<noteq> NULL \<Longrightarrow> ok = (data l \<noteq> NULL)"
    "b \<noteq> NULL \<Longrightarrow> ok \<Longrightarrow> p = data l"
    using assms d bal(1,2) by (auto simp: lock_buffer_def split: if_splits)
qed

lemma unlock_buffer_mdl: "mdl_live (calls (unlock_buffer l s)) q = without_lock l (mdl_live (calls s) q)"
  by (simp add: unlock_buffer_def without_lock_def unlock_um_buff_balance)

text \<open>The body of the gate leaves exactly the two locks it hands on.\<close>

definition served :: "('e, ('e, 'z) drv_state_scheme) kenv \<Rightarrow> syscall \<Rightarrow> bool" where
  "served E call \<longleftrightarrow> number call < 7 \<and> in_size call \<le> 0x100000 \<and> out_size call \<le> 0x100000
     \<and> (\<exists>p q s v t. (syscall_table E ! unat (number call)) (call\<lparr>in_data := p, out_data := q\<rparr>) s = Some (Inr (v, t)) \<and> v \<noteq> 0)"

lemma gate_body_mdl:
  assumes "mdl_quiet E" and "gate_body E G h s = Some (Inr ((st, il, ol), t))"
  shows "mdl_live (calls t) q = with_lock ol (with_lock il (mdl_live (calls s) q))"
    and "st = STATUS_SUCCESS \<Longrightarrow> probe_user G h sizeof_syscall = None \<Longrightarrow> served E (read_syscall (kmem s) h)"
proof -
  have none: "with_lock no_lock x = x" for x by (simp add: with_lock_def no_lock_def)
  let ?call = "read_syscall (kmem s) h"
  have "mdl_live (calls t) q = with_lock ol (with_lock il (mdl_live (calls s) q))
    \<and> (st = STATUS_SUCCESS \<longrightarrow> probe_user G h sizeof_syscall = None \<longrightarrow> served E ?call)"
  proof (cases "probe_user G h sizeof_syscall")
    case (Some code)
    then show ?thesis using assms(2) by (auto simp: gate_body_def run_op_def none)
  next
    case None
    show ?thesis
    proof (cases "7 \<le> number ?call \<or> 0x100000 < in_size ?call \<or> 0x100000 < out_size ?call")
      case True
      then show ?thesis using assms(2) None by (auto simp: gate_body_def run_op_def none Let_def)
    next
      case False
      obtain ok1 l1 p s1 where l1: "lock_buffer (mm G) (in_data ?call) (in_size ?call) s = ((ok1, l1, p), s1)"
        by (metis surj_pair)
      obtain ok2 l2 p2 s2 where l2: "lock_buffer (mm G) (out_data ?call) (out_size ?call) s1 = ((ok2, l2, p2), s2)"
        by (metis surj_pair)
      note m1 = lock_buffer_mdl(1) [OF l1, of q] and m2 = lock_buffer_mdl(1) [OF l2, of q]
      show ?thesis
      proof (cases "ok1 \<and> ok2")
        case False': False
        then show ?thesis
          using assms(2) None False l1 l2 m1 m2 lock_buffer_mdl(3,4) [OF l1] lock_buffer_mdl(3,4) [OF l2]
          by (auto simp: gate_body_def run_op_def none Let_def split: if_splits)
      next
        case True
        let ?h = "(syscall_table E ! unat (number ?call)) (?call\<lparr>in_data := p, out_data := p2\<rparr>)"
        obtain v u where h: "?h s2 = Some (Inr (v, u))" and
          r: "st = (if v \<noteq> 0 then STATUS_SUCCESS else STATUS_UNSUCCESSFUL)" "il = l1" "ol = l2" "t = u"
          using assms(2) None False l1 l2 True
          by (auto simp: gate_body_def run_op_def Let_def followed_by_def split: option.splits sum.splits if_splits)
        have n: "unat (number ?call) < 7" using False by (simp add: not_le word_less_nat_alt)
        from handlers_mdl [OF assms(1) n] h have "mdl_same s2 u" unfolding mdl_keepsl_def by blast
        then have "mdl_live (calls u) q = mdl_live (calls s2) q" unfolding mdl_same_def by blast
        then have "mdl_live (calls t) q = with_lock ol (with_lock il (mdl_live (calls s) q))"
          using m1 m2 r by simp
        moreover have "served E ?call" if "v \<noteq> 0"
          unfolding served_def using False conjI [OF h that] by (intro conjI; (blast | simp add: not_le not_less))
        ultimately show ?thesis using r(1) by auto
      qed
    qed
  qed
  then show "mdl_live (calls t) q = with_lock ol (with_lock il (mdl_live (calls s) q))"
    and "st = STATUS_SUCCESS \<Longrightarrow> probe_user G h sizeof_syscall = None \<Longrightarrow> served E ?call" by blast+
qed


text \<open>User memory that is always there and mapped where it is.\<close>

definition demo_gate :: "'s gate_env" where
  "demo_gate = \<lparr>probe_user = (\<lambda>_ _. None),
     mm = \<lparr>io_allocate_mdl = (\<lambda>b _. b), mm_probe_and_lock = (\<lambda>_. True), mm_map_locked = (\<lambda>m. m)\<rparr>,
     old_nt_term = (\<lambda>_ _ s. (STATUS_SUCCESS, s)), old_zw_term = (\<lambda>_ _ s. (STATUS_SUCCESS, s))\<rparr>"

text \<open>The arguments of a call at \<open>0x200\<close>.\<close>

definition with_call :: "syscall \<Rightarrow> (bool, unit) drv_state_scheme \<Rightarrow> (bool, unit) drv_state_scheme" where
  "with_call d s = s\<lparr>kmem := store (kmem s) 0x200
     (le32 (number d) @ le32 (in_data d) @ le32 (in_size d) @ le32 (out_data d) @ le32 (out_size d))\<rparr>"

definition version_call :: syscall where
  "version_call = \<lparr>number = 0, in_data = 0, in_size = 0, out_data = 0x600, out_size = 4\<rparr>"

lemma version_runs:
  "case new_nt_term_proc demo_env demo_gate 0x200 0 (with_call version_call demo_state) of
     Some (Inr (r, t)) \<Rightarrow> r = STATUS_SUCCESS \<and> rd32 (kmem t) 0x600 = 1 | _ \<Rightarrow> False"
  by code_simp


section \<open>Calls without buffers\<close>

text \<open>C26: a buffer pointer of \<open>NULL\<close> is passed on to the handler, which does not expect it: every
  call of the table with the sizes its handler asks for, but without buffers, makes the driver
  read or write at \<open>NULL\<close> in kernel mode.\<close>

theorem gate_null_buffers_fault:
  assumes "from_user E" and "exit_status = sc_key s" and "probe_user G h sizeof_syscall = None"
    and "number (read_syscall (kmem s) h) < 7" and "in_data (read_syscall (kmem s) h) = NULL"
    and "out_data (read_syscall (kmem s) h) = NULL"
    and "(in_size (read_syscall (kmem s) h), out_size (read_syscall (kmem s) h))
      = [(0, 4), (4, 4), (4, 0), (4, 0), (4, 736), (812, 0), (88, 0)] ! unat (number (read_syscall (kmem s) h))"
  shows "new_nt_term_proc E G h exit_status s = Some (Inl Null_Deref)"
proof -
  let ?call = "read_syscall (kmem s) h"
  let ?h = "(syscall_table E ! unat (number ?call)) (?call\<lparr>in_data := NULL, out_data := NULL\<rparr>) s"
  have n: "unat (number ?call) < 7" using assms(4) by (simp add: word_less_nat_alt)
  then have "unat (number ?call) \<in> {0, 1, 2, 3, 4, 5, 6}" by auto
  then have sz: "in_size ?call \<le> 0x100000" "out_size ?call \<le> 0x100000" and h: "?h = Some (Inl Null_Deref)"
    using assms(7)
    by (auto simp: syscall_table_def run_op_def followed_by_def and_then_def dbg_get_version_def dbg_open_process_def
        dbg_terminate_process_def dbg_attach_call_def attach_body_def dbg_get_message_def dbg_set_filter_def
        dbg_countinue_def read32_def write32_def)
  have "\<not> (7 \<le> number ?call \<or> 0x100000 < in_size ?call \<or> 0x100000 < out_size ?call)"
    using assms(4) sz by (simp add: not_le not_less)
  then show ?thesis
    using assms(1-3,5,6) h
    by (simp add: new_nt_term_proc_def serve_syscall_def followed_by_def gate_body_def Let_def lock_buffer_def)
qed

lemma gate_null_buffers_fault_witness:
  "new_nt_term_proc demo_env demo_gate 0x200 0
     (with_call \<lparr>number = 3, in_data = 0, in_size = 4, out_data = 0, out_size = 0\<rparr> demo_state) = Some (Inl Null_Deref)"
  (is "new_nt_term_proc _ _ _ _ ?s = _")
proof -
  have call: "read_syscall (kmem ?s) 0x200 = \<lparr>number = 3, in_data = 0, in_size = 4, out_data = 0, out_size = 0\<rparr>"
    by code_simp
  have "from_user demo_env" "0 = sc_key ?s" "probe_user demo_gate 0x200 sizeof_syscall = None"
    by (simp_all add: demo_env_def demo_gate_def with_call_def demo_state_def)
  from gate_null_buffers_fault [OF this, unfolded call] show ?thesis by simp
qed

end
