(* ===== verification/Dbgapi.thy ===== *)
theory Dbgapi
  imports Syscall
begin

text \<open>
  The user-mode library, \<open>src/kernel/dbgapi/dbgapi.c\<close>: it writes the driver's parameters into the
  registry, starts the driver, and turns every function of the debugger's interface into a system
  call through \<open>NtTerminateProcess\<close>. The kernel behind that function, the Win32 functions and the
  places of the local variables on the stack are parameters.
\<close>

section \<open>The user's side\<close>

record 's user_env =
  enter_kernel :: "handle \<Rightarrow> ntstatus \<Rightarrow> ('s, ntstatus) lop"   \<comment> \<open>\<open>NtTerminateProcess\<close>\<close>
  call_at :: addr                                        \<comment> \<open>\<open>&call\<close> in \<open>dbg_syscall\<close>\<close>
  arg_at :: addr                                         \<comment> \<open>\<open>&pid\<close>, \<open>&proc_id\<close>, \<open>&h_proc\<close>, \<open>&cont\<close>, \<open>&set_data\<close>\<close>
  res_at :: addr                                         \<comment> \<open>\<open>&ver\<close>, \<open>&h_proc\<close> in \<open>dbg_open_process\<close>\<close>
  create_process_a :: "string \<Rightarrow> u32 \<Rightarrow> 's \<Rightarrow> (bool \<times> handle \<times> handle \<times> u32) \<times> 's"
  read_process_memory :: "handle \<Rightarrow> addr \<Rightarrow> addr \<Rightarrow> u32 \<Rightarrow> addr \<Rightarrow> 's \<Rightarrow> bool \<times> 's"
  write_process_memory :: "handle \<Rightarrow> addr \<Rightarrow> addr \<Rightarrow> u32 \<Rightarrow> addr \<Rightarrow> 's \<Rightarrow> bool \<times> 's"
  win_open_thread :: "u32 \<Rightarrow> 's \<Rightarrow> handle \<times> 's"
  get_thread_context :: "handle \<Rightarrow> addr \<Rightarrow> 's \<Rightarrow> bool \<times> 's"
  set_thread_context :: "handle \<Rightarrow> addr \<Rightarrow> 's \<Rightarrow> bool \<times> 's"

definition calling :: "('s \<Rightarrow> 'a \<times> 's) \<Rightarrow> ('s, 'a) lop" where
  "calling f s = Some (Inr (f s))"

definition returns :: "'a \<Rightarrow> ('s, 'a) lop" where
  "returns v = run_op (ret v)"

section \<open>System calls\<close>

definition call_bytes :: "syscall \<Rightarrow> u8 list" where
  "call_bytes d = le32 (number d) @ le32 (in_data d) @ le32 (in_size d) @ le32 (out_data d) @ le32 (out_size d)"

definition dbg_syscall :: "'z kstate_scheme user_env \<Rightarrow> u32 \<Rightarrow> u32 \<Rightarrow> addr \<Rightarrow> u32 \<Rightarrow> addr \<Rightarrow> u32
    \<Rightarrow> ('z kstate_scheme, u32) lop" where
  "dbg_syscall U acc_key num in_dat in_sz out_dat out_sz =
     followed_by (run_op (write_block (call_at U)
       (call_bytes \<lparr>number = num, in_data = in_dat, in_size = in_sz, out_data = out_dat, out_size = out_sz\<rparr>))) (\<lambda>_.
     followed_by (enter_kernel U (call_at U) acc_key) (\<lambda>st.
     returns (if st = STATUS_SUCCESS then 1 else 0)))"

abbreviation (input) SC_GET_VERSION :: u32 where "SC_GET_VERSION \<equiv> 0"
abbreviation (input) SC_OPEN_PROCESS :: u32 where "SC_OPEN_PROCESS \<equiv> 1"
abbreviation (input) SC_TERMINATE_PROCESS :: u32 where "SC_TERMINATE_PROCESS \<equiv> 2"
abbreviation (input) SC_DBG_ATTACH :: u32 where "SC_DBG_ATTACH \<equiv> 3"
abbreviation (input) SC_DBG_GET_MSG :: u32 where "SC_DBG_GET_MSG \<equiv> 4"
abbreviation (input) SC_DBG_SET_FILTER :: u32 where "SC_DBG_SET_FILTER \<equiv> 5"
abbreviation (input) SC_DBG_COUNTINUE :: u32 where "SC_DBG_COUNTINUE \<equiv> 6"

definition dbg_drv_version :: "'z kstate_scheme user_env \<Rightarrow> u32 \<Rightarrow> ('z kstate_scheme, u32) lop" where
  "dbg_drv_version U acc_key =
     followed_by (dbg_syscall U acc_key SC_GET_VERSION NULL 0 (res_at U) 4) (\<lambda>ok.
       if ok = 0 then returns 0 else run_op (read32 (res_at U)))"

text \<open>Functions that the driver has too get the suffix \<open>_u\<close>.\<close>

definition dbg_open_process_u :: "'z kstate_scheme user_env \<Rightarrow> u32 \<Rightarrow> handle \<Rightarrow> ('z kstate_scheme, handle) lop" where
  "dbg_open_process_u U acc_key pid =
     followed_by (run_op (write32 (arg_at U) pid)) (\<lambda>_.
     followed_by (dbg_syscall U acc_key SC_OPEN_PROCESS (arg_at U) 4 (res_at U) 4) (\<lambda>ok.
       if ok = 0 then returns NULL else run_op (read32 (res_at U))))"

definition close_handle :: "handle \<Rightarrow> ('z kstate_scheme, unit) lop" where
  "close_handle h = run_op (doing (log_call (CloseHandle h)))"

text \<open>The frame of the functions that work on an open process: \<open>work\<close> says whether it succeeded.\<close>

definition with_process :: "'z kstate_scheme user_env \<Rightarrow> u32 \<Rightarrow> handle \<Rightarrow> (handle \<Rightarrow> ('z kstate_scheme, bool) lop)
    \<Rightarrow> ('z kstate_scheme, u32) lop" where
  "with_process U acc_key proc_i work =
     followed_by (dbg_open_process_u U acc_key proc_i) (\<lambda>h_proc.
       if h_proc = NULL then returns 0
       else followed_by (work h_proc) (\<lambda>ok.
            followed_by (close_handle h_proc) (\<lambda>_.
            returns (if ok then 1 else 0))))"

definition dbg_terminate_process_u :: "'z kstate_scheme user_env \<Rightarrow> u32 \<Rightarrow> handle \<Rightarrow> ('z kstate_scheme, u32) lop" where
  "dbg_terminate_process_u U acc_key proc_i =
     with_process U acc_key proc_i (\<lambda>h_proc.
       followed_by (run_op (write32 (arg_at U) h_proc)) (\<lambda>_.
       followed_by (dbg_syscall U acc_key SC_TERMINATE_PROCESS (arg_at U) 4 NULL 0) (\<lambda>ok.
       returns (ok \<noteq> 0))))"

definition dbg_attach_debugger :: "'z kstate_scheme user_env \<Rightarrow> u32 \<Rightarrow> handle \<Rightarrow> ('z kstate_scheme, u32) lop" where
  "dbg_attach_debugger U acc_key proc_i =
     followed_by (run_op (write32 (arg_at U) proc_i)) (\<lambda>_.
     followed_by (dbg_syscall U acc_key SC_DBG_ATTACH (arg_at U) 4 NULL 0) (\<lambda>ok.
     returns (if ok \<noteq> 0 then 1 else 0)))"

definition dbg_get_msg_event :: "'z kstate_scheme user_env \<Rightarrow> u32 \<Rightarrow> handle \<Rightarrow> addr \<Rightarrow> ('z kstate_scheme, u32) lop" where
  "dbg_get_msg_event U acc_key proc_i msg =
     followed_by (run_op (write32 (arg_at U) proc_i)) (\<lambda>_.
     followed_by (dbg_syscall U acc_key SC_DBG_GET_MSG (arg_at U) 4 msg (word_of_nat sizeof_dbg_msg)) (\<lambda>ok.
     returns (if ok \<noteq> 0 then 1 else 0)))"

text \<open>Without a new record the 80 bytes behind the status are what the stack held.\<close>

definition dbg_countinue_event :: "'z kstate_scheme user_env \<Rightarrow> u32 \<Rightarrow> handle \<Rightarrow> u32 \<Rightarrow> addr \<Rightarrow> ('z kstate_scheme, u32) lop" where
  "dbg_countinue_event U acc_key proc_i st new_rec =
     followed_by (run_op (write32 (arg_at U) proc_i)) (\<lambda>_.
     followed_by (run_op (write32 (arg_at U + 4) st)) (\<lambda>_.
     followed_by (if new_rec \<noteq> NULL
                  then run_op (and_then (read_block new_rec sizeof_EXCEPTION_RECORD) (write_block (arg_at U + 8)))
                  else returns ()) (\<lambda>_.
     followed_by (dbg_syscall U acc_key SC_DBG_COUNTINUE (arg_at U) (word_of_nat sizeof_cont_dat) NULL 0) (\<lambda>ok.
     returns (if ok \<noteq> 0 then 1 else 0)))))"

definition dbg_set_filter_u :: "'z kstate_scheme user_env \<Rightarrow> u32 \<Rightarrow> handle \<Rightarrow> addr \<Rightarrow> ('z kstate_scheme, u32) lop" where
  "dbg_set_filter_u U acc_key proc_i filt =
     followed_by (run_op (write32 (arg_at U) proc_i)) (\<lambda>_.
     followed_by (run_op (and_then (read_block filt sizeof_event_filt) (write_block (arg_at U + 4)))) (\<lambda>_.
     followed_by (dbg_syscall U acc_key SC_DBG_SET_FILTER (arg_at U) (word_of_nat sizeof_set_filter_data) NULL 0) (\<lambda>ok.
     returns (if ok \<noteq> 0 then 1 else 0))))"

section \<open>Processes, memory and threads\<close>

definition dbg_create_process :: "'z kstate_scheme user_env \<Rightarrow> string \<Rightarrow> u32 \<Rightarrow> ('z kstate_scheme, handle) lop" where
  "dbg_create_process U cmd_line create_flags =
     followed_by (calling (create_process_a U cmd_line create_flags)) (\<lambda>(ok, h_process, h_thread, pid).
       if \<not> ok then returns 0
       else followed_by (close_handle h_process) (\<lambda>_.
            followed_by (close_handle h_thread) (\<lambda>_.
            returns pid)))"

definition dbg_read_memory :: "'z kstate_scheme user_env \<Rightarrow> u32 \<Rightarrow> handle \<Rightarrow> addr \<Rightarrow> addr \<Rightarrow> u32 \<Rightarrow> addr
    \<Rightarrow> ('z kstate_scheme, u32) lop" where
  "dbg_read_memory U acc_key proc_i mem_addr loc_buff mem_size readed =
     with_process U acc_key proc_i (\<lambda>h_proc.
       calling (read_process_memory U h_proc mem_addr loc_buff mem_size readed))"

definition dbg_write_memory :: "'z kstate_scheme user_env \<Rightarrow> u32 \<Rightarrow> handle \<Rightarrow> addr \<Rightarrow> addr \<Rightarrow> u32 \<Rightarrow> addr
    \<Rightarrow> ('z kstate_scheme, u32) lop" where
  "dbg_write_memory U acc_key proc_i mem_addr loc_buff mem_size written =
     with_process U acc_key proc_i (\<lambda>h_proc.
       calling (write_process_memory U h_proc mem_addr loc_buff mem_size written))"

definition dbg_get_context :: "'z kstate_scheme user_env \<Rightarrow> u32 \<Rightarrow> addr \<Rightarrow> ('z kstate_scheme, u32) lop" where
  "dbg_get_context U thread_i ctx =
     followed_by (calling (win_open_thread U thread_i)) (\<lambda>h_thread.
       if h_thread = NULL then returns 0
       else followed_by (calling (get_thread_context U h_thread ctx)) (\<lambda>ok.
            followed_by (close_handle h_thread) (\<lambda>_. returns (if ok then 1 else 0))))"

definition dbg_set_context :: "'z kstate_scheme user_env \<Rightarrow> u32 \<Rightarrow> addr \<Rightarrow> ('z kstate_scheme, u32) lop" where
  "dbg_set_context U thread_i ctx =
     followed_by (calling (win_open_thread U thread_i)) (\<lambda>h_thread.
       if h_thread = NULL then returns 0
       else followed_by (calling (set_thread_context U h_thread ctx)) (\<lambda>ok.
            followed_by (close_handle h_thread) (\<lambda>_. returns (if ok then 1 else 0))))"

end
