(* ===== verification/Pdb.thy ===== *)
theory Pdb
  imports Dbg_Item
begin

text \<open>
  The reader of symbol files, \<open>inc/pdbparser.h\<close>: it walks the symbols of a file through Microsoft's
  DIA library and keeps two maps, of the public symbols and of the types with their members. What
  DIA answers about a symbol is the data type \<open>dia_symbol\<close>; a method that fails answers \<open>None\<close>.
  A string made from a \<open>NULL\<close> pointer is a fault.
\<close>

section \<open>What the library answers\<close>

datatype dia_symbol = Dia_Symbol
  (dia_name: string)
  (dia_rva: u32)
  (dia_addr_offset: u32)
  (dia_section: u32)
  (dia_tag: "u32 option")                       \<comment> \<open>\<open>get_symTag\<close>\<close>
  (dia_location: "u32 option")                  \<comment> \<open>\<open>get_locationType\<close>\<close>
  (dia_offset: "u32 option")                    \<comment> \<open>\<open>get_offset\<close>\<close>
  (dia_children: "dia_symbol list option")      \<comment> \<open>\<open>findChildren(SymTagNull)\<close>\<close>

text \<open>The tags and the location of DIA that the code uses.\<close>

abbreviation (input) SymTagData :: u32 where "SymTagData \<equiv> 7"
abbreviation (input) SymTagPublicSymbol :: u32 where "SymTagPublicSymbol \<equiv> 10"
abbreviation (input) SymTagUDT :: u32 where "SymTagUDT \<equiv> 11"
abbreviation (input) LocIsThisRel :: u32 where "LocIsThisRel \<equiv> 4"

section \<open>The parser's data\<close>

record sym_info =
  si_name :: string
  si_rva :: u32
  si_offset :: u32
  si_section :: u32

record member_info =
  mi_name :: string
  mi_offset :: u32

record type_info =
  ti_name :: string
  ti_members :: "string \<rightharpoonup> member_info"

record pdb_parser =
  m_symbols :: "string \<rightharpoonup> sym_info"
  m_types :: "string \<rightharpoonup> type_info"

text \<open>\<open>map::insert\<close>, which keeps an entry that is there.\<close>

definition map_insert :: "'k \<Rightarrow> 'v \<Rightarrow> ('k \<rightharpoonup> 'v) \<Rightarrow> ('k \<rightharpoonup> 'v)" where
  "map_insert k v m = (case m k of None \<Rightarrow> m(k \<mapsto> v) | Some _ \<Rightarrow> m)"

section \<open>Members of a type\<close>

text \<open>\<open>member_info(0,0)\<close> makes the name from a \<open>NULL\<close> pointer.\<close>

definition get_type_location :: "dia_symbol \<Rightarrow> fault + member_info" where
  "get_type_location sy =
     (case dia_location sy of
        None \<Rightarrow> Inl Null_Deref
      | Some loc \<Rightarrow>
          if loc = LocIsThisRel
          then (case dia_offset sy of
                  Some offs \<Rightarrow> Inr \<lparr>mi_name = dia_name sy, mi_offset = offs\<rparr>
                | None \<Rightarrow> Inr \<lparr>mi_name = [], mi_offset = 0\<rparr>)
          else Inr \<lparr>mi_name = [], mi_offset = 0\<rparr>)"

text \<open>The loop over the children adds what each of them has, without replacing.\<close>

function get_type_detail :: "dia_symbol \<Rightarrow> nat \<Rightarrow> fault + (string \<rightharpoonup> member_info)"
  and add_members :: "dia_symbol list \<Rightarrow> nat \<Rightarrow> (string \<rightharpoonup> member_info) \<Rightarrow> fault + (string \<rightharpoonup> member_info)" where
  "get_type_detail sy deep =
     (if 2 < deep then Inr Map.empty
      else case dia_tag sy of
        None \<Rightarrow> Inr Map.empty
      | Some t \<Rightarrow>
          if t = SymTagData
          then (case get_type_location sy of
                  Inl e \<Rightarrow> Inl e
                | Inr m \<Rightarrow> Inr (if mi_name m \<noteq> [] then [mi_name m \<mapsto> m] else Map.empty))
          else if t = SymTagUDT
          then (case dia_children sy of
                  None \<Rightarrow> Inr Map.empty
                | Some cs \<Rightarrow> add_members cs (deep + 1) Map.empty)
          else Inr Map.empty)"
| "add_members [] deep members = Inr members"
| "add_members (c # cs) deep members =
     (case get_type_detail c deep of
        Inl e \<Rightarrow> Inl e
      | Inr more_members \<Rightarrow> add_members cs deep (more_members ++ members))"
  by pat_completeness auto
termination
  by (relation "measures [\<lambda>x. case x of Inl (_, d) \<Rightarrow> 3 - d | Inr (_, d, _) \<Rightarrow> 3 - d,
                          \<lambda>x. case x of Inl _ \<Rightarrow> 0 | Inr (cs, _, _) \<Rightarrow> Suc (length cs)]") auto

declare get_type_detail.simps [simp del]

section \<open>The maps\<close>

fun insert_symbols :: "dia_symbol list \<Rightarrow> (string \<rightharpoonup> sym_info) \<Rightarrow> (string \<rightharpoonup> sym_info)" where
  "insert_symbols [] m = m"
| "insert_symbols (c # cs) m =
     insert_symbols cs (map_insert (dia_name c)
       \<lparr>si_name = dia_name c, si_rva = dia_rva c, si_offset = dia_addr_offset c, si_section = dia_section c\<rparr> m)"

fun insert_types :: "dia_symbol list \<Rightarrow> (string \<rightharpoonup> type_info) \<Rightarrow> fault + (string \<rightharpoonup> type_info)" where
  "insert_types [] m = Inr m"
| "insert_types (c # cs) m =
     (case get_type_detail c 1 of
        Inl e \<Rightarrow> Inl e
      | Inr members \<Rightarrow> insert_types cs (map_insert (dia_name c) \<lparr>ti_name = dia_name c, ti_members = members\<rparr> m))"

text \<open>Exceptions of the class \<open>pdb_error\<close>, and faults.\<close>

datatype pdb_exn = Pdb_Error string | Pdb_Fault fault

text \<open>\<open>global->findChildren(tag)\<close>: the children of the global scope with a tag, or a failure.\<close>

type_synonym dia_scope = "u32 \<Rightarrow> dia_symbol list option"

definition init_symbols :: "dia_scope \<Rightarrow> pdb_parser \<Rightarrow> pdb_exn + pdb_parser" where
  "init_symbols global p =
     (case global SymTagPublicSymbol of
        None \<Rightarrow> Inl (Pdb_Error ''child is not founded'')
      | Some cs \<Rightarrow> Inr (p\<lparr>m_symbols := insert_symbols cs (m_symbols p)\<rparr>))"

definition init_types :: "dia_scope \<Rightarrow> pdb_parser \<Rightarrow> pdb_exn + pdb_parser" where
  "init_types global p =
     (case global SymTagUDT of
        None \<Rightarrow> Inl (Pdb_Error ''child is not founded'')
      | Some cs \<Rightarrow> (case insert_types cs (m_types p) of
            Inl e \<Rightarrow> Inl (Pdb_Fault e)
          | Inr ts \<Rightarrow> Inr (p\<lparr>m_types := ts\<rparr>)))"

text \<open>Whether each call of the library on the way to the global scope succeeds.\<close>

record dia_api =
  co_create_instance :: bool
  load_data_for_exe :: bool
  load_data_from_pdb :: bool
  open_session :: bool
  get_global_scope :: "dia_scope option"

definition new_pdb_parser :: "dia_api \<Rightarrow> pdb_exn + pdb_parser" where
  "new_pdb_parser D =
     (if \<not> co_create_instance D then Inl (Pdb_Error ''CoCreateInstance failed - HRESULT'')
      else if \<not> load_data_for_exe D \<and> \<not> load_data_from_pdb D then Inl (Pdb_Error ''symbols are not loaded from'')
      else if \<not> open_session D then Inl (Pdb_Error ''openSession failed - HRESULT'')
      else case get_global_scope D of
        None \<Rightarrow> Inl (Pdb_Error ''openSession failed - HRESULT'')
      | Some global \<Rightarrow>
          (case init_symbols global \<lparr>m_symbols = Map.empty, m_types = Map.empty\<rparr> of
             Inl e \<Rightarrow> Inl e
           | Inr p \<Rightarrow> init_types global p))"

section \<open>Lookups\<close>

text \<open>
  \<open>m_symbols[name]\<close> makes an entry with \<open>sym_info()\<close> when there is none, and its name from a \<open>NULL\<close>
  pointer; \<open>m_types[name]\<close> and \<open>m_members[name]\<close> make empty entries.
\<close>

definition get_symbol :: "string \<Rightarrow> (pdb_parser, sym_info) op" where
  "get_symbol name p =
     (case m_symbols p name of None \<Rightarrow> Inl Null_Deref | Some i \<Rightarrow> Inr (i, p))"

definition get_type :: "string \<Rightarrow> pdb_parser \<Rightarrow> type_info \<times> pdb_parser" where
  "get_type name p =
     (case m_types p name of
        Some t \<Rightarrow> (t, p)
      | None \<Rightarrow> let t = \<lparr>ti_name = [], ti_members = Map.empty\<rparr> in (t, p\<lparr>m_types := (m_types p)(name \<mapsto> t)\<rparr>))"

definition get_member :: "string \<Rightarrow> type_info \<Rightarrow> member_info \<times> type_info" where
  "get_member name t =
     (case ti_members t name of
        Some m \<Rightarrow> (m, t)
      | None \<Rightarrow> let m = \<lparr>mi_name = [], mi_offset = 0\<rparr> in (m, t\<lparr>ti_members := (ti_members t)(name \<mapsto> m)\<rparr>))"

text \<open>\<open>pdb.get_type(t).get_member(m)\<close>, through the reference.\<close>

definition get_type_member :: "string \<Rightarrow> string \<Rightarrow> pdb_parser \<Rightarrow> member_info \<times> pdb_parser" where
  "get_type_member tname mname p =
     (case get_type tname p of (t, p) \<Rightarrow>
      case get_member mname t of (m, t) \<Rightarrow> (m, p\<lparr>m_types := (m_types p)(tname \<mapsto> t)\<rparr>))"

end
