(* ===== verification/Dbgapi_Start.thy ===== *)
theory Dbgapi_Start
  imports Dbgapi Pdb
begin

text \<open>
  How the library starts the driver (\<open>src/kernel/dbgapi/dbgapi.c\<close>): the service is installed, the
  offsets of the kernel's symbols and the access key are written into its registry key, and the
  service is started. The service manager and the registry as user mode sees them are parameters;
  the callback that finds the symbols is the client's, \<open>get_symbols_callback\<close> of
  \<open>src/kernel/test/test.cpp\<close> is the one in the repository.
\<close>

section \<open>Symbols\<close>

datatype sym_type = SYM_TIMESTAMP | SYM_NTAPI_NUM | SYM_OFFSET | SYM_STRUCT_OFFSET

text \<open>\<open>sym_subname\<close> is \<open>None\<close> where the table has \<open>NULL\<close>.\<close>

definition req_symbols :: "(sym_type \<times> string \<times> string option) list" where
  "req_symbols =
     [(SYM_NTAPI_NUM, ''ZwTerminateProcess'', None),
      (SYM_NTAPI_NUM, ''ZwCreateThread'', None),
      (SYM_NTAPI_NUM, ''ZwTerminateThread'', None),
      (SYM_OFFSET, ''_NtTerminateProcess@8'', None),
      (SYM_OFFSET, ''_NtResumeThread@8'', None),
      (SYM_OFFSET, ''_NtCreateThread@32'', None),
      (SYM_OFFSET, ''_NtTerminateThread@8'', None),
      (SYM_OFFSET, ''_KiDispatchException@20'', None),
      (SYM_STRUCT_OFFSET, ''_ETHREAD'', Some ''ThreadListEntry'')]"

type_synonym 'p sym_callback = "sym_type \<Rightarrow> string \<Rightarrow> string option \<Rightarrow> ('p, u32) op"

text \<open>
  The callback of the test tool. A name in a call for a number of a native function that is not one
  of the three goes on to the end of the function.
\<close>

definition get_symbols_callback :: "pdb_parser sym_callback" where
  "get_symbols_callback ty nm sub p =
     (if ty = SYM_TIMESTAMP then Inr (0x45E53F9C, p)
      else if ty = SYM_NTAPI_NUM \<and> nm = ''ZwTerminateProcess'' then Inr (0x101, p)
      else if ty = SYM_NTAPI_NUM \<and> nm = ''ZwCreateThread'' then Inr (0x035, p)
      else if ty = SYM_NTAPI_NUM \<and> nm = ''ZwTerminateThread'' then Inr (0x102, p)
      else if ty = SYM_OFFSET
      then (case get_symbol nm p of Inl e \<Rightarrow> Inl e | Inr (i, p) \<Rightarrow> Inr (si_rva i, p))
      else if ty = SYM_STRUCT_OFFSET
      then (case sub of
              None \<Rightarrow> Inl Uninit_Read
            | Some m \<Rightarrow> if m = [] then Inl Uninit_Read
                else (case get_type_member nm m p of (i, p) \<Rightarrow> Inr (mi_offset i, p)))
      else Inr (0, p))"

section \<open>The registry and the service manager\<close>

record 'r win_api =
  reg_open_key_ex :: "string \<Rightarrow> 'r \<Rightarrow> (u32 \<times> handle) \<times> 'r"
  reg_set_value_ex :: "handle \<Rightarrow> string \<Rightarrow> u8 list \<Rightarrow> 'r \<Rightarrow> u32 \<times> 'r"
  reg_close_key :: "handle \<Rightarrow> 'r \<Rightarrow> 'r"
  open_sc_manager :: "'r \<Rightarrow> handle \<times> 'r"
  create_service :: "handle \<Rightarrow> string \<Rightarrow> string \<Rightarrow> 'r \<Rightarrow> handle \<times> 'r"
  open_service :: "handle \<Rightarrow> string \<Rightarrow> 'r \<Rightarrow> handle \<times> 'r"
  start_service :: "handle \<Rightarrow> 'r \<Rightarrow> bool \<times> 'r"
  delete_service :: "handle \<Rightarrow> 'r \<Rightarrow> 'r"
  close_service_handle :: "handle \<Rightarrow> 'r \<Rightarrow> 'r"

definition dbg_install_sc :: "'r win_api \<Rightarrow> string \<Rightarrow> string \<Rightarrow> 'r \<Rightarrow> handle \<times> 'r" where
  "dbg_install_sc W path nm r =
     (case open_sc_manager W r of (h_scm, r) \<Rightarrow>
        if h_scm = NULL then (NULL, r)
        else (case create_service W h_scm nm path r of (h_svc, r) \<Rightarrow>
              case (if h_svc = NULL then open_service W h_scm nm r else (h_svc, r)) of (h_svc, r) \<Rightarrow>
                (h_svc, close_service_handle W h_scm r)))"

text \<open>\<open>_snprintf(name, sizeof(name), ...)\<close> for a buffer of \<open>MAX_PATH\<close> characters.\<close>

definition snprintf_name :: "string \<Rightarrow> string" where
  "snprintf_name s = take 260 s"

definition value_name :: "sym_type \<Rightarrow> string \<Rightarrow> string option \<Rightarrow> string" where
  "value_name ty nm sub =
     (if ty \<noteq> SYM_STRUCT_OFFSET then snprintf_name (''sym_'' @ nm)
      else snprintf_name (''sym_'' @ nm @ ''.'' @ the sub))"

text \<open>
  The loop over the table, which stops at the first symbol that is missing or cannot be written;
  the result says whether it came to the end.
\<close>

fun put_symbols :: "'r win_api \<Rightarrow> 'p sym_callback \<Rightarrow> handle \<Rightarrow> (sym_type \<times> string \<times> string option) list
    \<Rightarrow> 'p \<Rightarrow> 'r \<Rightarrow> fault + bool \<times> 'p \<times> 'r" where
  "put_symbols W cb h_key [] p r = Inr (True, p, r)"
| "put_symbols W cb h_key ((ty, nm, sub) # rest) p r =
     (case cb ty nm sub p of
        Inl e \<Rightarrow> Inl e
      | Inr (v, p) \<Rightarrow>
          if v = 0 then Inr (False, p, r)
          else (case reg_set_value_ex W h_key (value_name ty nm sub) (le32 v) r of (st, r) \<Rightarrow>
                  if st \<noteq> 0 then Inr (False, p, r) else put_symbols W cb h_key rest p r))"

text \<open>The parser is made first; its exception ends the function.\<close>

definition dbg_build_start_params :: "'r win_api \<Rightarrow> string \<Rightarrow> u32 \<Rightarrow> pdb_exn + 'p \<Rightarrow> 'p sym_callback \<Rightarrow> 'r
    \<Rightarrow> pdb_exn + u32 \<times> 'r" where
  "dbg_build_start_params W drv_name acc_key pdb sym_cb r =
     (case pdb of
        Inl e \<Rightarrow> Inl e
      | Inr p \<Rightarrow>
          (case reg_open_key_ex W (snprintf_name (''SYSTEM'' @ [CHR 0x5C] @ ''CurrentControlSet'' @ [CHR 0x5C]
                  @ ''Services'' @ [CHR 0x5C] @ drv_name)) r of ((st, h_key), r) \<Rightarrow>
             if st \<noteq> 0 then Inr (0, r)
             else (case put_symbols W sym_cb h_key req_symbols p r of
                 Inl e \<Rightarrow> Inl (Pdb_Fault e)
               | Inr (all_put, _, r) \<Rightarrow>
                   (case (if all_put then reg_set_value_ex W h_key ''sc_key'' (le32 acc_key) r else (1, r)) of
                      (st, r) \<Rightarrow> Inr (if st \<noteq> 0 then 0 else 1, reg_close_key W h_key r)))))"

section \<open>dbg_initialize_api\<close>

definition driver_name :: string where
  "driver_name = ''dbgapi.sys''"

text \<open>
  The search for the last backslash starts at \<open>drv_path[MAX_PATH]\<close>, one past the end, where memory
  holds \<open>past\<close>. Running below the array and copying the name past its end are faults.
\<close>

fun scan_back :: "string \<Rightarrow> nat \<Rightarrow> nat option" where
  "scan_back b 0 = (if b ! 0 = CHR 0x5C then Some 0 else None)"
| "scan_back b (Suc n) = (if b ! Suc n = CHR 0x5C then Some (Suc n) else scan_back b n)"

definition driver_path :: "string \<Rightarrow> char \<Rightarrow> fault + string" where
  "driver_path drv_path past =
     (case scan_back (drv_path @ [past]) 260 of
        None \<Rightarrow> Inl Out_Of_Bounds
      | Some i \<Rightarrow> if 260 < i + 1 + length driver_name + 1 then Inl Out_Of_Bounds
                  else Inr (take (i + 1) drv_path @ driver_name))"

text \<open>\<open>GetModuleFileNameA\<close> into a buffer of zeros.\<close>

definition path_buffer :: "string \<Rightarrow> string" where
  "path_buffer path = take 260 (path @ replicate 260 (CHR 0x00))"

text \<open>
  The result, with the new access key and both states. \<open>None\<close> is a system call that does not
  return.
\<close>

definition dbg_initialize_api :: "'z kstate_scheme user_env \<Rightarrow> 'r win_api \<Rightarrow> string \<Rightarrow> char \<Rightarrow> u32
    \<Rightarrow> pdb_exn + 'p \<Rightarrow> 'p sym_callback \<Rightarrow> 'z kstate_scheme \<Rightarrow> 'r
    \<Rightarrow> (pdb_exn + u32 \<times> u32 \<times> 'z kstate_scheme \<times> 'r) option" where
  "dbg_initialize_api U W module_path past access_key pdb sym_cb s r =
     (case dbg_drv_version U access_key s of
        None \<Rightarrow> None
      | Some (Inl e) \<Rightarrow> Some (Inl (Pdb_Fault e))
      | Some (Inr (ver, s)) \<Rightarrow>
          if ver \<noteq> 0 then Some (Inr (1, access_key, s, r))
          else (case driver_path (path_buffer module_path) past of
              Inl e \<Rightarrow> Some (Inl (Pdb_Fault e))
            | Inr path \<Rightarrow>
                (case dbg_install_sc W path driver_name r of (h_svc, r) \<Rightarrow>
                   if h_svc = NULL then Some (Inr (0, access_key, s, r))
                   else (case dbg_build_start_params W driver_name access_key pdb sym_cb r of
                       Inl e \<Rightarrow> Some (Inl e)
                     | Inr (built, r) \<Rightarrow>
                         (case (if built \<noteq> 0 then start_service W h_svc r else (False, r)) of (started, r) \<Rightarrow>
                            Some (Inr (if started then 1 else 0, access_key, s,
                              close_service_handle W h_svc (delete_service W h_svc r))))))))"

section \<open>DllMain\<close>

record 'r token_api =
  open_process_token :: "'r \<Rightarrow> handle option \<times> 'r"
  lookup_privilege :: "string \<Rightarrow> 'r \<Rightarrow> u64"
  adjust_privilege :: "handle \<Rightarrow> u64 \<Rightarrow> 'r \<Rightarrow> 'r"

definition enable_debug_privilegies :: "'r token_api \<Rightarrow> 'r \<Rightarrow> 'r" where
  "enable_debug_privilegies T r =
     (case open_process_token T r of
        (None, r) \<Rightarrow> r
      | (Some h, r) \<Rightarrow> adjust_privilege T h (lookup_privilege T ''SeDebugPrivilege'' r) r)"

abbreviation (input) DLL_PROCESS_ATTACH :: u32 where "DLL_PROCESS_ATTACH \<equiv> 1"

definition DllMain :: "'r token_api \<Rightarrow> u32 \<Rightarrow> 'r \<Rightarrow> bool \<times> 'r" where
  "DllMain T reason r = (True, if reason = DLL_PROCESS_ATTACH then enable_debug_privilegies T r else r)"

end
