(* ===== verification/Start_Properties.thy ===== *)
theory Start_Properties
  imports Dbgapi_Start Init_Properties
begin

text \<open>
  The two halves of the program agree on the registry: what \<open>dbg_build_start_params\<close> of the library
  writes is what \<open>init_debug\<close> and \<open>init_syscall\<close> of the driver read.
\<close>

section \<open>Writing the symbols\<close>

text \<open>\<open>vals r\<close> is what the service's key holds: a successful \<open>RegSetValueEx\<close> sets one value.\<close>

definition keeps_values :: "'r win_api \<Rightarrow> ('r \<Rightarrow> string \<Rightarrow> u8 list option) \<Rightarrow> bool" where
  "keeps_values W vals \<longleftrightarrow>
     (\<forall>h n bs r. fst (reg_set_value_ex W h n bs r) = 0 \<longrightarrow> vals (snd (reg_set_value_ex W h n bs r)) = (vals r)(n \<mapsto> bs))
   \<and> (\<forall>h r. vals (reg_close_key W h r) = vals r)"

definition name_of :: "sym_type \<times> string \<times> string option \<Rightarrow> string" where
  "name_of = (\<lambda>(ty, nm, sub). value_name ty nm sub)"

lemma put_symbols_values:
  assumes "keeps_values W vals" and "put_symbols W cb h xs p r = Inr (True, p', r')" and "distinct (map name_of xs)"
  shows "(\<forall>(ty, nm, sub) \<in> set xs. \<exists>v q q'. v \<noteq> 0 \<and> cb ty nm sub q = Inr (v, q')
      \<and> vals r' (value_name ty nm sub) = Some (le32 v))
    \<and> (\<forall>n. n \<notin> set (map name_of xs) \<longrightarrow> vals r' n = vals r n)"
  using assms(2,3)
proof (induction xs arbitrary: p r)
  case (Cons x xs)
  obtain ty nm sub where x: "x = (ty, nm, sub)" by (cases x)
  obtain v q where cb: "cb ty nm sub p = Inr (v, q)" and v: "v \<noteq> 0"
    using Cons.prems(1) by (auto simp: x split: sum.splits if_splits)
  obtain r1 where set: "reg_set_value_ex W h (value_name ty nm sub) (le32 v) r = (0, r1)"
    and rest: "put_symbols W cb h xs q r1 = Inr (True, p', r')"
    using Cons.prems(1) cb v by (auto simp: x split: prod.splits if_splits)
  from assms(1) [unfolded keeps_values_def, THEN conjunct1, rule_format, of h "value_name ty nm sub" "le32 v" r] set
  have r1: "vals r1 = (vals r)(value_name ty nm sub \<mapsto> le32 v)" by simp
  have fresh: "value_name ty nm sub \<notin> set (map name_of xs)" using Cons.prems(2) by (simp add: x name_of_def)
  note ih = Cons.IH [OF rest]
  have "vals r' (value_name ty nm sub) = Some (le32 v)" using ih fresh Cons.prems(2) r1 by simp
  then show ?case using ih Cons.prems(2) r1 cb v by (auto simp: x name_of_def)
qed simp

lemma req_names: "map name_of req_symbols =
    [''sym_ZwTerminateProcess'', ''sym_ZwCreateThread'', ''sym_ZwTerminateThread'', ''sym__NtTerminateProcess@8'',
     ''sym__NtResumeThread@8'', ''sym__NtCreateThread@32'', ''sym__NtTerminateThread@8'', ''sym__KiDispatchException@20'',
     ''sym__ETHREAD.ThreadListEntry'']"
  by (simp add: req_symbols_def name_of_def value_name_def snprintf_name_def)

text \<open>C28: when \<open>dbg_build_start_params\<close> succeeds and the driver's registry functions show the values
  that were written, the driver finds every offset it asks for under the name it asks for, each is
  what the client's callback answered for the symbol and not zero, and it finds the access key of
  the library.\<close>

theorem start_params_reach_driver:
  assumes "keeps_values W vals" and "dbg_build_start_params W drv key (Inr p) cb r = Inr (1, r')"
    and "\<And>n bs. vals r' n = Some bs \<Longrightarrow> zw_query_value R h (wide n) k = (STATUS_SUCCESS, bs)"
  shows "query32 R k h ''sc_key'' v = (1, key)
    \<and> (\<exists>off. holds_offsets R k h off \<and> (\<forall>(ty, nm, sub) \<in> set req_symbols.
          off (value_name ty nm sub) \<noteq> 0 \<and> (\<exists>q q'. cb ty nm sub q = Inr (off (value_name ty nm sub), q'))))"
proof -
  obtain hk r1 p2 r2 r3 where put: "put_symbols W cb hk req_symbols p r1 = Inr (True, p2, r2)"
    and key: "reg_set_value_ex W hk ''sc_key'' (le32 key) r2 = (0, r3)" and r': "r' = reg_close_key W hk r3"
    using assms(2) by (auto simp: dbg_build_start_params_def split: prod.splits sum.splits if_splits)
  have "distinct (map name_of req_symbols)" unfolding req_names by simp
  note vals = put_symbols_values [OF assms(1) put this]
  from assms(1) [unfolded keeps_values_def, THEN conjunct1, rule_format, of hk "''sc_key''" "le32 key" r2] key
  have "vals r3 = (vals r2)(''sc_key'' \<mapsto> le32 key)" by simp
  then have last: "vals r' = (vals r2)(''sc_key'' \<mapsto> le32 key)" using assms(1) by (simp add: keeps_values_def r')
  define off where "off n = de32 (the (vals r' n))" for n
  have offs: "\<exists>v q q'. v \<noteq> 0 \<and> cb ty nm sub q = Inr (v, q') \<and> off (value_name ty nm sub) = v
      \<and> vals r' (value_name ty nm sub) = Some (le32 v)" if "(ty, nm, sub) \<in> set req_symbols" for ty nm sub
  proof -
    from that vals obtain v q q' where v: "v \<noteq> 0" "cb ty nm sub q = Inr (v, q')" "vals r2 (value_name ty nm sub) = Some (le32 v)" by blast
    have "value_name ty nm sub \<in> set (map name_of req_symbols)" using that by (force simp: name_of_def)
    then have "value_name ty nm sub \<noteq> ''sc_key''" unfolding req_names by auto
    then show ?thesis using v by (auto simp: last off_def)
  qed
  have read: "zw_query_value R h (wide name) k = (STATUS_SUCCESS, le32 (off name))" if "name \<in> set (map name_of req_symbols)" for name
  proof -
    from that obtain ty nm sub where "(ty, nm, sub) \<in> set req_symbols" "name = value_name ty nm sub" by (auto simp: name_of_def)
    with offs assms(3) show ?thesis by metis
  qed
  have "holds_offsets R k h off" unfolding holds_offsets_def using read unfolding req_names by auto
  moreover have "query32 R k h ''sc_key'' v = (1, key)" by (rule query32_value) (rule assms(3), simp add: last)
  ultimately show ?thesis using offs by blast
qed

text \<open>A registry of one key.\<close>

definition key_win :: "(string \<Rightarrow> u8 list option) win_api" where
  "key_win = \<lparr>reg_open_key_ex = (\<lambda>n r. ((0, 0x60), r)), reg_set_value_ex = (\<lambda>h n bs r. (0, r(n \<mapsto> bs))),
     reg_close_key = (\<lambda>h r. r), open_sc_manager = (\<lambda>r. (0x70, r)), create_service = (\<lambda>h n p r. (0x74, r)),
     open_service = (\<lambda>h n r. (0x78, r)), start_service = (\<lambda>h r. (True, r)), delete_service = (\<lambda>h r. r),
     close_service_handle = (\<lambda>h r. r)\<rparr>"

definition key_reg :: "(string \<Rightarrow> u8 list option) reg_api" where
  "key_reg = \<lparr>zw_open_key = (\<lambda>h n r. ((STATUS_SUCCESS, 0x50), r)), zw_create_key = (\<lambda>h n r. ((STATUS_UNSUCCESSFUL, 0), r)),
     zw_enumerate_key = (\<lambda>h i r. (STATUS_UNSUCCESSFUL, [])),
     zw_query_value = (\<lambda>h n r. case r (map (\<lambda>c. char_of (unat c)) n) of
         Some bs \<Rightarrow> (STATUS_SUCCESS, bs) | None \<Rightarrow> (STATUS_UNSUCCESSFUL, [])),
     zw_set_value = (\<lambda>h n t d r. (STATUS_SUCCESS, r)), zw_delete_key = (\<lambda>h r. (STATUS_SUCCESS, r)), zw_close = (\<lambda>h r. r)\<rparr>"

definition counting_callback :: "u32 sym_callback" where
  "counting_callback ty nm sub p = Inr (p + 1, p + 1)"

lemma put_symbols_counting:
  "unat p + length xs < 2 ^ 32 \<Longrightarrow> \<exists>p' r'. put_symbols key_win counting_callback h xs p r = Inr (True, p', r')"
proof (induction xs arbitrary: p r)
  case (Cons x xs)
  have u: "unat (p + 1) = Suc (unat p)" using Cons.prems by (subst unat_add_small) simp_all
  then have "p + 1 \<noteq> 0" by (metis nat.distinct(1) unat_0)
  moreover have "unat (p + 1) + length xs < 2 ^ 32" using Cons.prems u by simp
  ultimately show ?case using Cons.IH [of "p + 1"] by (cases x) (simp add: counting_callback_def key_win_def)
qed simp

lemma start_params_reach_driver_witness:
  "\<exists>r'. dbg_build_start_params key_win ''dbgapi.sys'' 0x1234 (Inr 0) counting_callback Map.empty = Inr (1, r')
    \<and> query32 key_reg r' 0x50 ''sc_key'' 0 = (1, 0x1234)"
proof -
  obtain p' r1 where put: "put_symbols key_win counting_callback 0x60 req_symbols 0 Map.empty = Inr (True, p', r1)"
    using put_symbols_counting [of 0 req_symbols "0x60" Map.empty] by (auto simp: req_symbols_def)
  then obtain r' where r': "dbg_build_start_params key_win ''dbgapi.sys'' 0x1234 (Inr 0) counting_callback Map.empty = Inr (1, r')"
    by (simp add: dbg_build_start_params_def key_win_def)
  have keeps: "keeps_values key_win (\<lambda>r. r)" by (simp add: keeps_values_def key_win_def)
  have "zw_query_value key_reg 0x50 (wide n) r' = (STATUS_SUCCESS, bs)" if "r' n = Some bs" for n bs
  proof -
    have "char_of (unat (of_char c :: u16)) = c" for c
    proof -
      have "unat (of_char c :: u16) = of_char c"
      proof -
        have "(of_char c :: u16) = word_of_nat (of_char c)" by (rule of_nat_of_char [symmetric])
        moreover have "(of_char c :: nat) < 65536" by (rule less_trans [OF nat_of_char_less_256]) simp
        ultimately show ?thesis by (simp add: unat_of_nat take_bit_eq_mod)
      qed
      then show ?thesis by simp
    qed
    then have "map (\<lambda>c. char_of (unat c)) (wide n) = n" by (simp add: wide_def o_def)
    then show ?thesis using that by (simp add: key_reg_def)
  qed
  from start_params_reach_driver [OF keeps r' this, of 0] r' show ?thesis by blast
qed

end
