(* ===== verification/Pdb_Properties.thy ===== *)
theory Pdb_Properties
  imports Pdb
begin

text \<open>What a lookup in the parser answers, in terms of the symbols of the file.\<close>

section \<open>Members\<close>

text \<open>A child that is a member located relative to the object.\<close>

definition member_of :: "dia_symbol \<Rightarrow> member_info option" where
  "member_of c =
     (if dia_tag c = Some SymTagData \<and> dia_location c = Some LocIsThisRel \<and> dia_name c \<noteq> []
      then map_option (\<lambda>offs. \<lparr>mi_name = dia_name c, mi_offset = offs\<rparr>) (dia_offset c)
      else None)"

definition located :: "dia_symbol \<Rightarrow> bool" where
  "located c \<longleftrightarrow> (dia_tag c = Some SymTagData \<longrightarrow> dia_location c \<noteq> None)"

fun first_member :: "dia_symbol list \<Rightarrow> string \<Rightarrow> member_info option" where
  "first_member [] n = None"
| "first_member (c # cs) n =
     (case member_of c of
        Some m \<Rightarrow> if dia_name c = n then Some m else first_member cs n
      | None \<Rightarrow> first_member cs n)"

lemma add_members_deep: "2 < d \<Longrightarrow> add_members cs d members = Inr members"
proof (induction cs arbitrary: members)
  case (Cons c cs)
  then have "get_type_detail c d = Inr Map.empty" by (simp add: get_type_detail.simps)
  with Cons show ?case by simp
qed simp

lemma get_type_detail_child:
  assumes "located c"
  shows "get_type_detail c 2 = Inr (case member_of c of None \<Rightarrow> Map.empty | Some m \<Rightarrow> [dia_name c \<mapsto> m])"
  using assms
  by (auto simp: get_type_detail.simps located_def member_of_def get_type_location_def add_members_deep
      split: option.splits)

lemma add_members_children:
  assumes "\<forall>c \<in> set cs. located c"
  shows "add_members cs 2 members = Inr (\<lambda>n. case members n of Some m \<Rightarrow> Some m | None \<Rightarrow> first_member cs n)"
  using assms
proof (induction cs arbitrary: members)
  case Nil
  show ?case by (auto simp: fun_eq_iff split: option.splits)
next
  case (Cons c cs)
  show ?case
    using Cons.prems
    by (auto simp: get_type_detail_child Cons.IH map_add_def fun_eq_iff split: option.splits)
qed

lemma type_members_direct:
  assumes "dia_tag c = Some SymTagUDT" and "dia_children c = Some cs" and "\<forall>d \<in> set cs. located d"
  shows "get_type_detail c 1 = Inr (first_member cs)"
proof -
  have "add_members cs (Suc (Suc 0)) Map.empty = Inr (first_member cs)"
    using add_members_children [OF assms(3), of Map.empty] unfolding numeral_2_eq_2 by simp
  then show ?thesis using assms by (simp add: get_type_detail.simps)
qed

section \<open>Symbols and types\<close>

definition info_of :: "dia_symbol \<Rightarrow> sym_info" where
  "info_of c = \<lparr>si_name = dia_name c, si_rva = dia_rva c, si_offset = dia_addr_offset c, si_section = dia_section c\<rparr>"

lemma insert_symbols_find:
  "insert_symbols cs m n =
     (case m n of Some i \<Rightarrow> Some i | None \<Rightarrow> map_option info_of (find (\<lambda>c. dia_name c = n) cs))"
  by (induction cs arbitrary: m) (auto simp: map_insert_def info_of_def split: option.splits)

definition sound_type :: "dia_symbol \<Rightarrow> bool" where
  "sound_type c \<longleftrightarrow> dia_tag c = Some SymTagUDT \<and> (\<exists>cs. dia_children c = Some cs \<and> (\<forall>d \<in> set cs. located d))"

definition type_of :: "dia_symbol \<Rightarrow> type_info" where
  "type_of c = \<lparr>ti_name = dia_name c, ti_members = first_member (the (dia_children c))\<rparr>"

lemma insert_types_find:
  assumes "\<forall>c \<in> set cs. sound_type c"
  shows "insert_types cs m = Inr (\<lambda>n.
     case m n of Some t \<Rightarrow> Some t | None \<Rightarrow> map_option type_of (find (\<lambda>c. dia_name c = n) cs))"
  using assms
proof (induction cs arbitrary: m)
  case Nil
  show ?case by (auto simp: fun_eq_iff split: option.splits)
next
  case (Cons c cs)
  from Cons.prems obtain ds where "dia_children c = Some ds" "get_type_detail c 1 = Inr (first_member ds)"
    using type_members_direct by (auto simp: sound_type_def)
  then show ?case
    using Cons by (auto simp: map_insert_def type_of_def fun_eq_iff split: option.splits)
qed

text \<open>C29: of a file that can be opened, \<open>get_symbol\<close> answers the first public symbol with the name,
  and reads a string from \<open>NULL\<close> when there is none; \<open>get_type(t).get_member(m)\<close> answers the offset
  of the first member with that name directly inside the first type with that name, and offset
  zero when there is no such type or member. Members of nested types, static members and members
  without an offset do not count.\<close>

theorem pdb_lookups:
  assumes "new_pdb_parser D = Inr p" and "get_global_scope D = Some g" and "g SymTagPublicSymbol = Some ss"
    and "g SymTagUDT = Some ts" and "\<forall>c \<in> set ts. sound_type c"
  shows "get_symbol n p = (case find (\<lambda>c. dia_name c = n) ss of None \<Rightarrow> Inl Null_Deref | Some c \<Rightarrow> Inr (info_of c, p))
    \<and> mi_offset (fst (get_type_member t m p)) = (case find (\<lambda>c. dia_name c = t) ts of
          None \<Rightarrow> 0
        | Some c \<Rightarrow> (case first_member (the (dia_children c)) m of None \<Rightarrow> 0 | Some i \<Rightarrow> mi_offset i))"
proof -
  have "m_symbols p = insert_symbols ss Map.empty" and types: "insert_types ts Map.empty = Inr (m_types p)"
    using assms by (auto simp: new_pdb_parser_def init_symbols_def init_types_def split: if_splits sum.splits)
  then have "get_symbol n p = (case find (\<lambda>c. dia_name c = n) ss of None \<Rightarrow> Inl Null_Deref | Some c \<Rightarrow> Inr (info_of c, p))"
    by (simp add: get_symbol_def insert_symbols_find split: option.splits)
  moreover have "m_types p = (\<lambda>n. map_option type_of (find (\<lambda>c. dia_name c = n) ts))"
    using types insert_types_find [OF assms(5), of Map.empty] by simp
  then have "mi_offset (fst (get_type_member t m p)) = (case find (\<lambda>c. dia_name c = t) ts of
          None \<Rightarrow> 0
        | Some c \<Rightarrow> (case first_member (the (dia_children c)) m of None \<Rightarrow> 0 | Some i \<Rightarrow> mi_offset i))"
    by (simp add: get_type_member_def get_type_def get_member_def type_of_def Let_def split: option.splits prod.splits)
  ultimately show ?thesis by blast
qed

text \<open>A file with one function and one structure, with a nested type and a static member in it.\<close>

definition demo_ethread :: dia_symbol where
  "demo_ethread = Dia_Symbol ''_ETHREAD'' 0 0 0 (Some SymTagUDT) None None (Some
     [Dia_Symbol ''Inner'' 0 0 0 (Some SymTagUDT) None None (Some
        [Dia_Symbol ''Hidden'' 0 0 0 (Some SymTagData) (Some LocIsThisRel) (Some 4) None]),
      Dia_Symbol ''Counter'' 0 0 0 (Some SymTagData) (Some 1) None None,
      Dia_Symbol ''ThreadListEntry'' 0 0 0 (Some SymTagData) (Some LocIsThisRel) (Some 0x22C) None])"

definition demo_scope :: dia_scope where
  "demo_scope = [SymTagPublicSymbol \<mapsto> [Dia_Symbol ''_NtResumeThread@8'' 0x1400 0x400 1 None None None None],
     SymTagUDT \<mapsto> [demo_ethread]]"

definition demo_dia :: dia_api where
  "demo_dia = \<lparr>co_create_instance = True, load_data_for_exe = False, load_data_from_pdb = True, open_session = True,
     get_global_scope = Some demo_scope\<rparr>"

lemma pdb_lookups_witness:
  "\<exists>p. new_pdb_parser demo_dia = Inr p \<and> get_symbol ''_NtOpenThread@16'' p = Inl Null_Deref
    \<and> mi_offset (fst (get_type_member ''_ETHREAD'' ''ThreadListEntry'' p)) = 0x22C
    \<and> mi_offset (fst (get_type_member ''_ETHREAD'' ''Hidden'' p)) = 0"
proof -
  have types: "\<forall>c \<in> set [demo_ethread]. sound_type c" by (simp add: sound_type_def demo_ethread_def located_def)
  obtain p where p: "new_pdb_parser demo_dia = Inr p"
    using insert_types_find [OF types, of Map.empty]
    by (simp add: new_pdb_parser_def demo_dia_def init_symbols_def init_types_def demo_scope_def del: insert_types.simps)
  have g: "get_global_scope demo_dia = Some demo_scope"
    "demo_scope SymTagPublicSymbol = Some [Dia_Symbol ''_NtResumeThread@8'' 0x1400 0x400 1 None None None None]"
    "demo_scope SymTagUDT = Some [demo_ethread]"
    by (simp_all add: demo_dia_def demo_scope_def)
  note look = pdb_lookups [OF p g types]
  show ?thesis
    using p look [of "''_NtOpenThread@16''" "''_ETHREAD''" "''ThreadListEntry''"] look [of "[]" "''_ETHREAD''" "''Hidden''"]
    by (simp add: demo_ethread_def member_of_def)
qed

end
