(* ===== verification/Test_Client.thy ===== *)
theory Test_Client
  imports Dbgapi
begin

text \<open>
  The debugger of the repository, \<open>src/kernel/test/test.cpp\<close>: it starts a process, attaches to it,
  asks for all events and answers each of them with \<open>RES_NOT_HANDLED\<close>. What it prints is left out.
\<close>

section \<open>Answering an event\<close>

abbreviation (input) RES_NOT_HANDLED :: u32 where "RES_NOT_HANDLED \<equiv> 0"

text \<open>One of the five \<open>if (msg.event_code == ...)\<close> blocks; the code is at offset 8 of the message.\<close>

definition answer_if :: "'z kstate_scheme user_env \<Rightarrow> u32 \<Rightarrow> handle \<Rightarrow> addr \<Rightarrow> u32 \<Rightarrow> ('z kstate_scheme, unit) lop" where
  "answer_if U acc_key pid msg code =
     followed_by (run_op (read32 (msg + 8))) (\<lambda>c.
       if c = code
       then followed_by (dbg_countinue_event U acc_key pid RES_NOT_HANDLED NULL) (\<lambda>_. returns ())
       else returns ())"

definition answer_event :: "'z kstate_scheme user_env \<Rightarrow> u32 \<Rightarrow> handle \<Rightarrow> addr \<Rightarrow> ('z kstate_scheme, unit) lop" where
  "answer_event U acc_key pid msg =
     followed_by (answer_if U acc_key pid msg DBG_TERMINATED) (\<lambda>_.
     followed_by (answer_if U acc_key pid msg DBG_START_THREAD) (\<lambda>_.
     followed_by (answer_if U acc_key pid msg DBG_EXIT_THREAD) (\<lambda>_.
     followed_by (answer_if U acc_key pid msg DBG_EXCEPTION) (\<lambda>_.
     answer_if U acc_key pid msg DBG_LOAD_DLL))))"

section \<open>The loop\<close>

text \<open>It ends when no message can be fetched; \<open>None\<close> is a loop without end.\<close>

partial_function (option) event_loop :: "'z kstate_scheme user_env \<Rightarrow> u32 \<Rightarrow> handle \<Rightarrow> addr
    \<Rightarrow> 'z kstate_scheme \<Rightarrow> (fault + unit \<times> 'z kstate_scheme) option" where
  "event_loop U acc_key pid msg s =
     (case dbg_get_msg_event U acc_key pid msg s of
        None \<Rightarrow> None
      | Some (Inl e) \<Rightarrow> Some (Inl e)
      | Some (Inr (ok, s)) \<Rightarrow>
          if ok = 0 then Some (Inr ((), s))
          else (case answer_event U acc_key pid msg s of
              None \<Rightarrow> None
            | Some (Inl e) \<Rightarrow> Some (Inl e)
            | Some (Inr (u, s)) \<Rightarrow> event_loop U acc_key pid msg s))"

declare event_loop.simps [code]

text \<open>
  \<open>main\<close> after the library is initialised. \<open>filt\<close> and \<open>msg\<close> are the addresses of the local
  variables; only the mask and the count of the filter are set.
\<close>

definition main_loop :: "'z kstate_scheme user_env \<Rightarrow> u32 \<Rightarrow> addr \<Rightarrow> addr \<Rightarrow> ('z kstate_scheme, unit) lop" where
  "main_loop U acc_key filt msg =
     followed_by (dbg_create_process U
       (CHR 0x22 # ''C:'' @ [CHR 0x5C] @ ''Windows'' @ [CHR 0x5C] @ ''system32'' @ [CHR 0x5C] @ ''calc.exe'' @ [CHR 0x22]) 0) (\<lambda>pid.
     if pid = NULL then returns ()
     else followed_by (dbg_attach_debugger U acc_key pid) (\<lambda>ok.
     if ok = 0 then returns ()
     else followed_by (run_op (write32 filt (DBG_EXCEPTION OR DBG_TERMINATED OR DBG_START_THREAD OR DBG_EXIT_THREAD OR DBG_LOAD_DLL))) (\<lambda>_.
     followed_by (run_op (write32 (filt + 4) 0)) (\<lambda>_.
     followed_by (dbg_set_filter_u U acc_key pid filt) (\<lambda>ok.
     if ok = 0 then returns ()
     else event_loop U acc_key pid msg)))))"

end
