(* ===== verification/Client_Facts.thy ===== *)
theory Client_Facts
  imports Test_Client Debug_Properties Gate_Properties
begin

text \<open>
  From the debugger to the driver: what the library writes on the stack is what the handlers read.
  The gate adds to the log and to nothing else, so that a call of the library is a call of the
  handler on the same memory.
\<close>

section \<open>Arguments in memory\<close>

lemma load_drop: "drop k (load m a n) = load m (a + word_of_nat k) (n - k)"
proof (induction k arbitrary: a n)
  case (Suc k)
  show ?case
  proof (cases n)
    case (Suc j)
    have "drop k (load m (a + 1) j) = load m (a + 1 + word_of_nat k) (j - k)" by (rule Suc.IH)
    then show ?thesis using Suc by (simp add: add.assoc)
  qed simp
qed simp

lemma load_take: "k \<le> n \<Longrightarrow> take k (load m a n) = load m a k"
proof (induction k arbitrary: a n)
  case (Suc k)
  then obtain j where "n = Suc j" "k \<le> j" by (cases n) auto
  with Suc.IH [of j "a + 1"] show ?case by simp
qed simp

lemma rd32_load: "4 \<le> n \<Longrightarrow> rd32 m a = de32 (load m a n)"
proof -
  assume "4 \<le> n"
  then obtain j where "n = 4 + j" using le_Suc_ex by blast
  then have "n = Suc (Suc (Suc (Suc j)))" by simp
  then show ?thesis by (simp add: rd32_def de32_def add.assoc)
qed

lemma rd32_field: "k + 4 \<le> n \<Longrightarrow> rd32 m (a + word_of_nat k) = field32 (load m a n) k"
  unfolding field32_def load_drop by (rule rd32_load) simp

lemma load_disjoint:
  assumes "disjoint_blocks a n b (length bs)" and "length bs < 2 ^ 32" and "n \<le> 2 ^ 32"
  shows "load (store m b bs) a n = load m a n"
proof (rule load_cong)
  fix k assume "k < n"
  then have "in_range a n (a + word_of_nat k)" using assms(3) by (intro in_range_add)
  then have "\<not> in_range b (length bs) (a + word_of_nat k)" using assms(1) by (auto simp: disjoint_blocks_def)
  then show "store m b bs (a + word_of_nat k) = m (a + word_of_nat k)" by (rule store_other [OF assms(2)])
qed

lemma store_append: "store m a (bs @ cs) = store (store m a bs) (a + word_of_nat (length bs)) cs"
  by (induction bs arbitrary: m a) (simp_all add: add.assoc)

lemma wr32_store: "wr32 m a v = store m a (le32 v)"
  by (simp add: wr32_def le32_def add.assoc)

lemma disjoint_blocks_sym: "disjoint_blocks a n b k \<Longrightarrow> disjoint_blocks b k a n"
  by (auto simp: disjoint_blocks_def)

lemma disjoint_blocks_less: "disjoint_blocks a n b k \<Longrightarrow> n' \<le> n \<Longrightarrow> k' \<le> k \<Longrightarrow> disjoint_blocks a n' b k'"
  using in_range_mono by (fastforce simp: disjoint_blocks_def)

lemma length_call_bytes [simp]: "length (call_bytes d) = 20"
  by (simp add: call_bytes_def)

text \<open>The gate captures the call the library has written.\<close>

lemma read_syscall_bytes:
  assumes "load m a 20 = call_bytes d"
  shows "read_syscall m a = d"
proof -
  have last: "field32 (le32 v) 0 = v" for v by (simp add: field32_def)
  show ?thesis
    using rd32_field [of 0 20 m a] rd32_field [of 4 20 m a] rd32_field [of 8 20 m a] rd32_field [of 12 20 m a]
      rd32_field [of 16 20 m a]
    by (simp add: read_syscall_def assms call_bytes_def last)
qed

section \<open>Through the gate\<close>

text \<open>Pages that can be locked and are mapped where they are.\<close>

definition maps_in_place :: "mm_api \<Rightarrow> bool" where
  "maps_in_place M \<longleftrightarrow> (\<forall>b n. b \<noteq> NULL \<longrightarrow> io_allocate_mdl M b n \<noteq> NULL
     \<and> mm_probe_and_lock M (io_allocate_mdl M b n) \<and> mm_map_locked M (io_allocate_mdl M b n) = b)"

lemma lock_buffer_in_place:
  assumes "maps_in_place M"
  shows "\<exists>l cs. lock_buffer M b n s = ((True, l, b), s\<lparr>calls := cs\<rparr>)"
proof (cases "b = NULL")
  case True
  then show ?thesis by (intro exI [of _ no_lock] exI [of _ "calls s"]) (simp add: lock_buffer_def)
next
  case False
  with assms have "io_allocate_mdl M b n \<noteq> NULL" "mm_probe_and_lock M (io_allocate_mdl M b n)"
    "mm_map_locked M (io_allocate_mdl M b n) = b" by (auto simp: maps_in_place_def)
  with False show ?thesis by (auto simp: lock_buffer_def dbg_lock_um_buff_def Let_def log_call_def)
qed

lemma unlock_buffer_log: "\<exists>cs. unlock_buffer l s = s\<lparr>calls := cs\<rparr>"
proof (cases "data l = NULL")
  case True
  then show ?thesis by (intro exI [of _ "calls s"]) (simp add: unlock_buffer_def)
qed (auto simp: unlock_buffer_def dbg_unlock_um_buff_def log_call_def)

text \<open>What a system call makes of the outcome of its handler.\<close>

definition after_handler :: "'b \<Rightarrow> 'b \<Rightarrow> (fault + u32 \<times> 'z kstate_scheme) option \<Rightarrow> (fault + 'b \<times> 'z kstate_scheme) option \<Rightarrow> bool" where
  "after_handler yes no h r \<longleftrightarrow> (case h of
       None \<Rightarrow> r = None
     | Some (Inl e) \<Rightarrow> r = Some (Inl e)
     | Some (Inr (v, t)) \<Rightarrow> (\<exists>cs. r = Some (Inr (if v \<noteq> 0 then yes else no, t\<lparr>calls := cs\<rparr>))))"

lemma serve_in_place:
  assumes "maps_in_place (mm G)" and "probe_user G h sizeof_syscall = None"
    and d: "read_syscall (kmem s) h = d" and "number d < 7" "in_size d \<le> 0x100000" "out_size d \<le> 0x100000"
  shows "\<exists>cs. after_handler STATUS_SUCCESS STATUS_UNSUCCESSFUL
    ((syscall_table E ! unat (number d)) d (s\<lparr>calls := cs\<rparr>)) (serve_syscall E G h s)"
proof -
  let ?h = "syscall_table E ! unat (number d)"
  obtain l1 cs1 where l1: "lock_buffer (mm G) (in_data d) (in_size d) s = ((True, l1, in_data d), s\<lparr>calls := cs1\<rparr>)"
    using lock_buffer_in_place [OF assms(1)] by blast
  obtain l2 cs where l2: "lock_buffer (mm G) (out_data d) (out_size d) (s\<lparr>calls := cs1\<rparr>)
      = ((True, l2, out_data d), s\<lparr>calls := cs\<rparr>)"
    using lock_buffer_in_place [OF assms(1), of "out_data d" "out_size d" "s\<lparr>calls := cs1\<rparr>"] by auto
  have same: "d\<lparr>in_data := in_data d, out_data := out_data d\<rparr> = d" by (cases d) simp
  have lim: "\<not> (7 \<le> number d \<or> 0x100000 < in_size d \<or> 0x100000 < out_size d)" using assms(4-6) by (simp add: not_le not_less)
  have b: "gate_body E G h s = followed_by (?h d)
      (\<lambda>succs. run_op (ret (if succs \<noteq> 0 then STATUS_SUCCESS else STATUS_UNSUCCESSFUL, l1, l2))) (s\<lparr>calls := cs\<rparr>)"
    using assms(2) l1 l2 lim same by (simp add: gate_body_def d Let_def)
  have u: "\<exists>cs. unlock_buffer l2 (unlock_buffer l1 t) = t\<lparr>calls := cs\<rparr>" for t :: "('a, 'b) drv_state_scheme"
  proof -
    obtain c1 where "unlock_buffer l1 t = t\<lparr>calls := c1\<rparr>" using unlock_buffer_log by blast
    moreover obtain c2 where "unlock_buffer l2 (t\<lparr>calls := c1\<rparr>) = t\<lparr>calls := c1\<rparr>\<lparr>calls := c2\<rparr>"
      using unlock_buffer_log by blast
    ultimately show ?thesis by auto
  qed
  show ?thesis
    by (intro exI [of _ cs])
      (use u in \<open>auto simp: after_handler_def serve_syscall_def b followed_by_def run_op_def split: option.splits sum.splits\<close>)
qed

text \<open>The library above the driver: same memory, and the gate is what \<open>NtTerminateProcess\<close> enters.\<close>

definition linked :: "('e, 'z) drv_state_scheme user_env \<Rightarrow> ('e, ('e, 'z) drv_state_scheme) kenv
    \<Rightarrow> ('e, 'z) drv_state_scheme gate_env \<Rightarrow> bool" where
  "linked U E G \<longleftrightarrow> enter_kernel U = new_nt_term_proc E G \<and> from_user E \<and> maps_in_place (mm G)
     \<and> probe_user G (call_at U) sizeof_syscall = None \<and> call_at U \<noteq> NULL"

lemma syscall_is_handler:
  assumes "linked U E G" and "key = sc_key s" and "num < 7" and "isz \<le> 0x100000" and "osz \<le> 0x100000"
    and d_def: "d = \<lparr>number = num, in_data = ib, in_size = isz, out_data = ob, out_size = osz\<rparr>"
  shows "\<exists>cs. after_handler 1 0
    ((syscall_table E ! unat num) d (s\<lparr>kmem := store (kmem s) (call_at U) (call_bytes d), calls := cs\<rparr>))
    (dbg_syscall U key num ib isz ob osz s)"
proof -
  let ?s = "s\<lparr>kmem := store (kmem s) (call_at U) (call_bytes d)\<rparr>"
  note l = assms(1) [unfolded linked_def]
  have "load (kmem ?s) (call_at U) 20 = call_bytes d" using load_store [of "call_bytes d"] by simp
  then have r: "read_syscall (kmem ?s) (call_at U) = d" by (rule read_syscall_bytes)
  have d: "number d = num" "in_size d = isz" "out_size d = osz" by (simp_all add: d_def)
  obtain cs where cs: "after_handler STATUS_SUCCESS STATUS_UNSUCCESSFUL
      ((syscall_table E ! unat num) d (?s\<lparr>calls := cs\<rparr>)) (serve_syscall E G (call_at U) ?s)"
    using serve_in_place [of G "call_at U" ?s d E] l r assms(3-5) d by auto
  have "dbg_syscall U key num ib isz ob osz s
      = followed_by (serve_syscall E G (call_at U)) (\<lambda>st. returns (if st = STATUS_SUCCESS then 1 else 0)) ?s"
    using l assms(2)
    by (simp add: dbg_syscall_def followed_by_def run_op_def write_block_def set_mem_def new_nt_term_proc_def
        d_def [symmetric])
  then show ?thesis
    using cs by (intro exI [of _ cs])
      (auto simp: after_handler_def followed_by_def returns_def run_op_def split: option.splits sum.splits)
qed

end
