(* ===== verification/Client_Properties.thy ===== *)
theory Client_Properties
  imports Client_Facts
begin

text \<open>
  The whole way from the debugger to the driver and back: setting a filter through the library has the effect of the
  handler, and the event loop of the test debugger takes every message that waits and answers it
  once.
\<close>

section \<open>States that differ in memory, log and the other side only\<close>

definition moved :: "mem \<Rightarrow> kcall list \<Rightarrow> 'z \<Rightarrow> ('e, 'z) drv_state_scheme \<Rightarrow> ('e, 'z) drv_state_scheme" where
  "moved m cs z s = drv_state.more_update (\<lambda>_. z) (s\<lparr>kmem := m, calls := cs\<rparr>)"

named_theorems moved_simps \<open>what moving keeps\<close>

lemma moved_same: "s\<lparr>kmem := m, calls := cs\<rparr> = moved m cs (drv_state.more s) s"
  "s\<lparr>calls := cs\<rparr> = moved (kmem s) cs (drv_state.more s) s"
  "s\<lparr>kmem := m\<rparr> = moved m (calls s) (drv_state.more s) s"
  by (simp_all add: moved_def)

lemma moved_fields [moved_simps]:
  "kmem (moved m cs z s) = m" "calls (moved m cs z s) = cs" "drv_state.more (moved m cs z s) = z"
  "items (moved m cs z s) = items s" "chans (moved m cs z s) = chans s" "sc_key (moved m cs z s) = sc_key s"
  "moved m' cs' z' (moved m cs z s) = moved m' cs' z' s" "log_call c (moved m cs z s) = moved m (cs @ [c]) z s"
  "set_mem m' (moved m cs z s) = moved m' cs z s"
  by (simp_all add: moved_def log_call_def set_mem_def)

lemma moved_registry [moved_simps]:
  "items_ok (moved m cs z s) = items_ok s" "room (moved m cs z s) = room s" "relations (moved m cs z s) = relations s"
  by (simp_all add: items_ok_def room_def relations_def item_refs_def moved_def)

lemma moved_item: "set_item a i (moved m cs z s) = moved m cs z (set_item a i s)"
  by (simp add: set_item_def moved_def)

section \<open>The item of the caller\<close>

lemma find_mine_run:
  assumes "items_ok s" and "lookup_process E pid = (STATUS_SUCCESS, process)"
    and "relation_find (cur_process E) process (relations s) = a" and "a \<noteq> NULL"
  obtains i cs where "items s a = Some i" and
    "find_mine E pid s = Inr ((process, a), moved (kmem s) cs (drv_state.more s) (set_item a (i\<lparr>ref_count := ref_count i + 1\<rparr>) s))"
proof -
  let ?s = "log_call (ObRef process) s"
  have ok: "items_ok ?s" using assms(1) by simp
  have "\<exists>x y. (a, x, y) \<in> set (relations s)" using relation_find_in assms(3,4) by blast
  then obtain i where i: "items s a = Some i" using relations_item [OF assms(1)] by metis
  have "find_mine E pid s = Inr ((process, a), log_call SpinRelease (take_ref a (log_call SpinAcquire ?s)))"
    using assms dbg_find_item_run [OF ok, of "cur_process E" process]
    by (simp add: find_mine_def take_object_def and_then_def)
  moreover have "log_call SpinRelease (take_ref a (log_call SpinAcquire ?s))
    = moved (kmem s) (calls s @ [ObRef process, SpinAcquire, SpinRelease]) (drv_state.more s)
        (set_item a (i\<lparr>ref_count := ref_count i + 1\<rparr>) s)"
    using i by (simp add: take_ref_def kernel_simps set_item_def log_call_def moved_def)
  ultimately show thesis using i that by metis
qed

lemma give_back_run:
  assumes "items_ok s" and "room s" and "items s a = Some i"
  shows "dbg_deref_item a (moved m cs z (set_item a (i\<lparr>ref_count := ref_count i + 1\<rparr>) s)) = Inr ((), moved m cs z s)"
proof -
  have small: "unat (ref_count i) < 2 ^ 32 - 1"
    using assms(2,3) by (auto simp: room_def item_refs_def dest: spec [of _ a])
  have "dbg_deref_item a (set_item a (i\<lparr>ref_count := ref_count i + 1\<rparr>) (moved m cs z s))
      = Inr ((), set_item a (i\<lparr>ref_count := ref_count i + 1, ref_count := ref_count i\<rparr>) (moved m cs z s))"
    by (rule deref_taken) (use assms small in \<open>simp_all add: moved_simps\<close>)
  moreover have "i\<lparr>ref_count := ref_count i + 1, ref_count := ref_count i\<rparr> = i" by simp
  moreover have "set_item a i (moved m cs z s) = moved m cs z s" using assms(3) by (simp add: set_item_def moved_def fun_upd_idem)
  ultimately show ?thesis by (simp add: moved_item)
qed

section \<open>Setting a filter\<close>

text \<open>C30: setting a filter through the library. With the driver behind the library, the access key of the
  driver, and the library's variables in memory of their own, \<open>dbg_set_filter\<close> of the library
  answers whether the caller debugs the process, and then the filter of that item, and nothing else
  in the registry, is what the caller's structure holds.\<close>

theorem user_sets_filter:
  assumes "linked U E G" and "key = sc_key s" and "items_ok s" and "room s"
    and "lookup_process E pid = (STATUS_SUCCESS, process)" and "process \<noteq> NULL"
    and "arg_at U \<noteq> NULL" and "arg_at U + 4 \<noteq> NULL" and "filt \<noteq> NULL"
    and "disjoint_blocks (arg_at U) 812 (call_at U) 20" and "disjoint_blocks filt 808 (arg_at U) 4"
  shows "\<exists>t. let a = relation_find (cur_process E) process (relations s) in
    dbg_set_filter_u U key pid filt s = Some (Inr (if a = NULL then 0 else 1, t))
    \<and> items t = (if a = NULL then items s
        else (items s)(a \<mapsto> (the (items s a))\<lparr>item_filter := read_filter (load (kmem s) filt 808)\<rparr>))"
proof -
  let ?a = "relation_find (cur_process E) process (relations s)"
  let ?F = "load (kmem s) filt 808"
  let ?W = "store (kmem s) (arg_at U) (le32 pid @ ?F)"
  define d where "d = \<lparr>number = 5, in_data = arg_at U, in_size = 812, out_data = NULL, out_size = 0\<rparr>"
  let ?m = "store ?W (call_at U) (call_bytes d)"
  have "load ?m (arg_at U) 812 = load ?W (arg_at U) 812" by (rule load_disjoint) (use assms(10) in simp_all)
  also have "\<dots> = le32 pid @ ?F" using load_store [of "le32 pid @ ?F"] by simp
  finally have arg: "load ?m (arg_at U) 812 = le32 pid @ ?F" .
  have pid: "rd32 ?m (arg_at U) = pid" using rd32_load [of 812 ?m "arg_at U"] by (simp add: arg)
  have F: "load ?m (arg_at U + 4) 808 = ?F" using load_drop [of 4 ?m "arg_at U" 812] by (simp add: arg)
  obtain cs where cs: "after_handler 1 0 ((syscall_table E ! 5) d (s\<lparr>kmem := ?m, calls := cs\<rparr>))
      (dbg_syscall U key 5 (arg_at U) 812 NULL 0 (s\<lparr>kmem := ?W\<rparr>))"
    using syscall_is_handler [OF assms(1), of key "s\<lparr>kmem := ?W\<rparr>" 5 812 0 d "arg_at U" NULL] assms(2) by (auto simp: d_def)
  let ?s = "moved ?m cs (drv_state.more s) s"
  obtain t where t: "dbg_set_filter E d ?s = Inr (if ?a = NULL then 0 else 1, t)"
    "items t = (if ?a = NULL then items s else (items s)(?a \<mapsto> (the (items s ?a))\<lparr>item_filter := read_filter ?F\<rparr>))"
    using set_filter_run [of ?s d E process] assms pid F by (auto simp: moved_simps d_def Let_def)
  have lib: "dbg_set_filter_u U key pid filt s = dbg_syscall U key 5 (arg_at U) 812 NULL 0 (s\<lparr>kmem := ?W\<rparr>)"
  proof -
    have "load (wr32 (kmem s) (arg_at U) pid) filt 808 = ?F"
      unfolding wr32_store by (rule load_disjoint) (use assms(11) in simp_all)
    moreover have "store (wr32 (kmem s) (arg_at U) pid) (arg_at U + 4) ?F = ?W"
      by (simp add: store_append wr32_store)
    moreover have "followed_by f (\<lambda>ok. returns (if ok \<noteq> 0 then 1 else 0)) x = f x"
      if "\<And>v t. f x = Some (Inr (v, t)) \<Longrightarrow> v = 0 \<or> v = 1" for f :: "(_, u32) lop" and x :: "('a, 'b) drv_state_scheme"
      using that by (auto simp: followed_by_def returns_def run_op_def split: option.splits sum.splits)
    moreover have "v = 0 \<or> v = 1" if "dbg_syscall U key 5 (arg_at U) 812 NULL 0 x = Some (Inr (v, y))" for v x y
      using that by (auto simp: dbg_syscall_def followed_by_def returns_def run_op_def split: option.splits sum.splits if_splits)
    ultimately show ?thesis
      using assms(7-9)
      by (simp add: dbg_set_filter_u_def followed_by_def [of "run_op f" for f] run_op_def and_then_def write32_def read_block_def
          write_block_def set_mem_def)
  qed
  have tab: "syscall_table E ! 5 = (\<lambda>d. run_op (dbg_set_filter E d))" by (simp add: syscall_table_def)
  have "(syscall_table E ! 5) d (s\<lparr>kmem := ?m, calls := cs\<rparr>) = Some (Inr (if ?a = NULL then 0 else 1, t))"
    by (simp only: tab run_op_def moved_same(1) t(1))
  from cs [unfolded this] obtain cs' where "dbg_syscall U key 5 (arg_at U) 812 NULL 0 (s\<lparr>kmem := ?W\<rparr>)
      = Some (Inr (if ?a = NULL then 0 else 1, t\<lparr>calls := cs'\<rparr>))"
    by (auto simp: after_handler_def split: if_splits)
  then show ?thesis unfolding lib by (simp add: Let_def t(2))
qed

text \<open>A debugger above the driver of the demonstration state.\<close>

definition demo_user :: "(bool, 'z) drv_state_scheme user_env" where
  "demo_user = \<lparr>enter_kernel = new_nt_term_proc demo_env demo_gate, call_at = 0x300, arg_at = 0x400, res_at = 0x380,
     create_process_a = (\<lambda>_ _ s. ((True, 0x50, 0x54, 0x20), s)), read_process_memory = (\<lambda>_ _ _ _ _ s. (True, s)),
     write_process_memory = (\<lambda>_ _ _ _ _ s. (True, s)), win_open_thread = (\<lambda>_ s. (0x58, s)),
     get_thread_context = (\<lambda>_ _ s. (True, s)), set_thread_context = (\<lambda>_ _ s. (True, s))\<rparr>"

lemma demo_linked: "linked demo_user demo_env demo_gate"
  by (simp add: linked_def demo_user_def maps_in_place_def demo_gate_def demo_env_def)

lemma user_sets_filter_witness:
  "\<exists>t. dbg_set_filter_u demo_user 0 0x20 0x1000 demo_state = Some (Inr (1, t))
    \<and> items t = [0x4000 \<mapsto> demo_item\<lparr>item_filter := read_filter (load (kmem demo_state) 0x1000 808)\<rparr>]"
proof -
  have find: "relation_find 0x1000 0x2000 (relations demo_state) = 0x4000"
    by (simp add: demo_relations relation_find_def)
  have at: "call_at demo_user = 0x300" "arg_at demo_user = 0x400" by (simp_all add: demo_user_def)
  have disj: "disjoint_blocks 0x400 812 0x300 20" "disjoint_blocks 0x1000 808 0x400 4"
    by (rule disjoint_blocksI; simp)+
  have "0 = sc_key demo_state" "items demo_state = [0x4000 \<mapsto> demo_item]" by (simp_all add: demo_state_def)
  then show ?thesis
    using user_sets_filter [OF demo_linked _ demo_items_ok demo_room, of 0 "0x20" "0x2000" "0x1000", unfolded at, OF _ _ _ _ _ _ disj] find
    by (simp add: Let_def)
qed

section \<open>Waiting for messages and answering\<close>

text \<open>
  The other side of the channel: \<open>waiting z\<close> are the messages that will come, \<open>given z\<close> the first two
  fields of the answers so far. A receive delivers the next message, or gives up when there
  is none.
\<close>

definition queue_env :: "('e, ('e, 'z) drv_state_scheme) kenv \<Rightarrow> ('z \<Rightarrow> u8 list list) \<Rightarrow> ('z \<Rightarrow> u8 list list) \<Rightarrow> bool" where
  "queue_env E waiting given \<longleftrightarrow>
     (\<forall>c s. \<exists>m z. take_msg E c s = ((if waiting (drv_state.more s) = [] then 0 else 1, m), drv_state.more_update (\<lambda>_. z) s)
        \<and> waiting z = tl (waiting (drv_state.more s)) \<and> given z = given (drv_state.more s)
        \<and> (waiting (drv_state.more s) \<noteq> [] \<longrightarrow> m = hd (waiting (drv_state.more s))))
   \<and> (\<forall>c p s. \<exists>z. answer E c p s = (1, drv_state.more_update (\<lambda>_. z) s)
        \<and> waiting z = waiting (drv_state.more s) \<and> given z = given (drv_state.more s) @ [load (kmem s) p 8])"

lemma more_moved: "drv_state.more_update (\<lambda>_. z) s = moved (kmem s) (calls s) z s"
  by (simp add: moved_def)

text \<open>The caller debugs the process, and its call finds the item.\<close>

definition debugging :: "('e, ('e, 'z) drv_state_scheme) kenv \<Rightarrow> handle \<Rightarrow> ('e, 'z) drv_state_scheme \<Rightarrow> bool" where
  "debugging E pid s \<longleftrightarrow> items_ok s \<and> room s
     \<and> (\<exists>process. lookup_process E pid = (STATUS_SUCCESS, process) \<and> process \<noteq> NULL
          \<and> relation_find (cur_process E) process (relations s) \<noteq> NULL)"

lemma debugging_moved [moved_simps]: "debugging E pid (moved m cs z s) = debugging E pid s"
  by (simp add: debugging_def moved_simps)

lemma with_item_run:
  assumes "debugging E pid s"
  obtains process a i cs where "process \<noteq> NULL" "a \<noteq> NULL" "items s a = Some i" "chans s (item_chan i) \<noteq> None" "item_chan i \<noteq> NULL"
    "find_mine E pid s = Inr ((process, a), moved (kmem s) cs (drv_state.more s) (set_item a (i\<lparr>ref_count := ref_count i + 1\<rparr>) s))"
    "\<forall>m cs z. dbg_deref_item a (moved m cs z (set_item a (i\<lparr>ref_count := ref_count i + 1\<rparr>) s)) = Inr ((), moved m cs z s)"
proof -
  from assms obtain process where d: "items_ok s" "room s" "lookup_process E pid = (STATUS_SUCCESS, process)" "process \<noteq> NULL"
    "relation_find (cur_process E) process (relations s) \<noteq> NULL" by (auto simp: debugging_def)
  from find_mine_run [OF d(1,3) refl d(5)] obtain i cs where "items s (relation_find (cur_process E) process (relations s)) = Some i"
    "find_mine E pid s = Inr ((process, relation_find (cur_process E) process (relations s)),
       moved (kmem s) cs (drv_state.more s) (set_item (relation_find (cur_process E) process (relations s)) (i\<lparr>ref_count := ref_count i + 1\<rparr>) s))" .
  then show thesis
    using that [OF d(4,5)] give_back_run [OF d(1,2)] items_okD [OF d(1)] by (metis (no_types, lifting))
qed

lemma item_moved: "the_item a (moved m cs z (set_item a j s)) = (if a = NULL then Inl Null_Deref else Inr (j, moved m cs z (set_item a j s)))"
  by (simp add: the_item_def moved_simps kernel_simps)

lemma chan_moved: "chans s c \<noteq> None \<Longrightarrow> c \<noteq> NULL \<Longrightarrow>
    \<exists>ch. the_chan c (moved m cs z (set_item a j s)) = Inr (ch, moved m cs z (set_item a j s))"
  by (auto simp: the_chan_def moved_simps set_item_def)

lemma get_message_run:
  assumes "debugging E (rd32 (kmem s) (in_data d)) s" and "queue_env E waiting given"
    and "in_data d \<noteq> NULL" and "out_data d \<noteq> NULL" and "in_size d = 4" and "out_size d = 736"
  shows "\<exists>cs z. dbg_get_message E d s = Inr (if waiting (drv_state.more s) = [] then 0 else 1,
      moved (if waiting (drv_state.more s) = [] then kmem s else store (kmem s) (out_data d) (hd (waiting (drv_state.more s)))) cs z s)
    \<and> waiting z = tl (waiting (drv_state.more s)) \<and> given z = given (drv_state.more s)"
proof -
  obtain process a i cs where f: "process \<noteq> NULL" "a \<noteq> NULL" "items s a = Some i" "chans s (item_chan i) \<noteq> None" "item_chan i \<noteq> NULL"
    "find_mine E (rd32 (kmem s) (in_data d)) s
       = Inr ((process, a), moved (kmem s) cs (drv_state.more s) (set_item a (i\<lparr>ref_count := ref_count i + 1\<rparr>) s))"
    "\<forall>m cs z. dbg_deref_item a (moved m cs z (set_item a (i\<lparr>ref_count := ref_count i + 1\<rparr>) s)) = Inr ((), moved m cs z s)"
    by (rule with_item_run [OF assms(1)])
  let ?u = "\<lambda>m cs z. moved m cs z (set_item a (i\<lparr>ref_count := ref_count i + 1\<rparr>) s)"
  obtain ch where ch: "the_chan (item_chan i) (?u (kmem s) cs (drv_state.more s)) = Inr (ch, ?u (kmem s) cs (drv_state.more s))"
    using chan_moved [OF f(4,5)] by blast
  from assms(2) [unfolded queue_env_def, THEN conjunct1, rule_format, of "item_chan i" "?u (kmem s) cs (drv_state.more s)"]
  obtain m z where t: "take_msg E (item_chan i) (?u (kmem s) cs (drv_state.more s))
      = ((if waiting (drv_state.more s) = [] then 0 else 1, m), ?u (kmem s) cs z)"
    and z: "waiting z = tl (waiting (drv_state.more s))" "given z = given (drv_state.more s)"
      "waiting (drv_state.more s) \<noteq> [] \<longrightarrow> m = hd (waiting (drv_state.more s))"
    by (auto simp: more_moved moved_simps)
  show ?thesis
    by (intro exI [of _ "cs @ [ObDeref process]"] exI [of _ z])
      (use assms(3-6) f t z ch in \<open>auto simp: dbg_get_message_def read32_def and_then_def item_moved write_block_def drop_object_def moved_simps\<close>)
qed

lemma countinue_run:
  assumes "debugging E (rd32 (kmem s) (in_data d)) s" and "queue_env E waiting given"
    and "in_data d \<noteq> NULL" and "in_size d = 88"
  shows "\<exists>cs z. dbg_countinue E d s = Inr (1, moved (kmem s) cs z s)
    \<and> waiting z = waiting (drv_state.more s) \<and> given z = given (drv_state.more s) @ [load (kmem s) (in_data d) 8]"
proof -
  obtain process a i cs where f: "process \<noteq> NULL" "a \<noteq> NULL" "items s a = Some i" "chans s (item_chan i) \<noteq> None" "item_chan i \<noteq> NULL"
    "find_mine E (rd32 (kmem s) (in_data d)) s
       = Inr ((process, a), moved (kmem s) cs (drv_state.more s) (set_item a (i\<lparr>ref_count := ref_count i + 1\<rparr>) s))"
    "\<forall>m cs z. dbg_deref_item a (moved m cs z (set_item a (i\<lparr>ref_count := ref_count i + 1\<rparr>) s)) = Inr ((), moved m cs z s)"
    by (rule with_item_run [OF assms(1)])
  let ?u = "\<lambda>m cs z. moved m cs z (set_item a (i\<lparr>ref_count := ref_count i + 1\<rparr>) s)"
  obtain ch where ch: "the_chan (item_chan i) (?u (kmem s) cs (drv_state.more s)) = Inr (ch, ?u (kmem s) cs (drv_state.more s))"
    using chan_moved [OF f(4,5)] by blast
  from assms(2) [unfolded queue_env_def, THEN conjunct2, rule_format, of "item_chan i" "in_data d" "?u (kmem s) cs (drv_state.more s)"]
  obtain z where t: "answer E (item_chan i) (in_data d) (?u (kmem s) cs (drv_state.more s)) = (1, ?u (kmem s) cs z)"
    and z: "waiting z = waiting (drv_state.more s)" "given z = given (drv_state.more s) @ [load (kmem s) (in_data d) 8]"
    by (auto simp: more_moved moved_simps)
  show ?thesis
    by (intro exI [of _ "cs @ [ObDeref process]"] exI [of _ z])
      (use assms(3,4) f t z ch in \<open>auto simp: dbg_countinue_def read32_def and_then_def item_moved drop_object_def moved_simps\<close>)
qed

text \<open>Each of the library's variables has memory of its own.\<close>

definition own_memory :: "'s user_env \<Rightarrow> addr \<Rightarrow> bool" where
  "own_memory U msg \<longleftrightarrow> arg_at U \<noteq> NULL \<and> arg_at U + 4 \<noteq> NULL \<and> msg \<noteq> NULL \<and> msg + 8 \<noteq> NULL
     \<and> disjoint_blocks (arg_at U) 88 (call_at U) 20 \<and> disjoint_blocks msg 736 (arg_at U) 88 \<and> disjoint_blocks msg 736 (call_at U) 20"

lemma own_memoryD:
  assumes "own_memory U msg"
  shows "arg_at U \<noteq> NULL" "arg_at U + 4 \<noteq> NULL" "msg \<noteq> NULL" "msg + 8 \<noteq> NULL"
    and "n \<le> 88 \<Longrightarrow> disjoint_blocks (arg_at U) n (call_at U) 20" and "n \<le> 88 \<Longrightarrow> disjoint_blocks msg 736 (arg_at U) n"
    and "disjoint_blocks msg 736 (call_at U) 20"
  using assms by (auto simp: own_memory_def intro: disjoint_blocks_less)

lemma syscall_returns:
  assumes "linked U E G" and "key = sc_key s" and "num < 7" and "isz \<le> 0x100000" and "osz \<le> 0x100000"
    and "d = \<lparr>number = num, in_data = ib, in_size = isz, out_data = ob, out_size = osz\<rparr>"
    and "\<And>cs. \<exists>m' cs' z. (syscall_table E ! unat num) d (moved (store (kmem s) (call_at U) (call_bytes d)) cs (drv_state.more s) s)
        = Some (Inr (v, moved m' cs' z s)) \<and> P m' z"
  shows "\<exists>m' cs' z. dbg_syscall U key num ib isz ob osz s = Some (Inr (if v \<noteq> 0 then 1 else 0, moved m' cs' z s)) \<and> P m' z"
proof -
  let ?s = "\<lambda>cs. moved (store (kmem s) (call_at U) (call_bytes d)) cs (drv_state.more s) s"
  obtain cs where "after_handler 1 0 ((syscall_table E ! unat num) d (?s cs)) (dbg_syscall U key num ib isz ob osz s)"
    using syscall_is_handler [OF assms(1-6)] unfolding moved_same(1) by blast
  moreover obtain m' cs' z where "(syscall_table E ! unat num) d (?s cs) = Some (Inr (v, moved m' cs' z s))" "P m' z"
    using assms(7) by blast
  ultimately obtain cs'' where "dbg_syscall U key num ib isz ob osz s
      = Some (Inr (if v \<noteq> 0 then 1 else 0, (moved m' cs' z s)\<lparr>calls := cs''\<rparr>))"
    by (auto simp: after_handler_def)
  moreover have "(moved m' cs' z s)\<lparr>calls := cs''\<rparr> = moved m' cs'' z s" by (simp add: moved_def)
  ultimately show ?thesis using \<open>P m' z\<close> by metis
qed

lemma get_msg_event_run:
  assumes "linked U E G" and "key = sc_key s" and "debugging E pid s" and "queue_env E waiting given" and "own_memory U msg"
    and "\<forall>b \<in> set (waiting (drv_state.more s)). length b = 736"
  shows "\<exists>m cs z. dbg_get_msg_event U key pid msg s
      = Some (Inr (if waiting (drv_state.more s) = [] then 0 else 1, moved m cs z s))
    \<and> waiting z = tl (waiting (drv_state.more s)) \<and> given z = given (drv_state.more s)
    \<and> (waiting (drv_state.more s) \<noteq> [] \<longrightarrow> load m msg 736 = hd (waiting (drv_state.more s)))"
proof -
  note own = own_memoryD [OF assms(5)]
  let ?W = "store (kmem s) (arg_at U) (le32 pid)"
  let ?w = "waiting (drv_state.more s)"
  let ?s = "moved ?W (calls s) (drv_state.more s) s"
  define d where "d = \<lparr>number = 4, in_data = arg_at U, in_size = 4, out_data = msg, out_size = 736\<rparr>"
  let ?m = "store ?W (call_at U) (call_bytes d)"
  have "load ?m (arg_at U) 4 = load ?W (arg_at U) 4" by (rule load_disjoint) (use own(5) [of 4] in simp_all)
  also have "\<dots> = le32 pid" using load_store [of "le32 pid"] by simp
  finally have pid: "rd32 ?m (arg_at U) = pid" using rd32_load [of 4 ?m "arg_at U"] by simp
  have h: "\<exists>m' cs' z. (syscall_table E ! unat (4 :: u32)) d (moved (store (kmem ?s) (call_at U) (call_bytes d)) cs (drv_state.more ?s) ?s)
      = Some (Inr (if ?w = [] then 0 else 1, moved m' cs' z ?s))
    \<and> (waiting z = tl ?w \<and> given z = given (drv_state.more s) \<and> (?w \<noteq> [] \<longrightarrow> load m' msg 736 = hd ?w))" for cs
  proof -
    have "load (store ?m msg (hd ?w)) msg 736 = hd ?w" if "?w \<noteq> []"
      using load_store [of "hd ?w" ?m msg] assms(6) that by simp
    moreover have dd: "out_data d = msg" by (simp add: d_def)
    note msg_run = get_message_run [of E "moved ?m cs (drv_state.more s) s" d waiting given, OF _ assms(4)]
    have "debugging E (rd32 (kmem (moved ?m cs (drv_state.more s) s)) (in_data d)) (moved ?m cs (drv_state.more s) s)"
      "in_data d \<noteq> NULL" "out_data d \<noteq> NULL" "in_size d = 4" "out_size d = 736"
      using assms(3) own pid by (simp_all add: moved_simps d_def)
    note msg_run = msg_run [OF this]
    moreover obtain cs' z where "dbg_get_message E d (moved ?m cs (drv_state.more s) s)
        = Inr (if ?w = [] then 0 else 1, moved (if ?w = [] then ?m else store ?m msg (hd ?w)) cs' z s)"
      "waiting z = tl ?w" "given z = given (drv_state.more s)"
      using msg_run [unfolded moved_simps dd] by blast
    ultimately show ?thesis
      by (intro exI [of _ "if ?w = [] then ?m else store ?m msg (hd ?w)"] exI [of _ cs'] exI [of _ z])
        (simp add: moved_simps syscall_table_def run_op_def)
  qed
  obtain m' cs' z where sys: "dbg_syscall U key 4 (arg_at U) 4 msg 736 ?s
      = Some (Inr (if (if ?w = [] then 0 else 1) \<noteq> (0 :: u32) then 1 else 0, moved m' cs' z ?s))"
    and z: "waiting z = tl ?w" "given z = given (drv_state.more s)" "?w \<noteq> [] \<longrightarrow> load m' msg 736 = hd ?w"
    using syscall_returns [OF assms(1) _ _ _ _ d_def h, of key] assms(2) by (auto simp: moved_simps)
  show ?thesis
    by (intro exI [of _ m'] exI [of _ cs'] exI [of _ z])
      (use own sys z in \<open>simp add: dbg_get_msg_event_def followed_by_def run_op_def write32_def wr32_store returns_def
        moved_simps moved_same(3) set_mem_def\<close>)
qed

lemma countinue_event_run:
  assumes "linked U E G" and "key = sc_key s" and "debugging E pid s" and "queue_env E waiting given" and "own_memory U msg"
  shows "\<exists>m cs z. dbg_countinue_event U key pid st NULL s = Some (Inr (1, moved m cs z s))
    \<and> waiting z = waiting (drv_state.more s) \<and> given z = given (drv_state.more s) @ [le32 pid @ le32 st]
    \<and> load m msg 736 = load (kmem s) msg 736"
proof -
  note own = own_memoryD [OF assms(5)]
  let ?W = "store (kmem s) (arg_at U) (le32 pid @ le32 st)"
  let ?s = "moved ?W (calls s) (drv_state.more s) s"
  define d where "d = \<lparr>number = 6, in_data = arg_at U, in_size = 88, out_data = NULL, out_size = 0\<rparr>"
  let ?m = "store ?W (call_at U) (call_bytes d)"
  have "load ?m (arg_at U) 8 = load ?W (arg_at U) 8" by (rule load_disjoint) (use own(5) [of 8] in simp_all)
  also have "\<dots> = le32 pid @ le32 st" using load_store [of "le32 pid @ le32 st"] by simp
  finally have arg: "load ?m (arg_at U) 8 = le32 pid @ le32 st" .
  have pid: "rd32 ?m (arg_at U) = pid" using rd32_load [of 8 ?m "arg_at U"] by (simp add: arg)
  have "load ?m msg 736 = load ?W msg 736" by (rule load_disjoint) (use own(7) in simp_all)
  also have "\<dots> = load (kmem s) msg 736" by (rule load_disjoint) (use own(6) [of 8] in simp_all)
  finally have msg: "load ?m msg 736 = load (kmem s) msg 736" .
  have h: "\<exists>m' cs' z. (syscall_table E ! unat (6 :: u32)) d
        (moved (store (kmem ?s) (call_at U) (call_bytes d)) cs (drv_state.more ?s) ?s) = Some (Inr (1, moved m' cs' z ?s))
    \<and> (waiting z = waiting (drv_state.more s) \<and> given z = given (drv_state.more s) @ [le32 pid @ le32 st]
      \<and> load m' msg 736 = load (kmem s) msg 736)" for cs
  proof -
    have dd: "in_data d = arg_at U" by (simp add: d_def)
    have "debugging E (rd32 (kmem (moved ?m cs (drv_state.more s) s)) (in_data d)) (moved ?m cs (drv_state.more s) s)"
      "in_data d \<noteq> NULL" "in_size d = 88"
      using assms(3) own pid by (simp_all add: moved_simps d_def)
    from countinue_run [OF this(1) assms(4) this(2,3), unfolded moved_simps dd arg] obtain cs' z where
      "dbg_countinue E d (moved ?m cs (drv_state.more s) s) = Inr (1, moved ?m cs' z s)"
      "waiting z = waiting (drv_state.more s)" "given z = given (drv_state.more s) @ [le32 pid @ le32 st]" by blast
    then show ?thesis
      by (intro exI [of _ ?m] exI [of _ cs'] exI [of _ z]) (simp add: moved_simps syscall_table_def run_op_def msg)
  qed
  obtain m' cs' z where sys: "dbg_syscall U key 6 (arg_at U) 88 NULL 0 ?s = Some (Inr (1, moved m' cs' z ?s))"
    and z: "waiting z = waiting (drv_state.more s)" "given z = given (drv_state.more s) @ [le32 pid @ le32 st]"
      "load m' msg 736 = load (kmem s) msg 736"
    using syscall_returns [OF assms(1) _ _ _ _ d_def h, of key] assms(2) by (auto simp: moved_simps)
  have "store (wr32 (kmem s) (arg_at U) pid) (arg_at U + 4) (le32 st) = ?W" by (simp add: store_append wr32_store)
  then show ?thesis
    by (intro exI [of _ m'] exI [of _ cs'] exI [of _ z])
      (use own sys z in \<open>simp add: dbg_countinue_event_def followed_by_def run_op_def write32_def wr32_store returns_def
        moved_simps moved_same(3) set_mem_def\<close>)
qed

section \<open>The event loop\<close>

definition known :: "u8 list \<Rightarrow> bool" where
  "known b \<longleftrightarrow> field32 b 8 \<in> {DBG_EXCEPTION, DBG_TERMINATED, DBG_START_THREAD, DBG_EXIT_THREAD, DBG_LOAD_DLL}"

lemma answer_if_run:
  assumes "linked U E G" and "key = sc_key s" and "debugging E pid s" and "queue_env E waiting given" and "own_memory U msg"
  shows "\<exists>m cs z. answer_if U key pid msg code s = Some (Inr ((), moved m cs z s))
    \<and> waiting z = waiting (drv_state.more s) \<and> load m msg 736 = load (kmem s) msg 736
    \<and> given z = given (drv_state.more s) @ (if field32 (load (kmem s) msg 736) 8 = code then [le32 pid @ le32 0] else [])"
proof -
  have c: "rd32 (kmem s) (msg + 8) = field32 (load (kmem s) msg 736) 8" using rd32_field [of 8 736 "kmem s" msg] by simp
  note own = own_memoryD [OF assms(5)]
  show ?thesis
  proof (cases "field32 (load (kmem s) msg 736) 8 = code")
    case True
    obtain m cs z where r: "dbg_countinue_event U key pid 0 NULL s = Some (Inr (1, moved m cs z s))"
      "waiting z = waiting (drv_state.more s)" "given z = given (drv_state.more s) @ [le32 pid @ le32 0]"
      "load m msg 736 = load (kmem s) msg 736"
      using countinue_event_run [OF assms, of 0] by blast
    show ?thesis
      by (intro exI [of _ m] exI [of _ cs] exI [of _ z])
        (use True r c own in \<open>simp add: answer_if_def followed_by_def run_op_def read32_def returns_def\<close>)
  next
    case False
    have "s = moved (kmem s) (calls s) (drv_state.more s) s" by (simp add: moved_def)
    then show ?thesis
      by (intro exI [of _ "kmem s"] exI [of _ "calls s"] exI [of _ "drv_state.more s"])
        (use False c own in \<open>simp add: answer_if_def followed_by_def run_op_def read32_def returns_def\<close>)
  qed
qed

text \<open>The answers after the blocks for some of the codes.\<close>

definition answered :: "('z \<Rightarrow> u8 list list) \<Rightarrow> ('z \<Rightarrow> u8 list list) \<Rightarrow> handle \<Rightarrow> addr \<Rightarrow> u32 set
    \<Rightarrow> ('e, 'z) drv_state_scheme \<Rightarrow> mem \<Rightarrow> 'z \<Rightarrow> bool" where
  "answered waiting given pid msg codes s m z \<longleftrightarrow> waiting z = waiting (drv_state.more s)
     \<and> load m msg 736 = load (kmem s) msg 736
     \<and> given z = given (drv_state.more s)
         @ (if field32 (load (kmem s) msg 736) 8 \<in> codes then [le32 pid @ le32 0] else [])"

lemma answered_none: "answered waiting given pid msg {} s (kmem s) (drv_state.more s)"
  by (simp add: answered_def)

lemma answer_if_answered:
  assumes "linked U E G" and "key = sc_key s" and "debugging E pid s" and "queue_env E waiting given" and "own_memory U msg"
    and "answered waiting given pid msg codes s m z" and "code \<notin> codes"
  shows "\<exists>m' cs' z'. answer_if U key pid msg code (moved m cs z s) = Some (Inr ((), moved m' cs' z' s))
    \<and> answered waiting given pid msg (insert code codes) s m' z'"
proof -
  have "key = sc_key (moved m cs z s)" "debugging E pid (moved m cs z s)" using assms(2,3) by (simp_all add: moved_simps)
  from answer_if_run [OF assms(1) this assms(4,5), of code, unfolded moved_simps]
  obtain m' cs' z' where r: "answer_if U key pid msg code (moved m cs z s) = Some (Inr ((), moved m' cs' z' s))"
    "waiting z' = waiting z" "load m' msg 736 = load m msg 736"
    "given z' = given z @ (if field32 (load m msg 736) 8 = code then [le32 pid @ le32 0] else [])" by blast
  have "answered waiting given pid msg (insert code codes) s m' z'"
    using assms(6,7) r(2-4) by (simp add: answered_def)
  with r(1) show ?thesis by blast
qed

lemma answer_event_run:
  assumes "linked U E G" and "key = sc_key s" and "debugging E pid s" and "queue_env E waiting given" and "own_memory U msg"
  shows "\<exists>m cs z. answer_event U key pid msg s = Some (Inr ((), moved m cs z s)) \<and> waiting z = waiting (drv_state.more s)
    \<and> given z = given (drv_state.more s) @ (if known (load (kmem s) msg 736) then [le32 pid @ le32 0] else [])"
proof -
  note step = answer_if_answered [OF assms]
  have s: "s = moved (kmem s) (calls s) (drv_state.more s) s" by (simp add: moved_def)
  obtain m1 c1 z1 where 1: "answer_if U key pid msg 2 s = Some (Inr ((), moved m1 c1 z1 s))"
    "answered waiting given pid msg {2} s m1 z1" using step [OF answered_none, of 2 "calls s"] unfolding s [symmetric] by auto
  obtain m2 c2 z2 where 2: "answer_if U key pid msg 4 (moved m1 c1 z1 s) = Some (Inr ((), moved m2 c2 z2 s))"
    "answered waiting given pid msg {4, 2} s m2 z2" using step [OF 1(2), where code = 4 and cs = c1] by auto
  obtain m3 c3 z3 where 3: "answer_if U key pid msg 8 (moved m2 c2 z2 s) = Some (Inr ((), moved m3 c3 z3 s))"
    "answered waiting given pid msg {8, 4, 2} s m3 z3" using step [OF 2(2), where code = 8 and cs = c2] by auto
  obtain m4 c4 z4 where 4: "answer_if U key pid msg 1 (moved m3 c3 z3 s) = Some (Inr ((), moved m4 c4 z4 s))"
    "answered waiting given pid msg {1, 8, 4, 2} s m4 z4" using step [OF 3(2), where code = 1 and cs = c3] by auto
  obtain m5 c5 z5 where 5: "answer_if U key pid msg 16 (moved m4 c4 z4 s) = Some (Inr ((), moved m5 c5 z5 s))"
    "answered waiting given pid msg {16, 1, 8, 4, 2} s m5 z5" using step [OF 4(2), where code = 16 and cs = c4] by auto
  have "answer_event U key pid msg s = Some (Inr ((), moved m5 c5 z5 s))"
    by (simp add: answer_event_def followed_by_def 1(1) 2(1) 3(1) 4(1) 5(1))
  moreover have "known (load (kmem s) msg 736) \<longleftrightarrow> field32 (load (kmem s) msg 736) 8 \<in> {16, 1, 8, 4, 2}"
    by (auto simp: known_def)
  ultimately show ?thesis
    by (intro exI [of _ m5] exI [of _ c5] exI [of _ z5]) (use 5(2) in \<open>simp add: answered_def\<close>)
qed


text \<open>A channel with the messages that wait and the answers so far.\<close>

type_synonym queue = "u8 list list \<times> u8 list list"

definition queue_demo :: "(bool, (bool, queue) drv_state_scheme) kenv" where
  "queue_demo = demo_env\<lparr>
     take_msg := (\<lambda>_ s. case drv_state.more s of (w, g) \<Rightarrow>
       ((if w = [] then 0 else 1, if w = [] then [] else hd w), drv_state.more_update (\<lambda>_. (tl w, g)) s)),
     answer := (\<lambda>_ p s. case drv_state.more s of (w, g) \<Rightarrow> (1, drv_state.more_update (\<lambda>_. (w, g @ [load (kmem s) p 8])) s))\<rparr>"

definition queue_user :: "(bool, queue) drv_state_scheme user_env" where
  "queue_user = demo_user\<lparr>enter_kernel := new_nt_term_proc queue_demo demo_gate\<rparr>"

definition message :: "u32 \<Rightarrow> u8 list" where
  "message code = le32 0x20 @ le32 0x21 @ le32 code @ replicate 724 0"

definition queue_state :: "(bool, queue) drv_state_scheme" where
  "queue_state = drv_state.extend demo_state ([message 4, message 32, message 2], [])"

lemma queue_fields: "items queue_state = items demo_state" "dbg_item_list queue_state = dbg_item_list demo_state"
    "chans queue_state = chans demo_state" "sc_key queue_state = 0" "kmem queue_state = kmem demo_state"
    "drv_state.more queue_state = ([message 4, message 32, message 2], [])"
  by (simp_all add: queue_state_def drv_state.defs demo_state_def)

lemma message_known: "known (message code) \<longleftrightarrow> code \<in> {1, 2, 4, 8, 16}" "length (message code) = 736"
  by (simp_all add: message_def known_def insert_commute)


end
