(* ===== verification/Test_Main.thy ===== *)
theory Test_Main
  imports Test_Client Dbgapi_Start
begin

text \<open>
  All of \<open>main\<close> of the test debugger (\<open>src/kernel/test/test.cpp\<close>): it initialises the library with its symbol callback and goes on
  with \<open>main_loop\<close>. In the end it always sleeps for ever; an exception of the symbol parser is caught and
  printed before that.
\<close>

datatype client_end = Gave_Up | Sym_Error string

definition client_main :: "'z kstate_scheme user_env \<Rightarrow> 'r win_api \<Rightarrow> string \<Rightarrow> char \<Rightarrow> pdb_exn + pdb_parser \<Rightarrow> addr \<Rightarrow> addr
    \<Rightarrow> 'z kstate_scheme \<Rightarrow> 'r \<Rightarrow> (fault + client_end) option" where
  "client_main U W module_path past pdb filt msg s r =
     (case dbg_initialize_api U W module_path past 0x1234 pdb get_symbols_callback s r of
        None \<Rightarrow> None
      | Some (Inl (Pdb_Fault f)) \<Rightarrow> Some (Inl f)
      | Some (Inl (Pdb_Error e)) \<Rightarrow> Some (Inr (Sym_Error e))
      | Some (Inr (ok, key, s, r)) \<Rightarrow>
          if ok = 0 then Some (Inr Gave_Up)
          else (case dbg_drv_version U key s of
                  None \<Rightarrow> None
                | Some (Inl f) \<Rightarrow> Some (Inl f)
                | Some (Inr (ver, s)) \<Rightarrow>
                    (case main_loop U key filt msg s of
                       None \<Rightarrow> None
                     | Some (Inl f) \<Rightarrow> Some (Inl f)
                     | Some (Inr _) \<Rightarrow> Some (Inr Gave_Up))))"

text \<open>If the driver is there already, nothing is installed, and no symbols are needed.\<close>

lemma client_with_driver:
  assumes "dbg_drv_version U 0x1234 s = Some (Inr (v, s1))" and "v \<noteq> 0" and "dbg_drv_version U 0x1234 s1 = Some (Inr (v, s2))"
    and "main_loop U 0x1234 filt msg s2 = Some (Inr (u, s3))"
  shows "client_main U W module_path past pdb filt msg s r = Some (Inr Gave_Up)"
  using assms by (simp add: client_main_def dbg_initialize_api_def)

text \<open>If it is not, a symbol file that cannot be read ends the program before the driver is started.\<close>

lemma client_without_symbols:
  assumes "dbg_drv_version U 0x1234 s = Some (Inr (0, s1))" and "driver_path (path_buffer module_path) past = Inr path"
    and "dbg_install_sc W path driver_name r = (h, r')" and "h \<noteq> NULL"
  shows "client_main U W module_path past (Inl (Pdb_Error e)) filt msg s r = Some (Inr (Sym_Error e))"
  using assms by (simp add: client_main_def dbg_initialize_api_def dbg_build_start_params_def)

end
