(* ===== verification/Dbgapi_Thunks.thy ===== *)
theory Dbgapi_Thunks
  imports Dbgapi
begin

text \<open>
  The functions at the end of \<open>src/kernel/dbgapi/dbgapi.c\<close> that only hand their arguments to
  Win32, and those that stand for functions of the kernel tracer and do nothing: the debugger's
  interface has them, the library answers that it cannot.
\<close>

record 's file_api =
  open_file :: "string \<Rightarrow> addr \<Rightarrow> u32 \<Rightarrow> 's \<Rightarrow> handle \<times> 's"
  win_close_handle :: "handle \<Rightarrow> 's \<Rightarrow> bool \<times> 's"
  read_file :: "handle \<Rightarrow> addr \<Rightarrow> u32 \<Rightarrow> addr \<Rightarrow> addr \<Rightarrow> 's \<Rightarrow> bool \<times> 's"
  resume_thread :: "handle \<Rightarrow> 's \<Rightarrow> u32 \<times> 's"
  suspend_thread :: "handle \<Rightarrow> 's \<Rightarrow> u32 \<times> 's"

abbreviation (input) INVALID_HANDLE_VALUE :: u32 where "INVALID_HANDLE_VALUE \<equiv> 0xFFFFFFFF"

definition dbg_open_file :: "'s file_api \<Rightarrow> string \<Rightarrow> addr \<Rightarrow> u32 \<Rightarrow> 's \<Rightarrow> handle \<times> 's" where
  "dbg_open_file F file_name reopen_buff style = open_file F file_name reopen_buff style"

definition dbg_close_file :: "'s file_api \<Rightarrow> handle \<Rightarrow> 's \<Rightarrow> bool \<times> 's" where
  "dbg_close_file F h = win_close_handle F h"

definition dbg_read_file :: "'s file_api \<Rightarrow> handle \<Rightarrow> addr \<Rightarrow> u32 \<Rightarrow> addr \<Rightarrow> addr \<Rightarrow> 's \<Rightarrow> bool \<times> 's" where
  "dbg_read_file F h buffer to_read bytes_read overlapped = read_file F h buffer to_read bytes_read overlapped"

definition dbg_resume_thread :: "'s file_api \<Rightarrow> handle \<Rightarrow> 's \<Rightarrow> u32 \<times> 's" where
  "dbg_resume_thread F h = resume_thread F h"

definition dbg_suspend_thread :: "'s file_api \<Rightarrow> handle \<Rightarrow> 's \<Rightarrow> u32 \<times> 's" where
  "dbg_suspend_thread F h = suspend_thread F h"

definition dbg_set_rdtsc :: "addr \<Rightarrow> u8 \<Rightarrow> 's \<Rightarrow> u32 \<times> 's" where
  "dbg_set_rdtsc context_ptr rdtsc_on s = (- 1, s)"

definition dbg_close_thread :: "addr \<Rightarrow> 's \<Rightarrow> 's" where
  "dbg_close_thread dbg_thread s = s"

definition dbg_open_thread :: "addr \<Rightarrow> u32 \<Rightarrow> 's \<Rightarrow> addr \<times> 's" where
  "dbg_open_thread context_ptr thread_i s = (INVALID_HANDLE_VALUE, s)"

definition dbg_enum_processes :: "addr \<Rightarrow> 's \<Rightarrow> addr \<times> 's" where
  "dbg_enum_processes remote_id s = (INVALID_HANDLE_VALUE, s)"

definition dbg_enum_modules :: "addr \<Rightarrow> 's \<Rightarrow> addr \<times> 's" where
  "dbg_enum_modules context_ptr s = (INVALID_HANDLE_VALUE, s)"

definition dbg_enum_threads :: "addr \<Rightarrow> u32 \<Rightarrow> 's \<Rightarrow> addr \<times> 's" where
  "dbg_enum_threads remote_id process_i s = (INVALID_HANDLE_VALUE, s)"

definition dbg_free_memory :: "addr \<Rightarrow> 's \<Rightarrow> 's" where
  "dbg_free_memory memory s = s"

definition dbg_get_thread_ctx :: "addr \<Rightarrow> addr \<Rightarrow> 's \<Rightarrow> u32 \<times> 's" where
  "dbg_get_thread_ctx dbg_thread trd_context s = (- 1, s)"

definition dbg_detach_debugger :: "addr \<Rightarrow> 's \<Rightarrow> 's" where
  "dbg_detach_debugger context_ptr s = s"

definition dbg_hook_page :: "addr \<Rightarrow> addr \<Rightarrow> addr \<Rightarrow> 's \<Rightarrow> u32 \<times> 's" where
  "dbg_hook_page context_ptr page_addr code_page s = (- 1, s)"

end
