(* ===== verification/Ui_Column.thy ===== *)
theory Ui_Column
  imports Ops "HOL-Library.Signed_Division"
begin

text \<open>
  A column of the memory view, \<open>src/ui/src/memctrl/column.cpp\<close>: its text is drawn in rows of a fixed number of
  characters, from the row the view is scrolled to, and the mouse selects characters. Coordinates are
  integers; they stay far below the limits of \<open>int\<close>. Division is that of C. What the functions draw is
  a list of commands; pens and brushes are left out. The size of a character is never zero.
\<close>

section \<open>State\<close>

type_synonym point = "int \<times> int"

record column =
  c_name :: string
  x_start :: int
  y_start :: int
  x_end :: int
  x_delta :: int
  x_changed :: bool                  \<comment> \<open>not set by the constructor\<close>
  is_addr_col :: bool
  x_chars :: int
  y_chars :: int                     \<comment> \<open>not set before the first drawing\<close>
  x_margin :: int
  y_margin :: int
  font_w :: int
  font_h :: int
  x_caret :: int
  y_caret :: int
  scroll_cur :: int
  scroll_sz :: int
  coef_sel_ext :: int
  client :: point
  col_text :: string
  sel_point :: "point list"

text \<open>\<open>u\<close> is a column with what the memory of the object held before; \<open>fw\<close> and \<open>fh\<close> are the size of a character.\<close>

definition new_column :: "column \<Rightarrow> string \<Rightarrow> int \<Rightarrow> int \<Rightarrow> int \<Rightarrow> int \<Rightarrow> column" where
  "new_column u name start width fw fh =
     u\<lparr>c_name := name, x_start := start, y_start := 10, x_end := fw * width + 2 * 5 + start, x_delta := 0,
       is_addr_col := False, x_chars := width, x_margin := 5, y_margin := 5, font_w := fw, font_h := fh,
       x_caret := 1, y_caret := 1, scroll_cur := 0, scroll_sz := 0, coef_sel_ext := 0, col_text := [], sel_point := []\<rparr>"

definition set_start_pos :: "int \<Rightarrow> column \<Rightarrow> column" where
  "set_start_pos p c = c\<lparr>x_start := p, x_end := p + x_chars c * font_w c + 2 * x_margin c\<rparr>"

definition set_end_pos :: "int \<Rightarrow> column \<Rightarrow> column" where
  "set_end_pos p c = c\<lparr>x_delta := p - x_end c, x_end := p, x_changed := True\<rparr>"

definition set_text :: "string \<Rightarrow> column \<Rightarrow> column" where
  "set_text s c = c\<lparr>col_text := s\<rparr>"

definition set_scroll_cursor :: "int \<Rightarrow> column \<Rightarrow> column" where
  "set_scroll_cursor p c = c\<lparr>scroll_cur := p\<rparr>"

definition set_scroll_lines :: "int \<Rightarrow> column \<Rightarrow> column" where
  "set_scroll_lines n c = c\<lparr>scroll_sz := n\<rparr>"

definition set_caret_pos :: "point list \<Rightarrow> column \<Rightarrow> column" where
  "set_caret_pos ps c = c\<lparr>sel_point := ps\<rparr>"

definition set_caret_size :: "int \<Rightarrow> int \<Rightarrow> column \<Rightarrow> column" where
  "set_caret_size x y c = c\<lparr>x_caret := x, y_caret := y\<rparr>"

definition clear_selection :: "column \<Rightarrow> column" where
  "clear_selection c = c\<lparr>sel_point := []\<rparr>"

definition set_selection_ext :: "int \<Rightarrow> column \<Rightarrow> column" where
  "set_selection_ext k c = c\<lparr>coef_sel_ext := k\<rparr>"

definition init_addr_col :: "column \<Rightarrow> column" where
  "init_addr_col c = c\<lparr>is_addr_col := True\<rparr>"

section \<open>Coordinates\<close>

text \<open>Two of the four conversions compute a result and return their argument instead.\<close>

definition device_coords_to_graphical_chars :: "column \<Rightarrow> point \<Rightarrow> point" where
  "device_coords_to_graphical_chars c p = p"

definition graphical_char_to_device_coords :: "column \<Rightarrow> point \<Rightarrow> point" where
  "graphical_char_to_device_coords c p = (fst p * font_w c, (snd p - scroll_cur c) * font_h c)"

definition logical_coords_to_graphical_chars :: "column \<Rightarrow> point \<Rightarrow> point" where
  "logical_coords_to_graphical_chars c p = (fst p sdiv font_w c, snd p sdiv font_h c)"

definition graphical_char_to_logical_coords :: "column \<Rightarrow> point \<Rightarrow> point" where
  "graphical_char_to_logical_coords c p = p"

definition set_width :: "int \<Rightarrow> column \<Rightarrow> column" where
  "set_width n c = c\<lparr>x_chars := n,
     x_end := x_start c + fst (graphical_char_to_device_coords c (n, y_chars c)) + 2 * x_margin c\<rparr>"

section \<open>Drawing\<close>

datatype draw =
    Rect int int int int             \<comment> \<open>corner and size\<close>
  | Line int int int int
  | Text string int int

definition init_drawing :: "point \<Rightarrow> column \<Rightarrow> column" where
  "init_drawing sz c = c\<lparr>client := sz, y_chars := (snd sz - y_start c) sdiv font_h c\<rparr>"

text \<open>The position is converted to \<open>size_t\<close>: a negative one is beyond every text.\<close>

definition char_or_space :: "string \<Rightarrow> int \<Rightarrow> char" where
  "char_or_space s p = (if 0 \<le> p \<and> p < int (length s) then s ! nat p else CHR '' '')"

definition row_chars :: "column \<Rightarrow> int" where
  "row_chars c = (if is_addr_col c then 8 else x_chars c)"

definition text_row :: "column \<Rightarrow> int \<Rightarrow> string" where
  "text_row c y = map (\<lambda>x. char_or_space (col_text c) (x + row_chars c * (y + scroll_cur c))) [0..row_chars c - 1]"

definition draw_text_buffer :: "column \<Rightarrow> draw list" where
  "draw_text_buffer c =
     map (\<lambda>y. Text (text_row c y) (x_margin c + x_start c) (y_margin c + y_start c + font_h c * y)) [0..y_chars c - 1]"

definition draw_selection :: "column \<Rightarrow> draw list" where
  "draw_selection c = map (\<lambda>p. case graphical_char_to_device_coords c p of (x, y) \<Rightarrow>
     Rect (x_start c + x + x_margin c) (y + y_start c + y_margin c)
       (if coef_sel_ext c \<noteq> 0 then x_caret c * font_w c + font_w c else x_caret c * font_w c) (y_caret c * font_h c))
     (sel_point c)"

definition draw_caption :: "column \<Rightarrow> draw list" where
  "draw_caption c =
     [Rect (x_start c) 0 (x_end c - x_start c) (font_h c),
      Line (x_start c) 0 (x_end c) 0, Line (x_start c + 1) 0 (x_start c + 1) (font_h c),
      Line (x_start c) (font_h c) (x_end c) (font_h c), Line (x_end c - 1) 0 (x_end c - 1) (font_h c),
      Text (c_name c) (x_start c + x_margin c) 0]"

definition draw_one :: "column \<Rightarrow> draw list" where
  "draw_one c = (case graphical_char_to_device_coords c (0, y_chars c + y_margin c + scroll_cur c) of (_, y) \<Rightarrow>
     [Rect (x_start c) (y_start c) (fst (client c)) (y + y_margin c)]
     @ draw_selection c @ draw_caption c
     @ [Line (x_start c) 0 (x_start c) (snd (client c) + y + y_margin c),
        Line (x_end c) 0 (x_end c) (snd (client c) + y + y_margin c)]
     @ draw_text_buffer c)"

text \<open>A column draws the next one, which follows it when its end has been moved.\<close>

definition follow_prev :: "column \<Rightarrow> column \<Rightarrow> column" where
  "follow_prev c n =
     (if x_changed c then let n = set_start_pos (x_end c) n in set_end_pos (x_end n + x_delta c) n else n)"

fun draw_columns :: "point \<Rightarrow> column list \<Rightarrow> draw list \<times> column list" where
  "draw_columns sz [] = ([], [])"
| "draw_columns sz [c] = (let c = init_drawing sz c in (draw_one c, [c]))"
| "draw_columns sz (c # n # cs) =
     (let c = init_drawing sz c;
          (ds, cs) = draw_columns sz (follow_prev c n # cs)
      in (draw_one c @ ds, c\<lparr>x_changed := False\<rparr> # cs))"

text \<open>\<open>DrawAddr\<close>, which nothing calls: it prints the addresses in decimal.\<close>

fun decimal_text :: "nat \<Rightarrow> string" where
  "decimal_text n = (if n < 10 then [char_of (48 + n)] else decimal_text (n div 10) @ [char_of (48 + n mod 10)])"

declare decimal_text.simps [simp del]

definition int_text :: "u32 \<Rightarrow> string" where
  "int_text v = (if sint v < 0 then CHR ''-'' # decimal_text (nat (- sint v)) else decimal_text (unat v))"

fun draw_addr_rows :: "column \<Rightarrow> int list \<Rightarrow> u32 \<Rightarrow> draw list" where
  "draw_addr_rows c [] a = []"
| "draw_addr_rows c (y # ys) a =
     Text (int_text a) (x_margin c + x_start c) (y_margin c + font_h c * y) # draw_addr_rows c ys (a + 16)"

definition draw_addr :: "column \<Rightarrow> u32 \<Rightarrow> draw list" where
  "draw_addr c a = draw_addr_rows c [scroll_cur c - y_margin c .. y_chars c + scroll_cur c + y_margin c - 1] a"

section \<open>Selecting\<close>

definition char_at :: "int \<Rightarrow> int \<Rightarrow> (column, char) op" where
  "char_at x y c = (let p = x + x_chars c * y in
     if 0 \<le> p \<and> p < int (length (col_text c)) then Inr (col_text c ! nat p, c) else Inl Out_Of_Bounds)"

definition push :: "point \<Rightarrow> (column, unit) op" where
  "push p = doing (\<lambda>c. c\<lparr>sel_point := sel_point c @ [p]\<rparr>)"

definition front :: "(column, point) op" where
  "front c = (case sel_point c of [] \<Rightarrow> Inl Out_Of_Bounds | p # _ \<Rightarrow> Inr (p, c))"

definition select_hex_point :: "int \<Rightarrow> int \<Rightarrow> (column, point) op" where
  "select_hex_point x y c =
     (let v = y + scroll_cur c in
      and_then (char_at x v) (\<lambda>a.
      and_then (if a = CHR '' '' then push (x, v)
                else and_then (char_at (x + 1) v) (\<lambda>b.
                     if b \<noteq> CHR '' '' then each push [(x, v), (x + 1, v)] else each push [(x, v), (x - 1, v)])) (\<lambda>_.
      front)) c)"

definition select_hex_line :: "point \<Rightarrow> int \<Rightarrow> int \<Rightarrow> (column, unit) op" where
  "select_hex_line start x y c =
     (let v = y + scroll_cur c in
      if fst start < x
      then and_then (char_at x v) (\<lambda>a.
             if a \<noteq> CHR '' '' then each push [(x, v), (x + 1, v)] else each push [(x, v), (x + 1, v), (x + 2, v)]) c
      else if x < fst start
      then and_then (char_at x v) (\<lambda>a.
             if a \<noteq> CHR '' '' then each push [(x, v), (x - 1, v)] else each push [(x, v), (x - 1, v), (x - 2, v)]) c
      else ret () c)"

text \<open>The two loops, with \<open>n\<close> characters in a row; \<open>u\<close> is \<open>xSel\<close>.\<close>

function hex_forward :: "int \<Rightarrow> int \<Rightarrow> int \<Rightarrow> int \<Rightarrow> (column, unit) op" where
  "hex_forward n p p_end u =
     (if p \<le> p_end
      then let v = (p - u) sdiv n in
           and_then (char_at u v) (\<lambda>a.
           and_then (if a \<noteq> CHR '' '' then each push [(u, v), (u + 1, v)] else each push [(u, v), (u + 1, v), (u + 2, v)]) (\<lambda>_.
           hex_forward n (p + 1) p_end ((u + 1) smod n)))
      else ret ())"
  by pat_completeness auto
termination by (relation "measure (\<lambda>(n, p, p_end, u). nat (p_end + 1 - p))") auto

function hex_backward :: "int \<Rightarrow> int \<Rightarrow> int \<Rightarrow> int \<Rightarrow> (column, unit) op" where
  "hex_backward n p p_end u =
     (if p_end \<le> p
      then let v = (p - u) sdiv n in
           and_then (char_at u v) (\<lambda>a.
           and_then (if a \<noteq> CHR '' '' then each push [(u + 1, v), (u, v), (u - 1, v)] else each push [(u, v), (u - 1, v), (u - 2, v)]) (\<lambda>_.
           hex_backward n (p - 1) p_end ((if u = 0 then n else u) - 1)))
      else ret ())"
  by pat_completeness auto
termination by (relation "measure (\<lambda>(n, p, p_end, u). nat (p + 1 - p_end))") auto

function dump_forward :: "int \<Rightarrow> int \<Rightarrow> int \<Rightarrow> int \<Rightarrow> (column, unit) op" where
  "dump_forward n p p_end u =
     (if p \<le> p_end
      then and_then (push (u, (p - u) sdiv n)) (\<lambda>_. dump_forward n (p + 1) p_end ((u + 1) smod n))
      else ret ())"
  by pat_completeness auto
termination by (relation "measure (\<lambda>(n, p, p_end, u). nat (p_end + 1 - p))") auto

function dump_backward :: "int \<Rightarrow> int \<Rightarrow> int \<Rightarrow> int \<Rightarrow> (column, unit) op" where
  "dump_backward n p p_end u =
     (if p_end \<le> p
      then and_then (push (u, (p - u) sdiv n)) (\<lambda>_. dump_backward n (p - 1) p_end ((if u = 0 then n else u) - 1))
      else ret ())"
  by pat_completeness auto
termination by (relation "measure (\<lambda>(n, p, p_end, u). nat (p + 1 - p_end))") auto

declare hex_forward.simps [simp del] hex_backward.simps [simp del] dump_forward.simps [simp del] dump_backward.simps [simp del]

definition select_hex_lines :: "point \<Rightarrow> int \<Rightarrow> int \<Rightarrow> int \<Rightarrow> int \<Rightarrow> (column, unit) op" where
  "select_hex_lines start p p_end x y c =
     (if snd start < y + scroll_cur c
      then and_then (doing clear_selection) (\<lambda>_. hex_forward (x_chars c) p p_end (fst start)) c
      else if y + scroll_cur c < snd start
      then and_then (doing clear_selection) (\<lambda>_. hex_backward (x_chars c) p p_end (fst start)) c
      else ret () c)"

definition select_dump_point :: "int \<Rightarrow> int \<Rightarrow> (column, point) op" where
  "select_dump_point x y c = and_then (push (x, y + scroll_cur c)) (\<lambda>_. front) c"

definition select_dump_lines :: "point \<Rightarrow> int \<Rightarrow> int \<Rightarrow> int \<Rightarrow> int \<Rightarrow> (column, unit) op" where
  "select_dump_lines start p p_end x y c =
     (if snd start < y + scroll_cur c
      then and_then (doing clear_selection) (\<lambda>_. dump_forward (x_chars c) p p_end (fst start)) c
      else if y + scroll_cur c < snd start
      then and_then (doing clear_selection) (\<lambda>_. dump_backward (x_chars c) p p_end (fst start)) c
      else ret () c)"

section \<open>The mouse\<close>

definition hits :: "column \<Rightarrow> point \<Rightarrow> int \<Rightarrow> int \<Rightarrow> bool" where
  "hits c pt x y =
     (let px = x * font_w c + x_start c + x_margin c; py = y * font_h c + y_margin c in
      py \<le> snd pt \<and> snd pt \<le> py + font_h c \<and> px \<le> fst pt \<and> fst pt \<le> px + font_w c)"

definition mouse_select :: "int \<Rightarrow> int \<Rightarrow> (column, unit) op" where
  "mouse_select x y c =
     (let v = y + scroll_cur c; n = x_chars c; p_end = x + n * v in
      if c_name c = ''Hex dump''
      then and_then (select_hex_point x v) (\<lambda>start.
           and_then (select_hex_line start x y) (\<lambda>_.
           select_hex_lines start (fst start + n * snd start) p_end x y)) c
      else and_then (select_dump_point x v) (\<lambda>start.
           select_dump_lines start (fst start + n * snd start) p_end x y) c)"

text \<open>For every character of a row the first row that is hit; the search goes on with the next character.\<close>

definition mouse_column :: "point \<Rightarrow> int \<Rightarrow> (column, unit) op" where
  "mouse_column pt x c =
     (case List.find (hits c pt x) [0..y_chars c] of None \<Rightarrow> ret () c | Some y \<Rightarrow> mouse_select x y c)"

definition set_mouse_pos :: "point \<Rightarrow> (column, unit) op" where
  "set_mouse_pos pt c = each (mouse_column pt) [0..x_chars c - 1] c"

end
