(* ===== verification/Ui_Text.thy ===== *)
theory Ui_Text
  imports Prelude
begin

text \<open>
  Numbers as text in the graphical debugger: \<open>htodw\<close> of \<open>src/ui/src/utils.cpp\<close>, which reads hexadecimal
  digits, and the formats \<open>%X\<close>, \<open>%.8X\<close> and \<open>%.2X\<close> of the C library. Characters are bytes: it is the build
  in which \<open>wxChar\<close> is \<open>char\<close>.
\<close>

section \<open>Printing\<close>

definition hex_digit :: "nat \<Rightarrow> char" where
  "hex_digit d = char_of (if d < 10 then 48 + d else 55 + d)"

text \<open>\<open>%X\<close>, and \<open>%.pX\<close> with a precision: at least \<open>p\<close> digits.\<close>

fun hex_text :: "nat \<Rightarrow> string" where
  "hex_text n = (if n < 16 then [hex_digit n] else hex_text (n div 16) @ [hex_digit (n mod 16)])"

declare hex_text.simps [simp del]

definition hex_padded :: "nat \<Rightarrow> nat \<Rightarrow> string" where
  "hex_padded p n = replicate (p - length (hex_text n)) (CHR ''0'') @ hex_text n"

section \<open>Reading\<close>

text \<open>
  The loop of \<open>htodw\<close> with \<open>edx\<close>; \<open>al\<close> is the character. A jump is taken on the sign of the byte. The end
  of the list is the terminating zero, below \<open>'0'\<close> like every character that ends the loop.
\<close>

definition htodw_digit :: "u8 \<Rightarrow> u8" where
  "htodw_digit al =
     (if al \<le> 9 then al
      else let al = al - 0x27 in if \<not> bit al 7 then al else al + 0x20)"

fun htodw_loop :: "u32 \<Rightarrow> string \<Rightarrow> u32" where
  "htodw_loop edx [] = edx"
| "htodw_loop edx (c # cs) =
     (let al = of_char c - 0x30 in
      if bit al 7 then edx
      else htodw_loop (push_bit 4 edx XOR ucast (htodw_digit al)) cs)"

definition htodw :: "string \<Rightarrow> u32" where
  "htodw s = htodw_loop 0 s"

section \<open>Digits\<close>

definition lower_digit :: "nat \<Rightarrow> char" where
  "lower_digit d = char_of (if d < 10 then 48 + d else 87 + d)"

text \<open>The character is a digit with the value, in either case.\<close>

definition digit_char :: "char \<Rightarrow> nat \<Rightarrow> bool" where
  "digit_char c d \<longleftrightarrow> d < 16 \<and> (c = hex_digit d \<or> c = lower_digit d)"

lemma push_xor_digit: "d < 16 \<Longrightarrow> push_bit 4 v XOR word_of_nat d = 16 * v + (word_of_nat d :: u32)"
proof -
  assume d: "d < 16"
  have "push_bit 4 v AND word_of_nat d = (0 :: u32)"
  proof (rule bit_word_eqI)
    fix n assume "n < LENGTH(32)"
    have "\<not> bit d n" if "4 \<le> n"
    proof -
      have "take_bit 4 d = d" using d by (simp add: take_bit_nat_eq_self)
      then show ?thesis using that by (metis bit_take_bit_iff not_le)
    qed
    then show "bit (push_bit 4 v AND word_of_nat d) n = bit (0 :: u32) n"
      by (auto simp: bit_simps)
  qed
  then have "push_bit 4 v XOR word_of_nat d = push_bit 4 v + (word_of_nat d :: u32)"
    by (simp add: disjunctive_xor_eq_or disjunctive_add_eq_or)
  then show ?thesis by (simp add: push_bit_eq_mult mult.commute)
qed

lemma digit_read:
  assumes "digit_char c d"
  shows "\<not> bit (of_char c - 0x30 :: u8) 7" and "ucast (htodw_digit (of_char c - 0x30)) = (word_of_nat d :: u32)"
proof -
  have d: "d \<in> set [0..<16]" using assms by (simp add: digit_char_def)
  have c: "c = hex_digit d \<or> c = lower_digit d" using assms by (simp add: digit_char_def)
  have all: "\<forall>d \<in> set [0..<16]. \<forall>c \<in> set [hex_digit d, lower_digit d].
      \<not> bit (of_char c - 0x30 :: u8) 7 \<and> ucast (htodw_digit (of_char c - 0x30)) = (word_of_nat d :: u32)"
    by code_simp
  then show "\<not> bit (of_char c - 0x30 :: u8) 7" "ucast (htodw_digit (of_char c - 0x30)) = (word_of_nat d :: u32)"
    using d c by (auto simp del: set_upt)
qed

section \<open>Reading what was printed\<close>

text \<open>The value of digits, most significant first.\<close>

definition digits_value :: "nat list \<Rightarrow> nat" where
  "digits_value ds = foldl (\<lambda>v d. 16 * v + d) 0 ds"

definition ends_number :: "string \<Rightarrow> bool" where
  "ends_number s \<longleftrightarrow> s = [] \<or> bit (of_char (hd s) - 0x30 :: u8) 7"

lemma htodw_loop_stops: "ends_number s \<Longrightarrow> htodw_loop v s = v"
  by (cases s) (auto simp: ends_number_def)

lemma htodw_loop_digits:
  assumes "list_all2 digit_char cs ds" and "ends_number rest"
  shows "htodw_loop (word_of_nat v) (cs @ rest) = word_of_nat (foldl (\<lambda>v d. 16 * v + d) v ds)"
  using assms(1)
proof (induction cs ds arbitrary: v rule: list_all2_induct)
  case Nil
  show ?case using htodw_loop_stops [OF assms(2)] by simp
next
  case (Cons c cs d ds)
  have "push_bit 4 (word_of_nat v) XOR word_of_nat d = (word_of_nat (16 * v + d) :: u32)"
    using push_xor_digit [of d "word_of_nat v"] Cons.hyps(1) by (simp add: digit_char_def)
  then show ?case using Cons.IH [of "16 * v + d"] digit_read [OF Cons.hyps(1)] by (simp add: Let_def)
qed

fun hex_digits :: "nat \<Rightarrow> nat list" where
  "hex_digits n = (if n < 16 then [n] else hex_digits (n div 16) @ [n mod 16])"

declare hex_digits.simps [simp del]

lemma hex_text_digits: "hex_text n = map hex_digit (hex_digits n)"
  by (induction n rule: hex_text.induct) (simp add: hex_text.simps hex_digits.simps)

lemma hex_digits_value: "foldl (\<lambda>v d. 16 * v + d) 0 (hex_digits n) = n" "\<forall>d \<in> set (hex_digits n). d < 16"
proof (induction n rule: hex_digits.induct)
  case (1 n)
  show "foldl (\<lambda>v d. 16 * v + d) 0 (hex_digits n) = n" "\<forall>d \<in> set (hex_digits n). d < 16"
    using 1 by (subst hex_digits.simps; auto)+
qed

lemma length_hex_text: "n < 16 ^ Suc p \<Longrightarrow> length (hex_text n) \<le> Suc p"
proof (induction p arbitrary: n)
  case (Suc p)
  show ?case
  proof (cases "n < 16")
    case False
    have "n div 16 < 16 ^ Suc p" using Suc.prems by (simp add: less_mult_imp_div_less)
    from Suc.IH [OF this] False show ?thesis by (subst hex_text.simps) simp
  qed (simp add: hex_text.simps)
qed (simp add: hex_text.simps)

lemma hex_padded_read:
  assumes "ends_number rest"
  shows "htodw (hex_padded p n @ rest) = word_of_nat n"
proof -
  let ?k = "p - length (hex_text n)"
  let ?ds = "replicate ?k 0 @ hex_digits n"
  have zero: "hex_digit 0 = CHR ''0''" by code_simp
  have "list_all2 digit_char (map hex_digit ?ds) ?ds"
    unfolding list_all2_map1 list_all2_same using hex_digits_value(2) [of n] by (auto simp: digit_char_def)
  note read = htodw_loop_digits [OF this assms, of 0]
  have m: "map hex_digit ?ds = hex_padded p n" by (simp add: hex_padded_def hex_text_digits zero)
  have "foldl (\<lambda>v d. 16 * v + d) 0 (replicate k 0) = (0 :: nat)" for k by (induction k) auto
  then have v: "foldl (\<lambda>v d. 16 * v + d) 0 ?ds = n" using hex_digits_value(1) [of n] by simp
  show ?thesis using read unfolding m v htodw_def by simp
qed

end
