(* ===== verification/Ui_Memory.thy ===== *)
theory Ui_Memory
  imports Ui_Column Ui_Text
begin

text \<open>
  The memory view of the graphical debugger, \<open>src/ui/src/memctrl/memctrl.cpp\<close>: three columns with the addresses,
  the bytes as digits and the bytes as characters, scrolled together; and the windows that fill it from
  the memory of the target, \<open>memframe.cpp\<close> and \<open>stackframe.cpp\<close>. The widget library calls the handlers; what they
  tell it (cursors, refreshes, scroll bars) is left out.
\<close>

section \<open>State\<close>

record list_text_ctrl =
  list_font_w :: int
  list_font_h :: int
  list_x_chars :: int
  list_y_chars :: int
  scroll_lines :: int
  list_scroll :: int
  start_addr :: u32
  sz_addr :: u32
  addr_col :: column
  hex_col :: column
  dump_col :: column
  is_addr_down :: bool
  is_hex_down :: bool
  is_dump_down :: bool
  is_hex_sel :: bool
  is_dump_sel :: bool

abbreviation (input) list_margin :: int where "list_margin \<equiv> 5"
abbreviation (input) COLUMN_LINE_DELTA :: int where "COLUMN_LINE_DELTA \<equiv> 3"

text \<open>The constructor and \<open>Init\<close>. \<open>u\<close> holds what the memory of the object held before.\<close>

definition new_list_text_ctrl :: "list_text_ctrl \<Rightarrow> int \<Rightarrow> int \<Rightarrow> list_text_ctrl" where
  "new_list_text_ctrl u fw fh =
     (let a = new_column (addr_col u) ''Address'' 0 10 fw fh;
          h = new_column (hex_col u) ''Hex dump'' (x_end a) 10 fw fh;
          d = new_column (dump_col u) ''ASCII'' (x_end h) 10 fw fh
      in u\<lparr>list_font_w := fw, list_font_h := fh, list_x_chars := 0, list_y_chars := 0, scroll_lines := 0, list_scroll := 0,
           addr_col := a, hex_col := set_caret_size 1 1 h, dump_col := set_width 16 d,
           is_addr_down := False, is_hex_down := False, is_dump_down := False, is_hex_sel := False, is_dump_sel := False\<rparr>)"

definition update_window_size :: "point \<Rightarrow> list_text_ctrl \<Rightarrow> list_text_ctrl" where
  "update_window_size sz l =
     (let xc = (fst sz - 2 * list_margin) sdiv list_font_w l;
          yc = (snd sz - 2 * list_margin) sdiv list_font_h l
      in l\<lparr>list_x_chars := if xc = 0 then 1 else xc, list_y_chars := if yc = 0 then 1 else yc\<rparr>)"

definition on_size :: "point \<Rightarrow> list_text_ctrl \<Rightarrow> list_text_ctrl" where
  "on_size sz l = update_window_size sz l"

section \<open>Scrolling\<close>

definition set_scroll_columns :: "int \<Rightarrow> list_text_ctrl \<Rightarrow> list_text_ctrl" where
  "set_scroll_columns p l = l\<lparr>addr_col := set_scroll_cursor p (addr_col l),
     hex_col := set_scroll_cursor p (hex_col l), dump_col := set_scroll_cursor p (dump_col l)\<rparr>"

datatype scroll_event = Thumb_Track int | Thumb_Release int | Line_Up | Line_Down | Other_Scroll

definition on_scroll :: "point \<Rightarrow> bool \<Rightarrow> scroll_event \<Rightarrow> list_text_ctrl \<Rightarrow> list_text_ctrl" where
  "on_scroll sz vertical e l =
     (let cur = list_scroll l;
          cur' = (if vertical then (case e of
                      Thumb_Track p \<Rightarrow> p
                    | Thumb_Release p \<Rightarrow> p
                    | Line_Up \<Rightarrow> if 1 \<le> cur then cur - 1 else cur
                    | Line_Down \<Rightarrow> if cur \<le> scroll_lines l - list_y_chars l then cur + 1 else cur
                    | Other_Scroll \<Rightarrow> cur) else cur);
          l = update_window_size sz (l\<lparr>list_scroll := cur'\<rparr>)
      in set_scroll_columns (list_scroll l) l)"

datatype key = Page_Up | Page_Down | Up | Down | Home | End | Other_Key

definition scroll_to :: "int \<Rightarrow> list_text_ctrl \<Rightarrow> list_text_ctrl" where
  "scroll_to p l = set_scroll_columns p (l\<lparr>list_scroll := p\<rparr>)"

definition on_char :: "key \<Rightarrow> list_text_ctrl \<Rightarrow> list_text_ctrl" where
  "on_char k l =
     (let cur = list_scroll l;
          up = (if 1 \<le> cur then scroll_to (cur - 1) l else l);
          down = (if cur \<le> scroll_lines l - list_y_chars l then scroll_to (cur + 1) l else l)
      in case k of
           Page_Up \<Rightarrow> up | Page_Down \<Rightarrow> down | Up \<Rightarrow> up | Down \<Rightarrow> down
         | Home \<Rightarrow> scroll_to 0 l
         | End \<Rightarrow> scroll_to (scroll_lines l - list_y_chars l) l
         | Other_Key \<Rightarrow> l)"

definition on_paint :: "point \<Rightarrow> point \<Rightarrow> list_text_ctrl \<Rightarrow> draw list \<times> list_text_ctrl" where
  "on_paint sz dc_size l =
     (let l = update_window_size sz l in
      case draw_columns dc_size [addr_col l, hex_col l, dump_col l] of
        (ds, [a, h, d]) \<Rightarrow> (ds, l\<lparr>addr_col := a, hex_col := h, dump_col := d\<rparr>)
      | (ds, _) \<Rightarrow> (ds, l))"

section \<open>The mouse\<close>

text \<open>A selection in the one column is shown in the other.\<close>

definition hex_points :: "point list \<Rightarrow> point list" where
  "hex_points ps = concat (map (\<lambda>(x, y). [(x * 3, y), (x * 3 + 1, y), (x * 3 + 2, y)]) ps)"

definition set_hex_selection :: "point \<Rightarrow> (list_text_ctrl, unit) op" where
  "set_hex_selection pt l =
     (case set_mouse_pos pt (dump_col l) of
        Inl e \<Rightarrow> Inl e
      | Inr (_, d) \<Rightarrow> Inr ((), l\<lparr>dump_col := d, hex_col := set_caret_pos (hex_points (sel_point d)) (hex_col l)\<rparr>))"

definition set_dump_selection :: "point \<Rightarrow> (list_text_ctrl, unit) op" where
  "set_dump_selection pt l =
     (case set_mouse_pos pt (hex_col l) of
        Inl e \<Rightarrow> Inl e
      | Inr (_, h) \<Rightarrow> Inr ((), l\<lparr>hex_col := h,
          dump_col := set_caret_pos (map (\<lambda>(x, y). (x sdiv 3, y)) (sel_point h)) (dump_col l)\<rparr>))"

definition near :: "int \<Rightarrow> int \<Rightarrow> bool" where
  "near e x \<longleftrightarrow> e - COLUMN_LINE_DELTA \<le> x \<and> x \<le> e + COLUMN_LINE_DELTA"

definition clear_selections :: "list_text_ctrl \<Rightarrow> list_text_ctrl" where
  "clear_selections l = l\<lparr>hex_col := clear_selection (hex_col l), dump_col := clear_selection (dump_col l)\<rparr>"

definition on_mouse_ldown :: "point \<Rightarrow> (list_text_ctrl, unit) op" where
  "on_mouse_ldown pt l =
     (let l = clear_selections l;
          xa = x_end (addr_col l); xh = x_end (hex_col l); xd = x_end (dump_col l);
          l = (if near xa (fst pt) then l\<lparr>is_addr_down := True\<rparr>
               else if near xh (fst pt) then l\<lparr>is_hex_down := True\<rparr>
               else if near xd (fst pt) then l\<lparr>is_dump_down := True\<rparr> else l)
      in if xh < fst pt then set_hex_selection pt (l\<lparr>is_dump_sel := True\<rparr>)
         else if xa \<le> fst pt \<and> fst pt \<le> xh then set_dump_selection pt (l\<lparr>is_hex_sel := True\<rparr>)
         else Inr ((), l))"

definition on_mouse_lup :: "list_text_ctrl \<Rightarrow> list_text_ctrl" where
  "on_mouse_lup l = l\<lparr>is_addr_down := False, is_hex_down := False, is_dump_down := False, is_dump_sel := False\<rparr>"

definition on_mouse_rdown :: "list_text_ctrl \<Rightarrow> list_text_ctrl" where
  "on_mouse_rdown l = clear_selections l"

definition drag_line :: "int \<Rightarrow> int \<Rightarrow> list_text_ctrl \<Rightarrow> list_text_ctrl" where
  "drag_line width x l =
     (if is_addr_down l
      then (if x < width then l\<lparr>addr_col := set_end_pos x (addr_col l)\<rparr> else l)
      else if is_hex_down l
      then (if x < width then l\<lparr>hex_col := set_end_pos x (hex_col l)\<rparr> else l)
      else if is_dump_down l
      then (if x < width then l\<lparr>dump_col := set_end_pos x (dump_col l)\<rparr> else l)
      else l)"

definition on_mouse_move :: "int \<Rightarrow> point \<Rightarrow> bool \<Rightarrow> (list_text_ctrl, unit) op" where
  "on_mouse_move width pt left_down l =
     (if left_down
      then and_then (doing (drag_line width (fst pt))) (\<lambda>_ l.
           and_then (if is_dump_sel l then set_hex_selection pt else ret ()) (\<lambda>_ l.
           (if is_hex_sel l then set_dump_selection pt else ret ()) l) l) l
      else Inr ((), l))"

section \<open>The contents\<close>

text \<open>\<open>%.2X\<close> of each character and a space.\<close>

definition hex_str :: "string \<Rightarrow> string" where
  "hex_str s = concat (map (\<lambda>c. hex_padded 2 (of_char c) @ '' '') s)"

definition set_dump_value :: "string \<Rightarrow> list_text_ctrl \<Rightarrow> list_text_ctrl" where
  "set_dump_value s l =
     (let d = set_text s (dump_col l);
          h = set_text (hex_str s) (set_width (x_chars d * 2 + 16) (hex_col l));
          d = set_start_pos (x_end h) d;
          n = int (length s) sdiv x_chars d
      in l\<lparr>scroll_lines := n, hex_col := set_scroll_lines n h, dump_col := set_scroll_lines n d\<rparr>)"

text \<open>The loop goes up in steps of 16 while below the size: \<open>n\<close> is the number of rows still to come.\<close>

fun addr_text :: "u32 \<Rightarrow> nat \<Rightarrow> string" where
  "addr_text a 0 = []"
| "addr_text a (Suc n) = hex_padded 8 (unat a) @ addr_text (a + 16) n"

definition set_addr_value :: "u32 \<Rightarrow> u32 \<Rightarrow> list_text_ctrl \<Rightarrow> list_text_ctrl" where
  "set_addr_value start sz l = l\<lparr>start_addr := start, sz_addr := sz,
     addr_col := init_addr_col (set_text (addr_text start ((unat sz + 15) div 16)) (addr_col l))\<rparr>"

text \<open>What a byte of memory is shown as.\<close>

definition shown_char :: "u8 \<Rightarrow> char" where
  "shown_char b = (if b \<noteq> 173 \<and> (31 < b \<and> b < 127 \<or> 159 < b) then char_of (unat b) else CHR ''.'')"

text \<open>
  The loop of \<open>OutputMemory\<close>: \<open>left\<close> is \<open>pktSize\<close>, the bytes still to come, in steps of at most 16, and \<open>bs\<close> the rest of the
  buffer.
\<close>

function output_loop :: "nat \<Rightarrow> u8 list \<Rightarrow> string" where
  "output_loop left bs =
     (if left = 0 then []
      else let align = (if left < 16 then left else 16)
           in map shown_char (take align bs) @ output_loop (left - align) (drop align bs))"
  by pat_completeness auto
termination by (relation "measure fst") (auto simp: Let_def)

declare output_loop.simps [simp del]

lemma output_loop_map: "output_loop n bs = map shown_char (take n bs)"
proof (induction n bs rule: output_loop.induct)
  case (1 n bs)
  show ?case
  proof (cases "n < 16")
    case True
    then show ?thesis using 1 by (subst output_loop.simps) (auto simp: Let_def)
  next
    case False
    then have "take n bs = take 16 bs @ take (n - 16) (drop 16 bs)"
      using take_add [of 16 "n - 16" bs] by simp
    then show ?thesis using 1 False by (subst output_loop.simps) (simp add: Let_def)
  qed
qed

text \<open>\<open>OutputMemory\<close> of \<open>memframe.cpp\<close>; \<open>read\<close> is \<open>trc_read_memory\<close>, which fills the buffer.\<close>

definition output_memory :: "(addr \<Rightarrow> nat \<Rightarrow> u8 list) \<Rightarrow> addr \<Rightarrow> list_text_ctrl \<Rightarrow> list_text_ctrl" where
  "output_memory read mem_addr l =
     set_dump_value (output_loop 1024 (read mem_addr 1024)) (set_addr_value mem_addr 1024 l)"

text \<open>The window of the stack shows the bytes below the frame pointer.\<close>

definition output_stack :: "(addr \<Rightarrow> nat \<Rightarrow> u8 list) \<Rightarrow> addr \<Rightarrow> list_text_ctrl \<Rightarrow> list_text_ctrl" where
  "output_stack read ebp l =
     (let a = ebp - 1024 in set_dump_value (output_loop 1024 (read a 1024)) (set_addr_value a 1024 l))"

end
