(* ===== verification/Ui_Memory_Facts.thy ===== *)
theory Ui_Memory_Facts
  imports Ui_Memory
begin

text \<open>
  What the handlers of the memory view leave alone, and what a click selects.
\<close>

section \<open>Selecting changes the selection only\<close>

definition selects :: "(column, 'a) op \<Rightarrow> bool" where
  "selects f \<longleftrightarrow> (\<forall>c v c'. f c = Inr (v, c') \<longrightarrow> c' = c\<lparr>sel_point := sel_point c'\<rparr>)"

named_theorems selects_rules \<open>operations that change the selection only\<close>

lemma sel_point_same [simp]: "c\<lparr>sel_point := sel_point c\<rparr> = c"
  by (cases c) simp

lemma selectsI: "(\<And>c v c'. f c = Inr (v, c') \<Longrightarrow> c' = c\<lparr>sel_point := sel_point c'\<rparr>) \<Longrightarrow> selects f"
  by (simp add: selects_def)

lemma selectsD: "selects f \<Longrightarrow> f c = Inr (v, c') \<Longrightarrow> c' = c\<lparr>sel_point := sel_point c'\<rparr>"
  by (simp add: selects_def)

lemma selects_ret [selects_rules]: "selects (ret v)"
  by (rule selectsI) simp

lemma selects_then [selects_rules]:
  assumes "selects f" and "\<And>v. selects (g v)"
  shows "selects (and_then f g)"
proof (rule selectsI)
  fix c w c''
  assume "and_then f g c = Inr (w, c'')"
  then obtain v c' where f: "f c = Inr (v, c')" and g: "g v c' = Inr (w, c'')" by (rule and_thenE)
  obtain ps where "c' = c\<lparr>sel_point := ps\<rparr>" using selectsD [OF assms(1) f] by blast
  then show "c'' = c\<lparr>sel_point := sel_point c''\<rparr>" using selectsD [OF assms(2) g] by simp
qed

lemma selects_if [selects_rules]: "selects f \<Longrightarrow> selects g \<Longrightarrow> selects (if b then f else g)"
  by simp

lemma selects_each [selects_rules]: "(\<And>x. selects (f x)) \<Longrightarrow> selects (each f xs)"
  by (induction xs) (simp_all add: selects_rules)

text \<open>The same for one state, for operations that look at the state first.\<close>

definition selects_at :: "column \<Rightarrow> fault + 'a \<times> column \<Rightarrow> bool" where
  "selects_at c r \<longleftrightarrow> (\<forall>v c'. r = Inr (v, c') \<longrightarrow> c' = c\<lparr>sel_point := sel_point c'\<rparr>)"

lemma selects_pointwise: "(\<And>c. selects_at c (f c)) \<Longrightarrow> selects f"
  by (simp add: selects_def selects_at_def)

lemma selects_at: "selects f \<Longrightarrow> selects_at c (f c)"
  by (simp add: selects_def selects_at_def)

lemma selects_at_then: "selects f \<Longrightarrow> (\<And>v. selects (g v)) \<Longrightarrow> selects_at c (and_then f g c)"
  by (rule selects_at [OF selects_then])

lemma selects_at_ret: "selects_at c (ret v c)"
  by (simp add: selects_at_def)

lemma selects_at_each: "(\<And>x. selects (f x)) \<Longrightarrow> selects_at c (each f xs c)"
  by (rule selects_at [OF selects_each])

lemmas selects_at_rules = selects_at_then selects_at_ret selects_at_each

lemma selects_push [selects_rules]: "selects (push p)"
  by (rule selectsI) (auto simp: push_def)

lemma selects_clear [selects_rules]: "selects (doing clear_selection)"
  by (rule selectsI) (auto simp: clear_selection_def)

lemma selects_front [selects_rules]: "selects front"
  by (rule selectsI) (auto simp: front_def split: list.splits)

lemma selects_char_at [selects_rules]: "selects (char_at x y)"
  by (rule selectsI) (auto simp: char_at_def Let_def split: if_splits)

lemma selects_loops [selects_rules]:
  "selects (hex_forward n p q u)" "selects (hex_backward n p q u)"
  "selects (dump_forward n p q u)" "selects (dump_backward n p q u)"
proof -
  show "selects (hex_forward n p q u)"
    by (induction n p q u rule: hex_forward.induct) (subst hex_forward.simps, simp add: Let_def selects_rules)
  show "selects (hex_backward n p q u)"
    by (induction n p q u rule: hex_backward.induct) (subst hex_backward.simps, simp add: Let_def selects_rules)
  show "selects (dump_forward n p q u)"
    by (induction n p q u rule: dump_forward.induct) (subst dump_forward.simps, simp add: Let_def selects_rules)
  show "selects (dump_backward n p q u)"
    by (induction n p q u rule: dump_backward.induct) (subst dump_backward.simps, simp add: Let_def selects_rules)
qed

lemma selects_parts [selects_rules]:
  "selects (select_hex_lines st p q x y)" "selects (select_dump_lines st p q x y)" "selects (select_hex_point x y)"
  "selects (select_hex_line st x y)" "selects (select_dump_point x y)"
  by (rule selects_pointwise;
      simp add: select_hex_lines_def select_dump_lines_def select_hex_point_def select_hex_line_def select_dump_point_def
        Let_def selects_at_rules selects_rules del: op_simps and_then_simps)+

lemma selects_mouse_select: "selects (mouse_select x y)"
  by (rule selects_pointwise) (simp add: mouse_select_def Let_def selects_at_rules selects_rules del: op_simps and_then_simps)

lemma selects_set_mouse_pos: "selects (set_mouse_pos pt)"
proof -
  have "selects (mouse_column pt x)" for x
    using selects_mouse_select unfolding selects_def mouse_column_def by (auto split: option.splits)
  then show ?thesis
    by (intro selects_pointwise) (simp add: set_mouse_pos_def selects_at_each)
qed

lemma set_mouse_posE:
  assumes "set_mouse_pos pt c = Inr (v, c')"
  obtains ps where "c' = c\<lparr>sel_point := ps\<rparr>"
  using selectsD [OF selects_set_mouse_pos assms] by blast

section \<open>A click\<close>

lemma sdiv_nonneg: "0 \<le> a \<Longrightarrow> 0 < b \<Longrightarrow> a sdiv b = a div b" for a b :: int
  by (cases "a = 0") (simp_all add: signed_divide_int_def)

text \<open>The cells from one position in the text to another, going backwards.\<close>

definition cells_back :: "int \<Rightarrow> int \<Rightarrow> int \<Rightarrow> point list" where
  "cells_back n p q = map (\<lambda>p. (p mod n, p div n)) (rev [q..p])"

lemma dump_backward_cells:
  assumes "0 < n" and "0 \<le> q"
  shows "dump_backward n p q (p mod n) c = Inr ((), c\<lparr>sel_point := sel_point c @ cells_back n p q\<rparr>)"
proof (induction "nat (p + 1 - q)" arbitrary: p c)
  case 0
  then have "\<not> q \<le> p" by simp
  then show ?case by (subst dump_backward.simps) (simp add: cells_back_def)
next
  case (Suc k)
  then have le: "q \<le> p" and k: "k = nat (p - 1 + 1 - q)" by simp_all
  have row: "(p - p mod n) sdiv n = p div n"
  proof -
    have "0 \<le> p - p mod n" using assms le by (simp add: zmod_le_nonneg_dividend)
    moreover have "(p - p mod n) div n = p div n" using assms(1) by (simp add: minus_mod_eq_mult_div)
    ultimately show ?thesis using assms(1) by (simp add: sdiv_nonneg)
  qed
  have next_u: "(if p mod n = 0 then n else p mod n) - 1 = (p - 1) mod n"
  proof (cases "p mod n = 0")
    case True
    then obtain j where "p = n * j" by auto
    then have "p - 1 = n * (j - 1) + (n - 1)" by (simp add: algebra_simps)
    then have "(p - 1) mod n = (n - 1) mod n" by (simp only: mod_mult_self4)
    also have "\<dots> = n - 1" using assms(1) by (intro mod_pos_pos_trivial) auto
    finally show ?thesis using True by simp
  next
    case False
    have "p - 1 = n * (p div n) + (p mod n - 1)" by (simp add: algebra_simps minus_mod_eq_mult_div)
    then have "(p - 1) mod n = (p mod n - 1) mod n" by (metis mod_mult_self4)
    also have "\<dots> = p mod n - 1" using False assms(1) pos_mod_bound [OF assms(1), of p] pos_mod_sign [OF assms(1), of p]
      by (intro mod_pos_pos_trivial) linarith+
    finally show ?thesis using False by simp
  qed
  have "rev [q..p] = p # rev [q..p - 1]" using le upto_rec2 [of q p] by simp
  then have cells: "cells_back n p q = (p mod n, p div n) # cells_back n (p - 1) q" by (simp add: cells_back_def)
  show ?case
    by (subst dump_backward.simps) (simp add: le push_def row next_u Suc.hyps(1) [OF k] cells)
qed

lemma each_none: "(\<And>z. z \<in> set ys \<Longrightarrow> f z d = Inr ((), d)) \<Longrightarrow> each f ys d = Inr ((), d)"
  by (induction ys) auto

lemma each_one:
  assumes "distinct xs" and "x \<in> set xs" and "f x c = Inr ((), c')"
    and "\<And>z d. z \<noteq> x \<Longrightarrow> d = c \<or> d = c' \<Longrightarrow> f z d = Inr ((), d)"
  shows "each f xs c = Inr ((), c')"
  using assms(1,2)
proof (induction xs)
  case (Cons y ys)
  show ?case
  proof (cases "y = x")
    case True
    then have "each f ys c' = Inr ((), c')" using Cons.prems(1) by (intro each_none assms(4)) auto
    then show ?thesis using True assms(3) by simp
  next
    case False
    then have "f y c = Inr ((), c)" using assms(4) by simp
    moreover have "each f ys c = Inr ((), c')" using Cons False by simp
    ultimately show ?thesis by simp
  qed
qed simp

text \<open>A pixel strictly inside the area of a character that the mouse handler has in mind.\<close>

definition inside :: "column \<Rightarrow> point \<Rightarrow> int \<Rightarrow> int \<Rightarrow> bool" where
  "inside c pt x y \<longleftrightarrow>
     x * font_w c + x_start c + x_margin c < fst pt \<and> fst pt < (x + 1) * font_w c + x_start c + x_margin c
   \<and> y * font_h c + y_margin c < snd pt \<and> snd pt < (y + 1) * font_h c + y_margin c"

lemma between_multiples:
  fixes a b w k :: int
  assumes "0 < w" and "k + a * w < p" and "p < k + (a + 1) * w" and "k + b * w \<le> p" and "p \<le> k + b * w + w"
  shows "b = a"
proof -
  have "b * w < (a + 1) * w" "a * w < (b + 1) * w" using assms by (simp_all add: algebra_simps)
  then have "b < a + 1" "a < b + 1" using assms(1) by (simp_all add: mult_less_cancel_right_pos)
  then show ?thesis by simp
qed

lemma hits_inside:
  assumes "inside c pt x y" and "0 < font_w c" and "0 < font_h c"
  shows "hits c pt x' y' \<longleftrightarrow> x' = x \<and> y' = y"
proof
  assume h: "hits c pt x' y'"
  have "x' = x"
    by (rule between_multiples [OF assms(2), where k = "x_start c + x_margin c" and p = "fst pt"])
      (use assms(1) h in \<open>simp_all add: inside_def hits_def Let_def algebra_simps\<close>)
  moreover have "y' = y"
    by (rule between_multiples [OF assms(3), where k = "y_margin c" and p = "snd pt"])
      (use assms(1) h in \<open>simp_all add: inside_def hits_def Let_def algebra_simps\<close>)
  ultimately show "x' = x \<and> y' = y" ..
next
  assume "x' = x \<and> y' = y"
  then show "hits c pt x' y'" using assms(1) by (simp add: inside_def hits_def Let_def algebra_simps)
qed

lemma hits_sel [simp]: "hits (c\<lparr>sel_point := ps\<rparr>) = hits c"
  by (simp add: hits_def fun_eq_iff)

lemma find_unique:
  assumes "x \<in> set xs" and "\<And>y. P y \<longleftrightarrow> y = x"
  shows "List.find P xs = Some x"
  using assms(1) by (induction xs) (auto simp: assms(2))

lemma set_mouse_pos_inside:
  assumes "inside c pt x y" and "0 < font_w c" and "0 < font_h c" and "0 \<le> x" "x < x_chars c" "0 \<le> y" "y \<le> y_chars c"
    and "mouse_select x y c = Inr ((), c')"
  shows "set_mouse_pos pt c = Inr ((), c')"
proof -
  note hit = hits_inside [OF assms(1-3)]
  have c': "c' = c\<lparr>sel_point := sel_point c'\<rparr>" by (rule selectsD [OF selects_mouse_select assms(8)])
  have here: "mouse_column pt x c = Inr ((), c')"
  proof -
    have "List.find (hits c pt x) [0..y_chars c] = Some y"
      by (rule find_unique) (use assms(6,7) hit in auto)
    then show ?thesis using assms(8) by (simp add: mouse_column_def)
  qed
  have there: "mouse_column pt z d = Inr ((), d)" if z: "z \<noteq> x" and d: "d = c \<or> d = c'" for z d
  proof -
    obtain ps where "d = c\<lparr>sel_point := ps\<rparr>" using d c' sel_point_same [of c, symmetric] by blast
    then have "hits d = hits c" "y_chars d = y_chars c" by simp_all
    moreover have "List.find (hits c pt z) [0..y_chars c] = None" using hit z by (auto simp: find_None_iff)
    ultimately show ?thesis by (simp add: mouse_column_def)
  qed
  show ?thesis
    unfolding set_mouse_pos_def
    by (rule each_one [where x = x]) (use assms(4,5) here there in auto)
qed

text \<open>In a column of characters a click on one character selects all from there to the character twice as far down.\<close>

lemma mouse_select_dump:
  assumes "c_name c \<noteq> ''Hex dump''" and "sel_point c = []" and "0 \<le> x" "x < x_chars c" "0 \<le> y" "0 \<le> scroll_cur c"
  shows "mouse_select x y c = Inr ((), c\<lparr>sel_point :=
    (if scroll_cur c = 0 then [(x, y)]
     else cells_back (x_chars c) (x + x_chars c * (y + 2 * scroll_cur c)) (x + x_chars c * (y + scroll_cur c)))\<rparr>)"
proof -
  let ?n = "x_chars c" and ?s = "scroll_cur c"
  have "0 < ?n" using assms(3,4) by simp
  have point: "select_dump_point x (y + ?s) c = Inr ((x, y + ?s + ?s), c\<lparr>sel_point := [(x, y + ?s + ?s)]\<rparr>)"
    using assms(2) by (simp add: select_dump_point_def push_def front_def)
  show ?thesis
  proof (cases "?s = 0")
    case True
    then show ?thesis using assms(1) point by (simp add: mouse_select_def select_dump_lines_def Let_def)
  next
    case False
    have p: "x = (x + ?n * (y + ?s + ?s)) mod ?n" using assms(3,4) by simp
    have "0 \<le> x + ?n * (y + ?s)" using assms \<open>0 < ?n\<close> by simp
    from dump_backward_cells [OF \<open>0 < ?n\<close> this, of "x + ?n * (y + ?s + ?s)", folded p]
    show ?thesis
      using False assms(1,6) point
      by (simp add: mouse_select_def select_dump_lines_def Let_def clear_selection_def add.assoc mult_2 [symmetric])
  qed
qed

end
