(* ===== verification/Ui_Memory_Events.thy ===== *)
theory Ui_Memory_Events
  imports Ui_Memory_Facts
begin

text \<open>
  The events of the memory view, and what each of them leaves alone.
\<close>

section \<open>Events\<close>

text \<open>The event table of the control, with the refresh of its contents; sizes are those of the window at that time.\<close>

datatype view_event =
    Painted point point              \<comment> \<open>the client area of the window and the size of the paint context\<close>
  | Sized point
  | Typed key
  | Left_Down point
  | Left_Up
  | Right_Down
  | Moved int point bool             \<comment> \<open>width of the window, position, left button is down\<close>
  | Scrolled point bool scroll_event
  | Shown u32 "u8 list"              \<comment> \<open>address and buffer of \<open>OutputMemory\<close>\<close>

fun view_handle :: "view_event \<Rightarrow> (list_text_ctrl, unit) op" where
  "view_handle (Painted sz dc_size) l = Inr ((), snd (on_paint sz dc_size l))"
| "view_handle (Sized sz) l = Inr ((), on_size sz l)"
| "view_handle (Typed k) l = Inr ((), on_char k l)"
| "view_handle (Left_Down pt) l = on_mouse_ldown pt l"
| "view_handle Left_Up l = Inr ((), on_mouse_lup l)"
| "view_handle Right_Down l = Inr ((), on_mouse_rdown l)"
| "view_handle (Moved w pt down) l = on_mouse_move w pt down l"
| "view_handle (Scrolled sz vertical e) l = Inr ((), on_scroll sz vertical e l)"
| "view_handle (Shown a bs) l = Inr ((), output_memory (\<lambda>_ _. bs) a l)"

definition refreshes :: "view_event \<Rightarrow> bool" where
  "refreshes e \<longleftrightarrow> (case e of Shown _ _ \<Rightarrow> True | _ \<Rightarrow> False)"

section \<open>What events leave alone\<close>

definition same_column :: "column \<Rightarrow> column \<Rightarrow> bool" where
  "same_column c c' \<longleftrightarrow> c_name c' = c_name c \<and> font_w c' = font_w c \<and> font_h c' = font_h c
     \<and> col_text c' = col_text c \<and> x_chars c' = x_chars c \<and> is_addr_col c' = is_addr_col c"

definition in_step :: "list_text_ctrl \<Rightarrow> bool" where
  "in_step l \<longleftrightarrow> scroll_cur (addr_col l) = list_scroll l \<and> scroll_cur (hex_col l) = list_scroll l
     \<and> scroll_cur (dump_col l) = list_scroll l"

definition same_view :: "list_text_ctrl \<Rightarrow> list_text_ctrl \<Rightarrow> bool" where
  "same_view l l' \<longleftrightarrow> same_column (addr_col l) (addr_col l') \<and> same_column (hex_col l) (hex_col l')
     \<and> same_column (dump_col l) (dump_col l') \<and> scroll_lines l' = scroll_lines l
     \<and> list_font_h l' = list_font_h l \<and> (in_step l \<longrightarrow> in_step l')"

lemmas view_defs = same_view_def same_column_def in_step_def

lemma same_view_refl [simp]: "same_view l l"
  by (simp add: view_defs)

lemma same_view_trans: "same_view l l' \<Longrightarrow> same_view l' l'' \<Longrightarrow> same_view l l''"
  by (simp add: view_defs)

lemma same_view_list_scroll: "same_view l l' \<Longrightarrow> in_step l \<Longrightarrow> in_step l'"
  by (simp add: same_view_def)

lemma same_view_hex_selection:
  assumes "set_hex_selection pt l = Inr ((), l')"
  shows "same_view l l' \<and> list_scroll l' = list_scroll l \<and> list_y_chars l' = list_y_chars l"
proof -
  obtain v d where d: "set_mouse_pos pt (dump_col l) = Inr (v, d)"
    and l': "l' = l\<lparr>dump_col := d, hex_col := set_caret_pos (hex_points (sel_point d)) (hex_col l)\<rparr>"
    using assms by (auto simp: set_hex_selection_def split: sum.splits)
  obtain ps where "d = (dump_col l)\<lparr>sel_point := ps\<rparr>" by (rule set_mouse_posE [OF d])
  then show ?thesis by (simp add: l' view_defs set_caret_pos_def)
qed

lemma same_view_dump_selection:
  assumes "set_dump_selection pt l = Inr ((), l')"
  shows "same_view l l' \<and> list_scroll l' = list_scroll l \<and> list_y_chars l' = list_y_chars l"
proof -
  obtain v h where h: "set_mouse_pos pt (hex_col l) = Inr (v, h)"
    and l': "l' = l\<lparr>hex_col := h, dump_col := set_caret_pos (map (\<lambda>(x, y). (x sdiv 3, y)) (sel_point h)) (dump_col l)\<rparr>"
    using assms by (auto simp: set_dump_selection_def split: sum.splits)
  obtain ps where "h = (hex_col l)\<lparr>sel_point := ps\<rparr>" by (rule set_mouse_posE [OF h])
  then show ?thesis by (simp add: l' view_defs set_caret_pos_def)
qed

text \<open>Pressing the button first clears the selections and takes hold of a line near the pointer.\<close>

definition pressed :: "point \<Rightarrow> list_text_ctrl \<Rightarrow> list_text_ctrl" where
  "pressed pt l = (if near (x_end (addr_col l)) (fst pt) then (clear_selections l)\<lparr>is_addr_down := True\<rparr>
     else if near (x_end (hex_col l)) (fst pt) then (clear_selections l)\<lparr>is_hex_down := True\<rparr>
     else if near (x_end (dump_col l)) (fst pt) then (clear_selections l)\<lparr>is_dump_down := True\<rparr> else clear_selections l)"

lemma on_mouse_ldown_pressed: "on_mouse_ldown pt l =
    (if x_end (hex_col l) < fst pt then set_hex_selection pt ((pressed pt l)\<lparr>is_dump_sel := True\<rparr>)
     else if x_end (addr_col l) \<le> fst pt \<and> fst pt \<le> x_end (hex_col l)
     then set_dump_selection pt ((pressed pt l)\<lparr>is_hex_sel := True\<rparr>)
     else Inr ((), pressed pt l))"
  by (simp add: on_mouse_ldown_def pressed_def Let_def clear_selections_def clear_selection_def)

lemma dump_col_pressed [simp]: "dump_col (pressed pt l) = clear_selection (dump_col l)"
  by (simp add: pressed_def clear_selections_def)

lemma same_view_pressed: "same_view l (pressed pt l) \<and> list_scroll (pressed pt l) = list_scroll l
    \<and> list_y_chars (pressed pt l) = list_y_chars l"
  by (simp add: pressed_def view_defs clear_selections_def clear_selection_def)

lemma same_view_ldown:
  assumes "on_mouse_ldown pt l = Inr ((), l')"
  shows "same_view l l' \<and> list_scroll l' = list_scroll l \<and> list_y_chars l' = list_y_chars l"
proof -
  let ?p = "pressed pt l"
  have flag: "same_view ?p (?p\<lparr>is_dump_sel := True\<rparr>)" "same_view ?p (?p\<lparr>is_hex_sel := True\<rparr>)"
    by (simp_all add: view_defs)
  show ?thesis
    using assms same_view_pressed [of l pt] flag unfolding on_mouse_ldown_pressed
    by (auto split: if_splits dest!: same_view_hex_selection same_view_dump_selection intro: same_view_trans)
qed

lemma same_view_drag: "same_view l (drag_line w x l) \<and> list_scroll (drag_line w x l) = list_scroll l
    \<and> list_y_chars (drag_line w x l) = list_y_chars l"
  by (simp add: drag_line_def view_defs set_end_pos_def)

lemma same_view_move:
  assumes "on_mouse_move w pt down l = Inr ((), l')"
  shows "same_view l l' \<and> list_scroll l' = list_scroll l \<and> list_y_chars l' = list_y_chars l"
proof (cases down)
  case True
  then obtain l1 where l1: "(if is_dump_sel (drag_line w (fst pt) l) then set_hex_selection pt else ret ()) (drag_line w (fst pt) l) = Inr ((), l1)"
    and l2: "(if is_hex_sel l1 then set_dump_selection pt else ret ()) l1 = Inr ((), l')"
    using assms by (auto simp: on_mouse_move_def elim!: and_thenE)
  have "same_view (drag_line w (fst pt) l) l1 \<and> list_scroll l1 = list_scroll (drag_line w (fst pt) l)
      \<and> list_y_chars l1 = list_y_chars (drag_line w (fst pt) l)"
    using l1 same_view_hex_selection by (auto split: if_splits)
  moreover have "same_view l1 l' \<and> list_scroll l' = list_scroll l1 \<and> list_y_chars l' = list_y_chars l1"
    using l2 same_view_dump_selection by (auto split: if_splits)
  ultimately show ?thesis using same_view_drag [of l w "fst pt"] same_view_trans by metis
qed (use assms in \<open>simp add: on_mouse_move_def\<close>)

lemma same_view_paint: "same_view l (snd (on_paint sz dc l)) \<and> list_scroll (snd (on_paint sz dc l)) = list_scroll l"
  by (simp add: on_paint_def view_defs Let_def split_def follow_prev_def init_drawing_def update_window_size_def
      set_start_pos_def set_end_pos_def)

lemma same_view_scroll: "same_view l (on_scroll sz v e l)" "same_view l (on_char k l)" "same_view l (on_size sz l)"
  by (auto simp: on_scroll_def on_char_def scroll_to_def set_scroll_columns_def set_scroll_cursor_def view_defs
      on_size_def update_window_size_def Let_def split: key.splits)

lemma same_view_up: "same_view l (on_mouse_lup l)" "same_view l (on_mouse_rdown l)"
  by (simp_all add: view_defs on_mouse_lup_def on_mouse_rdown_def clear_selections_def clear_selection_def)

lemma view_handle_keeps:
  assumes "view_handle e l = Inr ((), l')" and "\<not> refreshes e"
  shows "same_view l l'"
proof (cases e)
  case (Painted sz dc)
  then show ?thesis using assms(1) same_view_paint [of l sz dc] by simp
next
  case (Sized sz)
  then show ?thesis using assms(1) same_view_scroll(3) [of l sz] by simp
next
  case (Typed k)
  then show ?thesis using assms(1) same_view_scroll(2) by auto
next
  case (Left_Down pt)
  then show ?thesis using assms(1) same_view_ldown by auto
next
  case (Moved w pt down)
  then show ?thesis using assms(1) same_view_move by auto
next
  case (Scrolled sz v k)
  then show ?thesis using assms(1) same_view_scroll(1) [of l sz v k] by simp
next
  case (Shown a bs)
  then show ?thesis using assms(2) by (simp add: refreshes_def)
qed (use assms(1) same_view_up in auto)

end
