(* ===== verification/Ui_Memory_Properties.thy ===== *)
theory Ui_Memory_Properties
  imports Ui_Memory_Events
begin

text \<open>
  The memory view under any sequence of events: its columns stay in step, what the rows show, where the
  scroll position can get, and what a click selects.
\<close>

section \<open>The columns stay in step\<close>

definition view_fonts :: "int \<Rightarrow> int \<Rightarrow> list_text_ctrl \<Rightarrow> bool" where
  "view_fonts fw fh l \<longleftrightarrow> c_name (dump_col l) = ''ASCII'' \<and> font_w (dump_col l) = fw \<and> font_h (dump_col l) = fh"

definition view_ok :: "list_text_ctrl \<Rightarrow> bool" where
  "view_ok l \<longleftrightarrow> in_step l \<and> x_chars (dump_col l) = 16 \<and> col_text (hex_col l) = hex_str (col_text (dump_col l))
     \<and> \<not> is_addr_col (hex_col l) \<and> \<not> is_addr_col (dump_col l)"

lemma view_ok_new: "view_ok (new_list_text_ctrl u fw fh)" "view_fonts fw fh (new_list_text_ctrl u fw fh)"
  by (simp_all add: view_ok_def view_fonts_def in_step_def new_list_text_ctrl_def new_column_def set_caret_size_def set_width_def
      graphical_char_to_device_coords_def hex_str_def Let_def)

lemma view_shown: "view_ok l \<Longrightarrow> view_ok (output_memory read a l)" "view_fonts fw fh l \<Longrightarrow> view_fonts fw fh (output_memory read a l)"
  by (simp_all add: view_ok_def view_fonts_def in_step_def output_memory_def set_dump_value_def set_addr_value_def set_text_def set_width_def
      set_start_pos_def set_scroll_lines_def init_addr_col_def Let_def)

lemma view_ok_handle:
  assumes "view_ok l \<and> view_fonts fw fh l" and "view_handle e l = Inr ((), l')"
  shows "view_ok l' \<and> view_fonts fw fh l'"
proof (cases "refreshes e")
  case True
  then obtain a bs where "e = Shown a bs" by (auto simp: refreshes_def split: view_event.splits)
  then show ?thesis using assms view_shown by auto
next
  case False
  have "same_view l l'" by (rule view_handle_keeps [OF assms(2) False])
  then show ?thesis using assms(1) by (auto simp: view_ok_def view_fonts_def same_view_def same_column_def)
qed

lemma view_reached:
  assumes "each view_handle es (new_list_text_ctrl u fw fh) = Inr ((), l)"
  shows "view_ok l \<and> view_fonts fw fh l"
proof (rule each_kept [OF assms, where P = "\<lambda>l. view_ok l \<and> view_fonts fw fh l"])
  show "view_ok s' \<and> view_fonts fw fh s'" if "view_ok s \<and> view_fonts fw fh s" "view_handle e s = Inr ((), s')" for e s s'
    using that by (rule view_ok_handle)
qed (simp add: view_ok_new)

section \<open>What the rows show\<close>

definition showable :: "u8 \<Rightarrow> bool" where
  "showable b \<longleftrightarrow> b \<noteq> 173 \<and> (31 < b \<and> b < 127 \<or> 159 < b)"

lemma shown_char_code: "word_of_nat (of_char (shown_char b)) = (if showable b then ucast b else 0x2E :: u32)"
proof -
  have "unat b < 2 ^ 8" using unsigned_less [of b] by simp
  then have "of_char (char_of (unat b)) = unat b" by (simp add: of_char_of)
  moreover have "shown_char b = (if showable b then char_of (unat b) else CHR ''.'')"
    by (simp add: shown_char_def showable_def)
  ultimately show ?thesis by (simp del: of_nat_of_char)
qed

definition memory_shown :: "u32 \<Rightarrow> u8 list \<Rightarrow> list_text_ctrl \<Rightarrow> bool" where
  "memory_shown a bs l \<longleftrightarrow> col_text (addr_col l) = addr_text a 64 \<and> is_addr_col (addr_col l)
     \<and> col_text (dump_col l) = map shown_char bs \<and> x_chars (hex_col l) = 48"


lemma length_hex_padded: "n < 16 ^ Suc p \<Longrightarrow> length (hex_padded (Suc p) n) = Suc p"
  using length_hex_text [of n p] by (simp add: hex_padded_def)

lemma length_byte_text [simp]: "length (hex_padded 2 (of_char c)) = 2"
proof -
  have "of_char c < (256 :: nat)" by (rule nat_of_char_less_256)
  then show ?thesis using length_hex_padded [of "of_char c" 1] by (simp add: numeral_2_eq_2)
qed

lemma length_addr [simp]: "length (hex_padded 8 (unat (a :: u32))) = 8"
proof -
  have "unat a < 2 ^ 32" using unsigned_less [of a] by simp
  then show ?thesis using length_hex_padded [of "unat a" 7] by simp
qed

lemma hex_str_rows: "take (3 * k) (hex_str s) = hex_str (take k s)" "drop (3 * k) (hex_str s) = hex_str (drop k s)"
  by (induction s arbitrary: k) (case_tac [!] k, simp_all add: hex_str_def)

lemma length_hex_str [simp]: "length (hex_str s) = 3 * length s"
  by (induction s) (simp_all add: hex_str_def)

lemma addr_text_row: "r < k \<Longrightarrow> take 8 (drop (8 * r) (addr_text a k)) = hex_padded 8 (unat (a + 16 * word_of_nat r))"
  by (induction k arbitrary: r a) (case_tac [!] r, simp_all add: algebra_simps)

lemma length_addr_text [simp]: "length (addr_text a k) = 8 * k"
  by (induction k arbitrary: a) simp_all

lemma text_row_take:
  assumes "0 \<le> y + scroll_cur c" and "row_chars c = int n" and "n * nat (y + scroll_cur c) + n \<le> length (col_text c)"
  shows "text_row c y = take n (drop (n * nat (y + scroll_cur c)) (col_text c))"
proof (rule nth_equalityI)
  show "length (text_row c y) = length (take n (drop (n * nat (y + scroll_cur c)) (col_text c)))"
    using assms by (simp add: text_row_def)
next
  fix i
  assume "i < length (text_row c y)"
  then have i: "i < n" using assms by (simp add: text_row_def)
  let ?r = "nat (y + scroll_cur c)"
  have p: "int i + int n * (y + scroll_cur c) = int (n * ?r + i)" using assms(1) by simp
  have "[0..int n - 1] ! i = int i" using i by simp
  then have "text_row c y ! i = char_or_space (col_text c) (int (n * ?r + i))"
    using i assms(2) p by (simp add: text_row_def del: of_nat_add of_nat_mult)
  also have "\<dots> = col_text c ! (n * ?r + i)" using assms(3) i by (simp add: char_or_space_def del: of_nat_add of_nat_mult)
  finally show "text_row c y ! i = take n (drop (n * ?r) (col_text c)) ! i" using i assms(3) by simp
qed

lemma memory_shown_output:
  assumes "length bs = 1024" and "view_ok l"
  shows "memory_shown a bs (output_memory (\<lambda>_ _. bs) a l)"
  using assms
  by (simp add: memory_shown_def view_ok_def output_memory_def output_loop_map set_dump_value_def set_addr_value_def set_text_def set_width_def
      set_start_pos_def set_scroll_lines_def init_addr_col_def Let_def)

lemma memory_shown_handle:
  assumes "memory_shown a bs l" and "view_handle e l = Inr ((), l')" and "\<not> refreshes e"
  shows "memory_shown a bs l'"
  using assms(1) view_handle_keeps [OF assms(2,3)] by (auto simp: memory_shown_def same_view_def same_column_def)

lemma hex_str_byte:
  assumes "i < length s"
  shows "htodw (take 3 (drop (3 * i) (hex_str s))) = word_of_nat (of_char (s ! i))"
proof -
  have "take 3 (drop (3 * i) (hex_str s)) = hex_padded 2 (of_char (s ! i)) @ '' ''"
    using assms hex_str_rows(1) [of 1 "drop i s"] unfolding hex_str_rows(2)
    by (simp add: hex_str_def take_Suc hd_drop_conv_nth)
  moreover have "ends_number '' ''" by (simp add: ends_number_def bit_simps)
  ultimately show ?thesis using hex_padded_read by metis
qed


text \<open>C32: After the memory at an address has been read into the buffer \<open>bs\<close>, and whatever the user does until
  the next refresh, the row drawn at \<open>y\<close> is row \<open>r\<close> of the memory, counted from the position of the scroll
  bar, in all three columns: its address in eight digits, its sixteen bytes as characters, and the
  digits of what the characters show. So a number in the hexadecimal column is the byte of the memory
  only if that has a printable character or is a full stop; all other bytes are shown as 2E.\<close>

theorem memory_view_shows:
  fixes bs :: "u8 list"
  assumes "each view_handle (es @ [Shown a bs] @ later) (new_list_text_ctrl u fw fh) = Inr ((), l)"
    and "\<forall>e \<in> set later. \<not> refreshes e"
    and "length bs = 1024" and "r < 64" and "y + list_scroll l = int r"
  shows "text_row (addr_col l) y = hex_padded 8 (unat (a + 16 * word_of_nat r))
    \<and> text_row (dump_col l) y = map shown_char (take 16 (drop (16 * r) bs))
    \<and> text_row (hex_col l) y = hex_str (text_row (dump_col l) y)
    \<and> (\<forall>i < 16. let shown = htodw (take 3 (drop (3 * i) (text_row (hex_col l) y))); b = bs ! (16 * r + i) in
           shown = (if showable b then ucast b else 0x2E))"
proof -
  obtain l1 where l1: "each view_handle (es @ [Shown a bs]) (new_list_text_ctrl u fw fh) = Inr ((), l1)"
    and l: "each view_handle later l1 = Inr ((), l)"
    using assms(1) by (auto simp: each_append)
  have "memory_shown a bs l1" using l1 view_reached [of es u fw fh] memory_shown_output [OF assms(3)] by (auto simp: each_append)
  then have shown: "memory_shown a bs l"
    using assms(2) memory_shown_handle by (intro each_kept [OF l, where P = "memory_shown a bs"]) auto
  have ok: "view_ok l" using view_reached [OF assms(1)] ..
  have scroll: "scroll_cur (addr_col l) = list_scroll l" "scroll_cur (hex_col l) = list_scroll l" "scroll_cur (dump_col l) = list_scroll l"
    using ok by (simp_all add: view_ok_def in_step_def)
  have nat_r: "nat (y + list_scroll l) = r" using assms(5) by simp
  have addrs: "text_row (addr_col l) y = hex_padded 8 (unat (a + 16 * word_of_nat r))"
    using text_row_take [of y "addr_col l" 8] shown assms(4,5) nat_r addr_text_row [OF assms(4)]
    by (simp add: scroll memory_shown_def row_chars_def)
  have dump: "text_row (dump_col l) y = map shown_char (take 16 (drop (16 * r) bs))"
    using text_row_take [of y "dump_col l" 16] shown ok assms(3-5) nat_r
    by (simp add: scroll memory_shown_def view_ok_def row_chars_def take_map drop_map)
  have hex: "text_row (hex_col l) y = hex_str (text_row (dump_col l) y)"
    using text_row_take [of y "hex_col l" 48] shown ok assms(3-5) nat_r hex_str_rows [of "16 * r"] hex_str_rows(1) [of 16]
    unfolding dump by (simp add: scroll memory_shown_def view_ok_def row_chars_def take_map drop_map)
  have "\<forall>i < 16. let shown = htodw (take 3 (drop (3 * i) (text_row (hex_col l) y))); b = bs ! (16 * r + i) in
      shown = (if showable b then ucast b else 0x2E)"
  proof (intro allI impI)
    fix i :: nat
    assume "i < 16"
    then have "htodw (take 3 (drop (3 * i) (text_row (hex_col l) y))) = word_of_nat (of_char (shown_char (bs ! (16 * r + i))))"
      using hex_str_byte [of i "map shown_char (take 16 (drop (16 * r) bs))"] assms(3,4) by (simp add: hex dump)
    then show "let shown = htodw (take 3 (drop (3 * i) (text_row (hex_col l) y))); b = bs ! (16 * r + i) in
        shown = (if showable b then ucast b else 0x2E)"
      using shown_char_code [of "bs ! (16 * r + i)"] by (simp add: Let_def)
  qed
  with addrs dump hex show ?thesis by blast
qed


text \<open>A view in a window of 400 by 120 pixels, with characters of 8 by 16.\<close>

definition blank_column :: column where
  "blank_column = \<lparr>c_name = [], x_start = 0, y_start = 0, x_end = 0, x_delta = 0, x_changed = False, is_addr_col = False,
     x_chars = 0, y_chars = 0, x_margin = 0, y_margin = 0, font_w = 0, font_h = 0, x_caret = 0, y_caret = 0,
     scroll_cur = 0, scroll_sz = 0, coef_sel_ext = 0, client = (0, 0), col_text = [], sel_point = []\<rparr>"

definition blank_view :: list_text_ctrl where
  "blank_view = \<lparr>list_font_w = 0, list_font_h = 0, list_x_chars = 0, list_y_chars = 0, scroll_lines = 0, list_scroll = 0,
     start_addr = 0, sz_addr = 0, addr_col = blank_column, hex_col = blank_column, dump_col = blank_column,
     is_addr_down = False, is_hex_down = False, is_dump_down = False, is_hex_sel = False, is_dump_sel = False\<rparr>"

definition demo_view :: "list_text_ctrl" where
  "demo_view = new_list_text_ctrl blank_view 8 16"

definition demo_row :: "u8 list" where
  "demo_row = [0x48, 0x69, 0, 0x2E, 0, 0, 0, 0, 0, 0, 0, 0, 0, 0, 0, 0]"

definition demo_bytes :: "u8 list" where
  "demo_bytes = demo_row @ demo_row @ replicate 992 0"

definition demo_end :: "view_event list \<Rightarrow> list_text_ctrl" where
  "demo_end es = (case each view_handle es demo_view of Inr (_, l) \<Rightarrow> l | Inl _ \<Rightarrow> demo_view)"

lemma memory_view_shows_witness:
  "text_row (addr_col (demo_end [Sized (400, 120), Shown 0x1000 demo_bytes, Typed Down])) 0 = ''00001010''
   \<and> text_row (dump_col (demo_end [Sized (400, 120), Shown 0x1000 demo_bytes, Typed Down])) 0 = ''Hi..............''"
proof -
  let ?es = "[Sized (400, 120)] @ [Shown 0x1000 demo_bytes] @ [Typed Down]"
  have run: "each view_handle ?es demo_view = Inr ((), demo_end ?es)" by (simp add: demo_end_def)
  have bytes: "length demo_bytes = 1024" by (simp add: demo_bytes_def demo_row_def)
  have "0 + list_scroll (demo_end ?es) = int 1"
    by (simp add: demo_end_def demo_view_def new_list_text_ctrl_def new_column_def on_size_def update_window_size_def output_memory_def
        output_loop_map bytes set_dump_value_def set_addr_value_def set_text_def set_width_def set_start_pos_def set_scroll_lines_def
        init_addr_col_def on_char_def scroll_to_def set_scroll_columns_def Let_def signed_divide_int_def)
  moreover have "\<forall>e \<in> set [Typed Down]. \<not> refreshes e" by (simp add: refreshes_def)
  ultimately have "text_row (addr_col (demo_end ?es)) 0 = hex_padded 8 (unat (0x1000 + 16 * word_of_nat 1 :: u32))
      \<and> text_row (dump_col (demo_end ?es)) 0 = map shown_char (take 16 (drop (16 * 1) demo_bytes))"
    using memory_view_shows [of "[Sized (400, 120)]" "0x1000" demo_bytes "[Typed Down]" blank_view 8 16 "demo_end ?es" 1 0]
      run [unfolded demo_view_def] bytes
    by auto
  moreover have "hex_padded 8 (unat (0x1000 + 16 * word_of_nat 1 :: u32)) = ''00001010''"
  proof -
    have "hex_text 4112 = ''1010''" by (simp add: hex_text.simps hex_digit_def char_of_def bit_0)
    moreover have "replicate 4 (CHR ''0'') = ''0000''" by (simp add: eval_nat_numeral)
    ultimately show ?thesis by (simp add: hex_padded_def)
  qed
  moreover have "take 16 (drop (16 * 1) demo_bytes) = demo_row" by (simp add: demo_bytes_def demo_row_def)
  moreover have "map shown_char demo_row = ''Hi..............''" by code_simp
  ultimately show ?thesis by simp
qed


section \<open>Where scrolling gets\<close>

text \<open>An event in a window that keeps its size, with the thumb of the scroll bar in its range.\<close>

definition ordinary :: "point \<Rightarrow> int \<Rightarrow> view_event \<Rightarrow> bool" where
  "ordinary sz m e \<longleftrightarrow> (case e of
       Sized p \<Rightarrow> p = sz
     | Painted p _ \<Rightarrow> p = sz
     | Scrolled p _ k \<Rightarrow> p = sz \<and> (case k of Thumb_Track q \<Rightarrow> 0 \<le> q \<and> q \<le> max 0 m | Thumb_Release q \<Rightarrow> 0 \<le> q \<and> q \<le> max 0 m | _ \<Rightarrow> True)
     | Shown _ _ \<Rightarrow> False
     | _ \<Rightarrow> True)"

definition scrolled_to :: "point \<Rightarrow> list_text_ctrl \<Rightarrow> list_text_ctrl \<Rightarrow> bool" where
  "scrolled_to sz l l' \<longleftrightarrow> list_y_chars l' = list_y_chars l \<and> scroll_lines l' = scroll_lines l \<and> list_font_h l' = list_font_h l
     \<and> min 0 (scroll_lines l - list_y_chars l) \<le> list_scroll l'
     \<and> list_scroll l' \<le> max 0 (scroll_lines l - list_y_chars l + 1)"

lemma rows_of_window: "update_window_size sz l = l \<Longrightarrow> list_font_h l' = list_font_h l \<Longrightarrow>
    list_y_chars (update_window_size sz l') = list_y_chars l"
  by (cases l) (auto simp: update_window_size_def Let_def)

lemma scrolled_to_char: "scrolled_to sz l l' \<Longrightarrow> scrolled_to sz l (on_char k l')"
  by (cases k) (auto simp: scrolled_to_def on_char_def scroll_to_def set_scroll_columns_def Let_def)

lemma scrolled_to_scroll:
  assumes "update_window_size sz l = l" and "scrolled_to sz l l'" and "ordinary sz (scroll_lines l - list_y_chars l) (Scrolled p v k)"
  shows "scrolled_to sz l (on_scroll p v k l')"
proof -
  define l1 where "l1 = l'\<lparr>list_scroll := (if v then (case k of
                      Thumb_Track p \<Rightarrow> p
                    | Thumb_Release p \<Rightarrow> p
                    | Line_Up \<Rightarrow> if 1 \<le> list_scroll l' then list_scroll l' - 1 else list_scroll l'
                    | Line_Down \<Rightarrow> if list_scroll l' \<le> scroll_lines l' - list_y_chars l' then list_scroll l' + 1 else list_scroll l'
                    | Other_Scroll \<Rightarrow> list_scroll l') else list_scroll l')\<rparr>"
  have start: "on_scroll p v k l' = set_scroll_columns (list_scroll (update_window_size sz l1)) (update_window_size sz l1)"
    using assms(3) by (simp add: on_scroll_def l1_def Let_def ordinary_def)
  have rows: "list_y_chars (update_window_size sz l1) = list_y_chars l"
    using assms(2) by (intro rows_of_window [OF assms(1)]) (simp add: l1_def scrolled_to_def)
  have rest: "list_scroll (update_window_size sz l1) = list_scroll l1" "scroll_lines (update_window_size sz l1) = scroll_lines l1"
      "list_font_h (update_window_size sz l1) = list_font_h l1"
    by (simp_all add: update_window_size_def Let_def)
  have "scrolled_to sz l l1"
    using assms(2,3) by (cases k) (auto simp: scrolled_to_def l1_def ordinary_def)
  then show ?thesis unfolding start by (simp add: scrolled_to_def set_scroll_columns_def rows rest)
qed

lemma scrolled_to_handle:
  assumes "update_window_size sz l = l" and "ordinary sz (scroll_lines l - list_y_chars l) e"
    and "scrolled_to sz l l'" and "view_handle e l' = Inr ((), l'')"
  shows "scrolled_to sz l l''"
proof -
  have same: "same_view l' l''"
    by (rule view_handle_keeps [OF assms(4)]) (use assms(2) in \<open>auto simp: refreshes_def ordinary_def split: view_event.splits\<close>)
  have keep: "scrolled_to sz l l''" if "list_scroll l'' = list_scroll l'" "list_y_chars l'' = list_y_chars l"
    using same that assms(3) by (simp add: scrolled_to_def same_view_def)
  note font = assms(3) [unfolded scrolled_to_def]
  show ?thesis
  proof (cases e)
    case (Typed k)
    then show ?thesis using assms(3,4) scrolled_to_char [of sz l l' k] by simp
  next
    case (Scrolled p v k)
    then show ?thesis using assms scrolled_to_scroll [of sz l l' p v k] by simp
  next
    case (Painted p dc)
    then have l'': "l'' = snd (on_paint sz dc l')" using assms(2,4) by (simp add: ordinary_def)
    have "list_y_chars l'' = list_y_chars (update_window_size sz l')" by (simp add: l'' on_paint_def Let_def split_def)
    then show ?thesis using keep rows_of_window [OF assms(1), of l'] font same_view_paint [of l' sz dc] by (simp add: l'')
  next
    case (Sized p)
    then have l'': "l'' = update_window_size sz l'" using assms(2,4) by (simp add: ordinary_def on_size_def)
    show ?thesis using keep rows_of_window [OF assms(1), of l'] font by (simp add: l'' update_window_size_def Let_def)
  next
    case (Left_Down pt)
    then show ?thesis using assms(4) same_view_ldown font keep by auto
  next
    case (Moved w pt d)
    then show ?thesis using assms(4) same_view_move font keep by auto
  qed (use keep assms(2,4) font in \<open>auto simp: ordinary_def on_mouse_lup_def on_mouse_rdown_def clear_selections_def\<close>)
qed

text \<open>C38: In a window that keeps its size, with \<open>m\<close> rows more than it shows, no sequence of keys, scroll events and
  mouse events gets the view before its first row or more than one row past the last full page; that
  one row it does get past it: the end key and a line down show the rows from \<open>m + 1\<close> on. If there are
  fewer rows than the window shows, the end key scrolls to a negative row.\<close>

theorem scroll_in_range:
  assumes "update_window_size sz l = l" and "m = scroll_lines l - list_y_chars l"
    and "min 0 m \<le> list_scroll l" and "list_scroll l \<le> max 0 (m + 1)"
    and "\<forall>e \<in> set es. ordinary sz m e"
  shows "(\<forall>l'. each view_handle es l = Inr ((), l') \<longrightarrow> min 0 m \<le> list_scroll l' \<and> list_scroll l' \<le> max 0 (m + 1))
    \<and> (\<exists>l'. each view_handle [Typed End, Typed Down] l = Inr ((), l') \<and> list_scroll l' = m + 1)
    \<and> (\<exists>l'. view_handle (Typed End) l = Inr ((), l') \<and> list_scroll l' = m)"
proof (intro conjI allI impI)
  fix l'
  assume run: "each view_handle es l = Inr ((), l')"
  have start: "scrolled_to sz l l" using assms(2-4) by (simp add: scrolled_to_def)
  have "scrolled_to sz l l'"
    using run by (rule each_kept [where P = "scrolled_to sz l"])
      (use start scrolled_to_handle [OF assms(1)] assms(2,5) in blast)+
  then show "min 0 m \<le> list_scroll l'" "list_scroll l' \<le> max 0 (m + 1)" by (simp_all add: scrolled_to_def assms(2))
qed (simp_all add: on_char_def scroll_to_def set_scroll_columns_def Let_def assms(2))


lemma scroll_in_range_witness:
  "\<exists>l'. each view_handle [Typed End, Left_Up, Typed Down, Typed Down, Scrolled (400, 120) True (Thumb_Track 3), Typed Page_Up]
       (demo_end [Sized (400, 120), Shown 0x1000 demo_bytes]) = Inr ((), l')
     \<and> 0 \<le> list_scroll l' \<and> list_scroll l' \<le> 59"
proof -
  let ?l = "demo_end [Sized (400, 120), Shown 0x1000 demo_bytes]"
  let ?es = "[Typed End, Left_Up, Typed Down, Typed Down, Scrolled (400, 120) True (Thumb_Track 3), Typed Page_Up]"
  have bytes: "length demo_bytes = 1024" by (simp add: demo_bytes_def demo_row_def)
  have l: "list_font_w ?l = 8 \<and> list_font_h ?l = 16 \<and> list_x_chars ?l = 48 \<and> list_y_chars ?l = 6 \<and> scroll_lines ?l = 64 \<and> list_scroll ?l = 0"
    by (simp add: demo_end_def demo_view_def new_list_text_ctrl_def new_column_def on_size_def update_window_size_def output_memory_def
        output_loop_map bytes set_dump_value_def set_addr_value_def set_text_def set_width_def set_start_pos_def set_scroll_lines_def
        init_addr_col_def Let_def signed_divide_int_def)
  have win: "update_window_size (400, 120) ?l = ?l"
    using l by (cases ?l) (simp add: update_window_size_def signed_divide_int_def Let_def)
  have run: "\<exists>l'. each view_handle ?es ?l = Inr ((), l')" by simp
  have "\<forall>e \<in> set ?es. ordinary (400, 120) 58 e" by (simp add: ordinary_def)
  then show ?thesis using scroll_in_range [OF win, of 58 ?es] l run by auto
qed

section \<open>A click\<close>

text \<open>A click on a character of the column of characters, strictly inside the rectangle the mouse handler has
  in mind for it, selects that character if the view is scrolled to its first row. If it is scrolled
  by \<open>s\<close> rows, the position of the scroll bar is added twice: everything from the character to the one
  \<open>s\<close> rows below is selected. The digits of the same bytes are selected in the other column.\<close>

theorem click_selects:
  assumes "each view_handle es (new_list_text_ctrl u fw fh) = Inr ((), l)" and "0 < fw" and "0 < fh"
    and "x_end (hex_col l) < fst pt" and "inside (dump_col l) pt x y" and "0 \<le> x" "x < 16" "0 \<le> y" "y \<le> y_chars (dump_col l)"
    and "s = list_scroll l" and "0 \<le> s"
  shows "\<exists>l'. view_handle (Left_Down pt) l = Inr ((), l')
    \<and> sel_point (dump_col l') = (if s = 0 then [(x, y)] else cells_back 16 (x + 16 * (y + 2 * s)) (x + 16 * (y + s)))
    \<and> sel_point (hex_col l') = hex_points (sel_point (dump_col l'))"
proof -
  have ok: "view_ok l" "view_fonts fw fh l" using view_reached [OF assms(1)] by simp_all
  define d where "d = clear_selection (dump_col l)"
  define sel where "sel = (if s = 0 then [(x, y)] else cells_back 16 (x + 16 * (y + 2 * s)) (x + 16 * (y + s)))"
  have d: "c_name d \<noteq> ''Hex dump''" "sel_point d = []" "x_chars d = 16" "scroll_cur d = s" "font_w d = fw" "font_h d = fh"
      "y_chars d = y_chars (dump_col l)" "inside d pt x y"
    using ok assms(5,10) by (simp_all add: d_def clear_selection_def view_ok_def view_fonts_def in_step_def inside_def)
  have "mouse_select x y d = Inr ((), d\<lparr>sel_point := sel\<rparr>)"
    using mouse_select_dump [of d x y] assms(6-8,11) by (simp add: d sel_def)
  then have mouse: "set_mouse_pos pt d = Inr ((), d\<lparr>sel_point := sel\<rparr>)"
    using set_mouse_pos_inside [of d pt x y] assms(2,3,6-9) by (simp add: d)
  show ?thesis
    using assms(4) mouse
    by (simp add: on_mouse_ldown_pressed set_hex_selection_def set_caret_pos_def d_def [symmetric] flip: sel_def)
qed


lemma click_selects_witness:
  "\<exists>l'. view_handle (Left_Down (517, 13)) (demo_end [Sized (400, 120), Shown 0x1000 demo_bytes, Typed Down])
        = Inr ((), l')
     \<and> length (sel_point (dump_col l')) = 17"
proof -
  let ?es = "[Sized (400, 120), Shown 0x1000 demo_bytes, Typed Down]"
  let ?l = "demo_end ?es"
  have bytes: "length demo_bytes = 1024" by (simp add: demo_bytes_def demo_row_def)
  have run: "each view_handle ?es (new_list_text_ctrl blank_view 8 16) = Inr ((), ?l)" by (simp add: demo_end_def demo_view_def)
  note defs = demo_end_def demo_view_def new_list_text_ctrl_def new_column_def on_size_def update_window_size_def output_memory_def
    output_loop_map bytes set_dump_value_def set_addr_value_def set_text_def set_width_def set_start_pos_def set_scroll_lines_def
    graphical_char_to_device_coords_def init_addr_col_def Let_def signed_divide_int_def on_char_def scroll_to_def set_scroll_columns_def
    set_scroll_cursor_def set_caret_size_def blank_view_def blank_column_def
  have hex: "x_end (hex_col ?l) = 484 \<and> list_scroll ?l = 1" by (simp add: defs)
  have dump: "x_start (dump_col ?l) = 484 \<and> x_margin (dump_col ?l) = 5 \<and> y_margin (dump_col ?l) = 5 \<and> font_w (dump_col ?l) = 8
      \<and> font_h (dump_col ?l) = 16 \<and> y_chars (dump_col ?l) = 0"
    by (simp add: defs)
  have "inside (dump_col ?l) (517, 13) 3 0" using dump by (simp add: inside_def)
  then obtain l' where "view_handle (Left_Down (517, 13)) ?l = Inr ((), l')"
      "sel_point (dump_col l') = cells_back 16 (3 + 16 * (0 + 2 * 1)) (3 + 16 * (0 + 1))"
    using click_selects [OF run, of "(517, 13)" 3 0 1] hex dump by auto
  then show ?thesis by (auto simp: cells_back_def)
qed

end
