(* ===== verification/Ui_Registers.thy ===== *)
theory Ui_Registers
  imports Ui_Text
begin

text \<open>
  The window of the registers, \<open>src/ui/src/regframe.cpp\<close>: it prints the context of the thread that caused the
  last event, and a double click on a line of it edits the register of that line. The tracer library
  and the widgets are parameters: \<open>tracer\<close> reads and writes thread contexts, \<open>widgets\<close> reads numbers and asks
  the user.
\<close>

section \<open>State and parameters\<close>

text \<open>The part of the \<open>CONTEXT\<close> of the system that the window uses; the rest of it is in \<open>other\<close>.\<close>

record thread_ctx =
  Dr0 :: u32
  Dr1 :: u32
  Dr2 :: u32
  Dr3 :: u32
  Dr6 :: u32
  Dr7 :: u32
  SegGs :: u32
  SegFs :: u32
  SegEs :: u32
  SegDs :: u32
  Edi :: u32
  Esi :: u32
  Ebx :: u32
  Edx :: u32
  Ecx :: u32
  Eax :: u32
  Ebp :: u32
  Eip :: u32
  SegCs :: u32
  EFlags :: u32
  Esp :: u32
  SegSs :: u32
  other :: "u8 list"

text \<open>Both functions return zero when they fail; a context is passed in because one that fails may leave it.\<close>

record 's tracer =
  trc_get_thread_ctx :: "u32 \<Rightarrow> u32 \<Rightarrow> thread_ctx \<Rightarrow> 's \<Rightarrow> u32 \<times> thread_ctx"
  trc_set_thread_ctx :: "u32 \<Rightarrow> u32 \<Rightarrow> thread_ctx \<Rightarrow> 's \<Rightarrow> u32 \<times> 's"

record widgets =
  ToULong :: "string \<Rightarrow> u32 \<Rightarrow> u32"                  \<comment> \<open>text, value before: value after\<close>
  wxGetTextFromUser :: "string \<Rightarrow> string \<Rightarrow> string"    \<comment> \<open>title, default: answer\<close>

record reg_ctrl =
  ctrl_sesId :: u32
  ctrl_tid :: u32
  ctrl_text :: string
  errors :: "string list"

definition RegistersName :: "string list" where
  "RegistersName = [''EAX'', ''ECX'', ''EDX'', ''EBX'', ''ESP'', ''EBP'', ''ESI'', ''EDI'', ''EIP'',
     ''ES'', ''CS'', ''SS'', ''DS'', ''FS'', ''GS'']"

definition SetContextId :: "u32 \<Rightarrow> reg_ctrl \<Rightarrow> reg_ctrl" where
  "SetContextId n r = r\<lparr>ctrl_sesId := n\<rparr>"

definition SetThreadId :: "u32 \<Rightarrow> reg_ctrl \<Rightarrow> reg_ctrl" where
  "SetThreadId n r = r\<lparr>ctrl_tid := n\<rparr>"

section \<open>Printing\<close>

abbreviation (input) tab :: char where "tab \<equiv> CHR 0x09"
abbreviation (input) newline :: char where "newline \<equiv> CHR 0x0A"

definition reg_line :: "string \<Rightarrow> u32 \<Rightarrow> string" where
  "reg_line n v = n @ tab # hex_padded 8 (unat v)"

fun join_lines :: "string list \<Rightarrow> string" where
  "join_lines [] = []"
| "join_lines [l] = l"
| "join_lines (l # m # ls) = l @ newline # join_lines (m # ls)"

definition basic_lines :: "thread_ctx \<Rightarrow> string list" where
  "basic_lines ctx =
     [reg_line ''EAX'' (Eax ctx), reg_line ''ECX'' (Ecx ctx), reg_line ''EDX'' (Edx ctx), reg_line ''EBX'' (Ebx ctx),
      reg_line ''ESP'' (Esp ctx), reg_line ''EBP'' (Ebp ctx), reg_line ''ESI'' (Esi ctx), reg_line ''EDI'' (Edi ctx),
      [], reg_line ''EIP'' (Eip ctx), [],
      reg_line ''ES'' (SegEs ctx), reg_line ''CS'' (SegCs ctx), reg_line ''SS'' (SegSs ctx), reg_line ''DS'' (SegDs ctx),
      reg_line ''FS'' (SegFs ctx), reg_line ''GS'' (SegGs ctx), [],
      reg_line ''EFL'' (EFlags ctx)]"

definition OutputBasic :: "thread_ctx \<Rightarrow> reg_ctrl \<Rightarrow> reg_ctrl" where
  "OutputBasic ctx r = r\<lparr>ctrl_text := join_lines (basic_lines ctx)\<rparr>"

definition OutputDR :: "thread_ctx \<Rightarrow> reg_ctrl \<Rightarrow> reg_ctrl" where
  "OutputDR ctx r = r\<lparr>ctrl_text := join_lines
     [reg_line ''DR0'' (Dr0 ctx), reg_line ''DR1'' (Dr1 ctx), reg_line ''DR2'' (Dr2 ctx), reg_line ''DR3'' (Dr3 ctx),
      reg_line ''DR6'' (Dr6 ctx), reg_line ''DR7'' (Dr7 ctx)]\<rparr>"

text \<open>\<open>Output\<close>: \<open>u\<close> is what the local variable held before; the result of the tracer is not looked at.\<close>

definition reg_output :: "'s tracer \<Rightarrow> thread_ctx \<Rightarrow> u32 \<Rightarrow> u32 \<Rightarrow> 's \<Rightarrow> reg_ctrl \<times> reg_ctrl \<Rightarrow> reg_ctrl \<times> reg_ctrl" where
  "reg_output T u ses tid s rd =
     (let basic = SetThreadId tid (SetContextId ses (fst rd));
          ctx = snd (trc_get_thread_ctx T ses tid u s)
      in (OutputBasic ctx basic, OutputDR ctx (snd rd)))"

section \<open>Editing\<close>

text \<open>\<open>wxStricmp\<close>: equal up to the case of letters.\<close>

definition lower :: "char \<Rightarrow> char" where
  "lower c = (if 65 \<le> (of_char c :: nat) \<and> (of_char c :: nat) \<le> 90 then char_of ((of_char c :: nat) + 32) else c)"

definition same_name :: "string \<Rightarrow> string \<Rightarrow> bool" where
  "same_name a b \<longleftrightarrow> map lower a = map lower b"

definition WhatBasicRegister :: "string \<Rightarrow> u32 \<Rightarrow> thread_ctx \<Rightarrow> thread_ctx" where
  "WhatBasicRegister n val ctx =
     (if same_name n ''EAX'' then ctx\<lparr>Eax := val\<rparr>
      else if same_name n ''ECX'' then ctx\<lparr>Ecx := val\<rparr>
      else if same_name n ''EDX'' then ctx\<lparr>Edx := val\<rparr>
      else if same_name n ''EBX'' then ctx\<lparr>Ebx := val\<rparr>
      else if same_name n ''ESP'' then ctx\<lparr>Esp := val\<rparr>
      else if same_name n ''EBP'' then ctx\<lparr>Ebp := val\<rparr>
      else if same_name n ''ESI'' then ctx\<lparr>Esi := val\<rparr>
      else if same_name n ''EDI'' then ctx\<lparr>Edi := val\<rparr>
      else if same_name n ''EIP'' then ctx\<lparr>Eip := val\<rparr>
      else if same_name n ''ES'' then ctx\<lparr>SegEs := val\<rparr>
      else if same_name n ''CS'' then ctx\<lparr>SegCs := val\<rparr>
      else if same_name n ''SS'' then ctx\<lparr>SegSs := val\<rparr>
      else if same_name n ''DS'' then ctx\<lparr>SegDs := val\<rparr>
      else if same_name n ''FS'' then ctx\<lparr>SegFs := val\<rparr>
      else if same_name n ''GS'' then ctx\<lparr>SegGs := val\<rparr>
      else ctx)"

text \<open>\<open>tmp\<close>, \<open>u\<close> and \<open>u_new\<close> are what the local variables held before.\<close>

definition EditRegister :: "'s tracer \<Rightarrow> widgets \<Rightarrow> u32 \<Rightarrow> thread_ctx \<Rightarrow> thread_ctx \<Rightarrow> string \<Rightarrow> string \<Rightarrow> reg_ctrl \<times> 's \<Rightarrow> reg_ctrl \<times> 's" where
  "EditRegister T W tmp u u_new n old rs =
     (let (r, s) = rs;
          tmp = ToULong W old tmp;
          answer = wxGetTextFromUser W n (hex_text (unat tmp))
      in if answer = [] then (r, s)
         else let ctx = snd (trc_get_thread_ctx T (ctrl_sesId r) (ctrl_tid r) u s);
                  tmp = ToULong W answer tmp;
                  ctx = WhatBasicRegister n tmp ctx;
                  (set_ok, s) = trc_set_thread_ctx T (ctrl_sesId r) (ctrl_tid r) ctx s;
                  r = (if set_ok = 0 then r\<lparr>errors := errors r @ [''Can't set '' @ n @ '' value'']\<rparr> else r);
                  (get_ok, ctx_new) = trc_get_thread_ctx T (ctrl_sesId r) (ctrl_tid r) u_new s;
                  r = (if get_ok = 0 then r\<lparr>errors := errors r @ [''Can't get '' @ n @ '' value'']\<rparr> else r)
              in (OutputBasic ctx_new r, s))"

section \<open>The mouse\<close>

text \<open>\<open>Find\<close> of a string is not \<open>wxNOT_FOUND\<close>.\<close>

fun occurs_in :: "string \<Rightarrow> string \<Rightarrow> bool" where
  "occurs_in p [] \<longleftrightarrow> p = []"
| "occurs_in p (c # cs) \<longleftrightarrow> take (length p) (c # cs) = p \<or> occurs_in p cs"

text \<open>The loop over the names: the register to edit. The search ends at the first name that is in the line.\<close>

fun clicked_register :: "string \<Rightarrow> string \<Rightarrow> string list \<Rightarrow> string option" where
  "clicked_register line str [] = None"
| "clicked_register line str (n # ns) =
     (if occurs_in n line \<and> str \<notin> set RegistersName then Some n else clicked_register line str ns)"

text \<open>
  A double click: the line under the mouse and the selected text come from the widget. \<open>GetLineText\<close> is a line
  of the text.
\<close>

fun lines_of :: "string \<Rightarrow> string list" where
  "lines_of [] = [[]]"
| "lines_of (c # cs) = (if c = newline then [] # lines_of cs else (c # hd (lines_of cs)) # tl (lines_of cs))"

definition OnLeftDClick :: "'s tracer \<Rightarrow> widgets \<Rightarrow> u32 \<Rightarrow> thread_ctx \<Rightarrow> thread_ctx \<Rightarrow> nat \<Rightarrow> string \<Rightarrow> reg_ctrl \<times> 's \<Rightarrow> reg_ctrl \<times> 's" where
  "OnLeftDClick T W tmp u u_new line_pos str rs =
     (let lines = lines_of (ctrl_text (fst rs));
          line = (if line_pos < length lines then lines ! line_pos else [])
      in case clicked_register line str RegistersName of
           None \<Rightarrow> rs
         | Some n \<Rightarrow> EditRegister T W tmp u u_new n str rs)"

end
