(* ===== verification/Ui_Register_Properties.thy ===== *)
theory Ui_Register_Properties
  imports Ui_Registers
begin

text \<open>
  What a double click in the window of the registers does.
\<close>

section \<open>Finding the register of a line\<close>

lemma hex_padded_chars: "set (hex_padded p n) \<subseteq> set ''0123456789ABCDEF''"
proof -
  have "\<forall>d \<in> set [0..<16]. hex_digit d \<in> set ''0123456789ABCDEF''" by code_simp
  then have "hex_digit d \<in> set ''0123456789ABCDEF''" if "d < 16" for d using that by (simp del: set_upt add: atLeastLessThan_upt [symmetric])
  then have "set (hex_text n) \<subseteq> set ''0123456789ABCDEF''"
    using hex_digits_value(2) [of n] unfolding hex_text_digits by auto
  then show ?thesis by (auto simp: hex_padded_def)
qed

lemma occurs_in_chars: "occurs_in p s \<Longrightarrow> set p \<subseteq> set s"
proof (induction s)
  case (Cons c cs)
  then show ?case using set_take_subset [of "length p" "c # cs"] by auto
qed simp

lemma occurs_in_tab:
  assumes "tab \<notin> set p" and "p \<noteq> []"
  shows "occurs_in p (n @ tab # ds) \<longleftrightarrow> occurs_in p n \<or> occurs_in p ds"
proof (induction n)
  case Nil
  have "take (length p) (tab # ds) \<noteq> p" using assms by (cases p) auto
  then show ?case using assms(2) by simp
next
  case (Cons c n)
  have "take (length p) (c # n @ tab # ds) = p \<longleftrightarrow> take (length p) (c # n) = p"
  proof (cases "length p \<le> Suc (length n)")
    case True
    then have "take (length p) ((c # n) @ tab # ds) = take (length p) (c # n)" by (subst take_append) simp
    then show ?thesis by (simp only: append_Cons)
  next
    case False
    then obtain k where k: "length p = length (c # n) + Suc k" using less_natE [of "Suc (length n)" "length p"] by auto
    have "take (length p) ((c # n) @ tab # ds) = (c # n) @ tab # take k ds" by (simp add: k)
    then have "take (length p) (c # n @ tab # ds) \<noteq> p" using assms(1) by auto
    moreover have "length (take (length p) (c # n)) \<noteq> length p" using False by simp
    then have "take (length p) (c # n) \<noteq> p" by metis
    ultimately show ?thesis by simp
  qed
  then show ?case using Cons.IH by simp
qed

lemma register_names:
  "\<forall>m \<in> set RegistersName. m \<noteq> [] \<and> tab \<notin> set m \<and> (\<exists>c \<in> set m. c \<notin> set ''0123456789ABCDEF'')"
  "\<forall>n \<in> set RegistersName. List.find (\<lambda>m. occurs_in m n) RegistersName = Some n"
  "\<forall>m \<in> set RegistersName. \<not> occurs_in m ''EFL''"
  by code_simp+

lemma occurs_in_reg_line: "m \<in> set RegistersName \<Longrightarrow> occurs_in m (reg_line n v) \<longleftrightarrow> occurs_in m n"
proof -
  assume m: "m \<in> set RegistersName"
  then have "\<not> occurs_in m (hex_padded 8 (unat v))"
    using register_names(1) hex_padded_chars [of 8 "unat v"] occurs_in_chars [of m] by blast
  then show ?thesis using occurs_in_tab m register_names(1) by (auto simp: reg_line_def)
qed

lemma clicked_find: "str \<notin> set RegistersName \<Longrightarrow> clicked_register line str ns = List.find (\<lambda>m. occurs_in m line) ns"
  by (induction ns) auto

lemma clicked_name: "str \<in> set RegistersName \<Longrightarrow> clicked_register line str ns = None"
  by (induction ns) auto

lemma clicked_reg_line:
  assumes "str \<notin> set RegistersName"
  shows "clicked_register (reg_line n v) str RegistersName = List.find (\<lambda>m. occurs_in m n) RegistersName"
  unfolding clicked_find [OF assms] by (rule find_cong) (auto simp: occurs_in_reg_line)

section \<open>Lines\<close>

lemma lines_of_append: "newline \<notin> set l \<Longrightarrow> lines_of (l @ newline # s) = l # lines_of s"
  by (induction l) auto

lemma lines_of_line: "newline \<notin> set l \<Longrightarrow> lines_of l = [l]"
  by (induction l) auto

lemma lines_of_join: "ls \<noteq> [] \<Longrightarrow> \<forall>l \<in> set ls. newline \<notin> set l \<Longrightarrow> lines_of (join_lines ls) = ls"
  by (induction ls rule: join_lines.induct) (simp_all add: lines_of_append lines_of_line)

lemma reg_line_no_newline: "newline \<notin> set n \<Longrightarrow> newline \<notin> set (reg_line n v)"
  using hex_padded_chars [of 8 "unat v"] by (auto simp: reg_line_def)

lemma lines_of_basic: "lines_of (join_lines (basic_lines ctx)) = basic_lines ctx"
  by (rule lines_of_join) (auto simp: basic_lines_def reg_line_no_newline)


section \<open>Editing\<close>

text \<open>The registers by their names, and the register in each line of the window.\<close>

definition register :: "string \<Rightarrow> thread_ctx \<Rightarrow> u32" where
  "register n ctx = the (map_of
     [(''EAX'', Eax ctx), (''ECX'', Ecx ctx), (''EDX'', Edx ctx), (''EBX'', Ebx ctx), (''ESP'', Esp ctx), (''EBP'', Ebp ctx),
      (''ESI'', Esi ctx), (''EDI'', Edi ctx), (''EIP'', Eip ctx), (''ES'', SegEs ctx), (''CS'', SegCs ctx), (''SS'', SegSs ctx),
      (''DS'', SegDs ctx), (''FS'', SegFs ctx), (''GS'', SegGs ctx)] n)"

definition register_row :: "string \<Rightarrow> nat" where
  "register_row n = the (map_of (zip RegistersName [0, 1, 2, 3, 4, 5, 6, 7, 9, 11, 12, 13, 14, 15, 16]) n)"

definition upper :: "char \<Rightarrow> bool" where
  "upper c \<longleftrightarrow> 65 \<le> (of_char c :: nat) \<and> (of_char c :: nat) \<le> 90"

lemma lower_upper: "upper c \<Longrightarrow> of_char (lower c) = (of_char c + 32 :: nat)"
  by (simp add: lower_def upper_def)

lemma inj_lower: "inj_on lower {c. upper c}"
proof (rule inj_onI, simp)
  fix c d
  assume "upper c" "upper d" "lower c = lower d"
  then have "of_char c = (of_char d :: nat)" using lower_upper by (metis add_right_cancel)
  then show "c = d" by simp
qed

lemma upper_names: "\<forall>n \<in> set RegistersName. \<forall>c \<in> set n. upper c"
  by (simp add: RegistersName_def upper_def)

lemma same_register_name:
  assumes "n \<in> set RegistersName" and "m \<in> set RegistersName"
  shows "same_name n m \<longleftrightarrow> n = m"
  using assms upper_names unfolding same_name_def by (intro inj_on_map_eq_map inj_on_subset [OF inj_lower]) auto

lemma register_cases:
  assumes "n \<in> set RegistersName"
  obtains "n = ''EAX''" | "n = ''ECX''" | "n = ''EDX''" | "n = ''EBX''" | "n = ''ESP''" | "n = ''EBP''" | "n = ''ESI''" | "n = ''EDI''"
    | "n = ''EIP''" | "n = ''ES''" | "n = ''CS''" | "n = ''SS''" | "n = ''DS''" | "n = ''FS''" | "n = ''GS''"
  using assms unfolding RegistersName_def list.set insert_iff empty_iff by (elim disjE FalseE) (erule that)+

lemma names_in [simp]:
  "''EAX'' \<in> set RegistersName" "''ECX'' \<in> set RegistersName" "''EDX'' \<in> set RegistersName" "''EBX'' \<in> set RegistersName"
  "''ESP'' \<in> set RegistersName" "''EBP'' \<in> set RegistersName" "''ESI'' \<in> set RegistersName" "''EDI'' \<in> set RegistersName"
  "''EIP'' \<in> set RegistersName" "''ES'' \<in> set RegistersName" "''CS'' \<in> set RegistersName" "''SS'' \<in> set RegistersName"
  "''DS'' \<in> set RegistersName" "''FS'' \<in> set RegistersName" "''GS'' \<in> set RegistersName"
  by (simp_all add: RegistersName_def)

lemma register_rows [simp]:
  "register_row ''EAX'' = 0" "register_row ''ECX'' = 1" "register_row ''EDX'' = 2" "register_row ''EBX'' = 3"
  "register_row ''ESP'' = 4" "register_row ''EBP'' = 5" "register_row ''ESI'' = 6" "register_row ''EDI'' = 7"
  "register_row ''EIP'' = 9" "register_row ''ES'' = 11" "register_row ''CS'' = 12" "register_row ''SS'' = 13"
  "register_row ''DS'' = 14" "register_row ''FS'' = 15" "register_row ''GS'' = 16"
  by (simp_all add: register_row_def RegistersName_def)

lemma register_row_line:
  assumes "n \<in> set RegistersName"
  shows "register_row n < length (basic_lines ctx) \<and> basic_lines ctx ! register_row n = reg_line n (register n ctx)"
  by (rule register_cases [OF assms]) (simp_all add: basic_lines_def register_def)

lemma what_basic_register:
  assumes "n \<in> set RegistersName"
  shows "basic_lines (WhatBasicRegister n v ctx) = (basic_lines ctx)[register_row n := reg_line n v]"
proof -
  note same = names_in [THEN same_register_name [OF assms]]
  show ?thesis
    unfolding WhatBasicRegister_def same
    by (rule register_cases [OF assms]; simp add: basic_lines_def)
qed

lemma register_row_inj: "n \<in> set RegistersName \<Longrightarrow> m \<in> set RegistersName \<Longrightarrow> register_row m = register_row n \<longleftrightarrow> m = n"
proof -
  have "distinct (map register_row RegistersName)" unfolding RegistersName_def by simp
  then show "n \<in> set RegistersName \<Longrightarrow> m \<in> set RegistersName \<Longrightarrow> register_row m = register_row n \<longleftrightarrow> m = n"
    by (auto simp: distinct_map dest: inj_onD)
qed

lemma reg_line_inj: "reg_line n v = reg_line n w \<longleftrightarrow> v = w"
proof -
  have read: "htodw (hex_padded 8 (unat x)) = x" for x using hex_padded_read [of "[]" 8 "unat x"] by (simp add: ends_number_def)
  have "reg_line n v = reg_line n w \<longleftrightarrow> hex_padded 8 (unat v) = hex_padded 8 (unat w)" by (simp add: reg_line_def)
  then show ?thesis using read [of v] read [of w] by metis
qed

lemma what_changes_one:
  assumes "n \<in> set RegistersName" and "m \<in> set RegistersName"
  shows "register m (WhatBasicRegister n v ctx) = (if m = n then v else register m ctx)"
proof -
  let ?ctx = "WhatBasicRegister n v ctx"
  have "reg_line m (register m ?ctx) = basic_lines ?ctx ! register_row m" using register_row_line [OF assms(2)] by simp
  also have "\<dots> = (if m = n then reg_line n v else reg_line m (register m ctx))"
    using register_row_line [OF assms(1), of ctx] register_row_line [OF assms(2), of ctx] register_row_inj [OF assms(2,1)]
    by (simp add: what_basic_register [OF assms(1)] nth_list_update)
  finally show ?thesis by (simp add: reg_line_inj split: if_splits)
qed

text \<open>What the tracer promises: a context that was set is read back.\<close>

definition stores_contexts :: "'s tracer \<Rightarrow> u32 \<Rightarrow> u32 \<Rightarrow> bool" where
  "stores_contexts T ses tid \<longleftrightarrow> (\<forall>c s. fst (trc_set_thread_ctx T ses tid c s) \<noteq> 0
     \<and> (\<forall>u. trc_get_thread_ctx T ses tid u (snd (trc_set_thread_ctx T ses tid c s)) = (1, c)))"

lemma no_register_line:
  assumes "\<forall>m \<in> set RegistersName. i \<noteq> register_row m"
  shows "(if i < length (basic_lines ctx) then basic_lines ctx ! i else []) \<in> {[], reg_line ''EFL'' (EFlags ctx)}"
proof -
  have "i \<noteq> 0" "i \<noteq> 1" "i \<noteq> 2" "i \<noteq> 3" "i \<noteq> 4" "i \<noteq> 5" "i \<noteq> 6" "i \<noteq> 7" "i \<noteq> 9" "i \<noteq> 11" "i \<noteq> 12" "i \<noteq> 13" "i \<noteq> 14"
      "i \<noteq> 15" "i \<noteq> 16"
    using assms [THEN bspec, OF names_in(1)] assms [THEN bspec, OF names_in(2)] assms [THEN bspec, OF names_in(3)]
      assms [THEN bspec, OF names_in(4)] assms [THEN bspec, OF names_in(5)] assms [THEN bspec, OF names_in(6)]
      assms [THEN bspec, OF names_in(7)] assms [THEN bspec, OF names_in(8)] assms [THEN bspec, OF names_in(9)]
      assms [THEN bspec, OF names_in(10)] assms [THEN bspec, OF names_in(11)] assms [THEN bspec, OF names_in(12)]
      assms [THEN bspec, OF names_in(13)] assms [THEN bspec, OF names_in(14)] assms [THEN bspec, OF names_in(15)]
    by simp_all
  moreover have "length (basic_lines ctx) = 19" by (simp add: basic_lines_def)
  ultimately have "i = 8 \<or> i = 10 \<or> i = 17 \<or> i = 18 \<or> \<not> i < length (basic_lines ctx)" by presburger
  then show ?thesis by (elim disjE) (simp_all add: basic_lines_def)
qed

lemma clicked_nothing:
  assumes "\<forall>m \<in> set RegistersName. i \<noteq> register_row m"
  shows "clicked_register (if i < length (basic_lines ctx) then basic_lines ctx ! i else []) str RegistersName = None"
proof (cases "str \<in> set RegistersName")
  case False
  have "List.find (\<lambda>m. occurs_in m []) RegistersName = None" "List.find (\<lambda>m. occurs_in m ''EFL'') RegistersName = None"
    using register_names by (auto simp: find_None_iff)
  then show ?thesis
    using no_register_line [OF assms, of ctx] False clicked_reg_line [OF False, of "''EFL''"] clicked_find [OF False, of "[]"] by auto
qed (simp add: clicked_name)

text \<open>C33: A double click on the line of a register, with anything selected that is not the name of a register,
  asks the user with the selected number as the default and changes this register of the thread, no
  other one and no other part of the context; the window then shows the new context, which differs
  in this line only. An empty answer changes nothing, and neither does a double click on a line
  without a register, such as that of the flags, whatever is selected.\<close>

theorem dclick_edits_register:
  assumes "n \<in> set RegistersName" and "ctrl_text r = join_lines (basic_lines shown)" and "str \<notin> set RegistersName"
    and "stores_contexts T (ctrl_sesId r) (ctrl_tid r)"
    and "trc_get_thread_ctx T (ctrl_sesId r) (ctrl_tid r) u s = (1, ctx)"
    and "answer = wxGetTextFromUser W n (hex_text (unat (ToULong W str tmp)))"
    and "ToULong W answer (ToULong W str tmp) = v"
  shows "OnLeftDClick T W tmp u u' (register_row n) str (r, s) =
      (if answer = [] then (r, s)
       else (r\<lparr>ctrl_text := join_lines ((basic_lines ctx)[register_row n := reg_line n v])\<rparr>,
             snd (trc_set_thread_ctx T (ctrl_sesId r) (ctrl_tid r) (WhatBasicRegister n v ctx) s)))
    \<and> (\<forall>m \<in> set RegistersName. register m (WhatBasicRegister n v ctx) = (if m = n then v else register m ctx))
    \<and> EFlags (WhatBasicRegister n v ctx) = EFlags ctx \<and> other (WhatBasicRegister n v ctx) = other ctx
    \<and> (\<forall>i any. (\<forall>m \<in> set RegistersName. i \<noteq> register_row m) \<longrightarrow> OnLeftDClick T W tmp u u' i any (r, s) = (r, s))"
proof (intro conjI ballI allI impI)
  have line: "lines_of (ctrl_text r) ! register_row n = reg_line n (register n shown)"
      "register_row n < length (lines_of (ctrl_text r))"
    using register_row_line [OF assms(1)] by (simp_all add: assms(2) lines_of_basic)
  have "clicked_register (reg_line n (register n shown)) str RegistersName = Some n"
    using register_names(2) assms(1) by (simp add: clicked_reg_line [OF assms(3)])
  then show "OnLeftDClick T W tmp u u' (register_row n) str (r, s) =
      (if answer = [] then (r, s)
       else (r\<lparr>ctrl_text := join_lines ((basic_lines ctx)[register_row n := reg_line n v])\<rparr>,
             snd (trc_set_thread_ctx T (ctrl_sesId r) (ctrl_tid r) (WhatBasicRegister n v ctx) s)))"
    using assms(4-7) what_basic_register [OF assms(1)]
    by (auto simp: OnLeftDClick_def EditRegister_def line Let_def stores_contexts_def split_def OutputBasic_def)
next
  fix m
  assume "m \<in> set RegistersName"
  then show "register m (WhatBasicRegister n v ctx) = (if m = n then v else register m ctx)"
    by (rule what_changes_one [OF assms(1)])
next
  show "EFlags (WhatBasicRegister n v ctx) = EFlags ctx" "other (WhatBasicRegister n v ctx) = other ctx"
    by (simp_all add: WhatBasicRegister_def)
next
  fix i any
  assume "\<forall>m \<in> set RegistersName. i \<noteq> register_row m"
  then show "OnLeftDClick T W tmp u u' i any (r, s) = (r, s)"
    using clicked_nothing [of i shown any] by (simp add: OnLeftDClick_def assms(2) lines_of_basic Let_def)
qed


definition demo_tracer :: "thread_ctx tracer" where
  "demo_tracer = \<lparr>trc_get_thread_ctx = \<lambda>ses tid u s. (1, s), trc_set_thread_ctx = \<lambda>ses tid c s. (1, c)\<rparr>"

definition demo_widgets :: widgets where
  "demo_widgets = \<lparr>ToULong = \<lambda>str old. htodw str, wxGetTextFromUser = \<lambda>title default. ''1F''\<rparr>"

definition demo_ctx :: thread_ctx where
  "demo_ctx = \<lparr>Dr0 = 0, Dr1 = 0, Dr2 = 0, Dr3 = 0, Dr6 = 0, Dr7 = 0, SegGs = 0, SegFs = 0x3B, SegEs = 0x23, SegDs = 0x23, Edi = 0,
     Esi = 5, Ebx = 0, Edx = 0, Ecx = 0, Eax = 1, Ebp = 0x12FF88, Eip = 0x401000, SegCs = 0x1B, EFlags = 0x246, Esp = 0x12FF80,
     SegSs = 0x23, other = []\<rparr>"

definition demo_ctrl :: reg_ctrl where
  "demo_ctrl = \<lparr>ctrl_sesId = 1, ctrl_tid = 2, ctrl_text = join_lines (basic_lines demo_ctx), errors = []\<rparr>"

lemma dclick_edits_register_witness:
  "snd (OnLeftDClick demo_tracer demo_widgets 0 demo_ctx demo_ctx 6 ''00000005'' (demo_ctrl, demo_ctx)) = demo_ctx\<lparr>Esi := 0x1F\<rparr>"
proof -
  have stores: "stores_contexts demo_tracer (ctrl_sesId demo_ctrl) (ctrl_tid demo_ctrl)"
    by (simp add: stores_contexts_def demo_tracer_def)
  have read: "trc_get_thread_ctx demo_tracer (ctrl_sesId demo_ctrl) (ctrl_tid demo_ctrl) demo_ctx demo_ctx = (1, demo_ctx)"
    by (simp add: demo_tracer_def)
  have shown: "ctrl_text demo_ctrl = join_lines (basic_lines demo_ctx)" by (simp add: demo_ctrl_def)
  have "''00000005'' \<notin> set RegistersName" by (simp add: RegistersName_def)
  note edit = dclick_edits_register [OF names_in(7) shown this stores read refl refl]
  have "htodw ''1F'' = 0x1F" by code_simp
  then have reads: "ToULong demo_widgets ''1F'' x = 0x1F" for x by (simp add: demo_widgets_def)
  have answer: "wxGetTextFromUser demo_widgets n d = ''1F''" for n d by (simp add: demo_widgets_def)
  have "snd (OnLeftDClick demo_tracer demo_widgets 0 demo_ctx demo_ctx (register_row ''ESI'') ''00000005'' (demo_ctrl, demo_ctx))
      = snd (trc_set_thread_ctx demo_tracer (ctrl_sesId demo_ctrl) (ctrl_tid demo_ctrl) (WhatBasicRegister ''ESI'' 0x1F demo_ctx) demo_ctx)"
    using conjunct1 [OF edit] by (simp add: answer reads)
  also have "\<dots> = WhatBasicRegister ''ESI'' 0x1F demo_ctx" by (simp add: demo_tracer_def)
  also have "\<dots> = demo_ctx\<lparr>Esi := 0x1F\<rparr>"
    unfolding WhatBasicRegister_def names_in [THEN same_register_name [OF names_in(7)]] by simp
  finally show ?thesis by simp
qed

end
