(* ===== verification/Ui_Disasm.thy ===== *)
theory Ui_Disasm
  imports Ops Ui_Text
begin

text \<open>
  The disassembly window: \<open>disasm.cpp\<close>, which lists the instructions in a piece of memory, the list of
  \<open>cpuframe.cpp\<close> and \<open>cpulistview.cpp\<close>, and how a breakpoint gets from a line of it to the tracer
  (\<open>OnMsgBP\<close> of \<open>mainframe.cpp\<close>) and back to the list of breakpoints (\<open>bpframe.cpp\<close>), all under \<open>src/ui/src\<close>. The
  decoder of instructions and the tracer are not in the repository: they are parameters. Memory is
  always allocated.
\<close>

section \<open>State and parameters\<close>

text \<open>\<open>InstrDecode\<close> is the length of the instruction the bytes begin with, or zero; \<open>MakeMnemonic\<close> its text at an address.\<close>

record decoder =
  InstrDecode :: "u8 list \<Rightarrow> nat"
  MakeMnemonic :: "u8 list \<Rightarrow> u32 \<Rightarrow> string"

text \<open>\<open>TMnemonic\<close>; the strings are arrays of 50 characters.\<close>

record mnemonic =
  InstLen :: nat
  AddrStr :: string
  HexDump :: string
  AsmCode :: string
  Comment :: string                  \<comment> \<open>never set\<close>

abbreviation (input) NUL :: char where "NUL \<equiv> CHR 0x00"

definition strncpy50 :: "string \<Rightarrow> string" where
  "strncpy50 s = take 50 (s @ replicate 50 NUL)"

definition c_str :: "string \<Rightarrow> string" where
  "c_str s = takeWhile (\<lambda>c. c \<noteq> NUL) s"

section \<open>One instruction\<close>

text \<open>
  The loop over the characters of the mnemonic: the digits of the instruction, up to the first space, go
  to \<open>HexDump\<close>, the rest to \<open>AsmCode\<close>. \<open>h\<close> is the static \<open>str_hex\<close>, which keeps its characters from call to call.
\<close>

fun asm_loop :: "bool \<Rightarrow> string \<Rightarrow> mnemonic \<Rightarrow> string \<Rightarrow> mnemonic \<times> string" where
  "asm_loop end_hex h m [] = (m, h)"
| "asm_loop end_hex h m (c # cs) =
     (let h = h @ [c];
          (m, h, end_hex) = (if \<not> end_hex \<and> c = CHR '' '' then (m\<lparr>HexDump := strncpy50 h\<rparr>, [], True) else (m, h, end_hex))
      in if end_hex \<and> cs = [] then (m\<lparr>AsmCode := strncpy50 h\<rparr>, []) else asm_loop end_hex h m cs)"

text \<open>\<open>u\<close> is what the row held before. A text of 50 characters or more does not fit.\<close>

definition disasm :: "decoder \<Rightarrow> u8 list \<Rightarrow> u32 \<Rightarrow> mnemonic \<Rightarrow> string \<Rightarrow> fault + mnemonic \<times> string" where
  "disasm D bytes true_addr u h =
     (let len = InstrDecode D bytes; asm = MakeMnemonic D bytes true_addr in
      if 50 \<le> length asm then Inl Out_Of_Bounds
      else Inr (asm_loop False h
        (u\<lparr>InstLen := len, HexDump := map (\<lambda>b. char_of (unat b)) (take len bytes) @ drop len (HexDump u),
           AddrStr := strncpy50 (hex_padded 8 (unat true_addr)), AsmCode := asm @ NUL # drop (Suc (length asm)) (AsmCode u)\<rparr>) asm))"

section \<open>A piece of memory\<close>

text \<open>\<open>GetCmdCount\<close>: how many instructions there are until the bytes from \<open>i\<close> on are used up.\<close>

function get_cmd_count :: "decoder \<Rightarrow> u8 list \<Rightarrow> nat \<Rightarrow> nat \<Rightarrow> nat" where
  "get_cmd_count D buf orig_size i =
     (let len = InstrDecode D (drop i buf) in
      if len = 0 then 0
      else if orig_size \<le> i + len then 1
      else Suc (get_cmd_count D buf orig_size (i + len)))"
  by pat_completeness auto
termination by (relation "measure (\<lambda>(D, buf, orig_size, i). orig_size - i)") (auto simp: Let_def)

declare get_cmd_count.simps [simp del]

fun dasm_loop :: "decoder \<Rightarrow> mnemonic \<Rightarrow> u8 list \<Rightarrow> nat \<Rightarrow> nat \<Rightarrow> u32 \<Rightarrow> string \<Rightarrow> fault + mnemonic list \<times> string" where
  "dasm_loop D u buf 0 b a h = Inr ([], h)"
| "dasm_loop D u buf (Suc n) b a h =
     (case disasm D (drop b buf) a u h of
        Inl e \<Rightarrow> Inl e
      | Inr (m, h) \<Rightarrow>
          (case dasm_loop D u buf n (b + InstLen m) (a + word_of_nat (InstLen m)) h of
             Inl e \<Rightarrow> Inl e
           | Inr (ms, h) \<Rightarrow> Inr (m # ms, h)))"

text \<open>\<open>read\<close> is \<open>trc_read_memory\<close>. The answer is \<open>None\<close> for \<open>NULL\<close>. The buffer is never freed.\<close>

definition DasmDisasmCmd :: "decoder \<Rightarrow> (u32 \<Rightarrow> nat \<Rightarrow> u8 list option) \<Rightarrow> mnemonic \<Rightarrow> u32 \<Rightarrow> nat \<Rightarrow> string
    \<Rightarrow> fault + mnemonic list option \<times> string" where
  "DasmDisasmCmd D read u a sz h =
     (case read a (sz + 16) of
        None \<Rightarrow> Inr (None, h)
      | Some buf \<Rightarrow>
          (let count = (if sz = 0 then 1 else get_cmd_count D buf sz 0) in
           if count = 0 then Inr (None, h)
           else (case dasm_loop D u buf count 0 a h of
                   Inl e \<Rightarrow> Inl e
                 | Inr (ms, h) \<Rightarrow> Inr (Some ms, h))))"

section \<open>The list\<close>

record cpu_list =
  items :: "(string \<times> string \<times> string) list"
  m_address :: string
  m_hexdump :: string
  m_disassembly :: string

datatype trc_event_code = TRC_EVENT_BREAKPOINT | TRC_EVENT_SINGLE_STEP | Other_Event

text \<open>A string is read up to its terminator; one without a terminator runs on into the next array.\<close>

definition row_texts :: "mnemonic \<Rightarrow> string \<times> string \<times> string" where
  "row_texts m = (c_str (AddrStr m), c_str (HexDump m @ AsmCode m @ Comment m), c_str (AsmCode m @ Comment m))"

definition AddItem :: "decoder \<Rightarrow> (u32 \<Rightarrow> nat \<Rightarrow> u8 list option) \<Rightarrow> mnemonic \<Rightarrow> trc_event_code \<Rightarrow> u32
    \<Rightarrow> cpu_list \<times> string \<Rightarrow> fault + cpu_list \<times> string" where
  "AddItem D read u code eip lh =
     (case lh of (l, h) \<Rightarrow>
        if code = TRC_EVENT_BREAKPOINT \<or> code = TRC_EVENT_SINGLE_STEP
        then (case DasmDisasmCmd D read u eip 0x30 h of
                Inl e \<Rightarrow> Inl e
              | Inr (None, h) \<Rightarrow> Inr (l\<lparr>items := []\<rparr>, h)
              | Inr (Some ms, h) \<Rightarrow> Inr (l\<lparr>items := map row_texts ms\<rparr>, h))
        else Inr (l, h))"

definition OnRightClick :: "nat \<Rightarrow> cpu_list \<Rightarrow> cpu_list" where
  "OnRightClick i l = (if i < length (items l)
     then l\<lparr>m_address := fst (items l ! i), m_hexdump := fst (snd (items l ! i)), m_disassembly := snd (snd (items l ! i))\<rparr>
     else l)"

section \<open>Breakpoints\<close>

datatype gui_msg = GUI_MSG_ADD_BP | GUI_MSG_DEL_BP | GUI_MSG_OTHER

record gui_event =
  gui_id :: gui_msg
  addrBP :: string
  disasmBP :: string
  gui_sesId :: u32
  gui_tid :: u32

definition OnToggleBP :: "gui_event \<Rightarrow> cpu_list \<Rightarrow> gui_event" where
  "OnToggleBP u l = u\<lparr>gui_id := GUI_MSG_ADD_BP, addrBP := m_address l, disasmBP := m_disassembly l\<rparr>"

text \<open>What the tracer is asked for: session, type, thread and address; session, thread, address and types.\<close>

datatype trc_call = Trc_Set_Bp u32 u32 u32 u32 | Trc_Delete_Bp u32 u32 u32 u32

abbreviation (input) TRC_BP_SOFTWARE :: u32 where "TRC_BP_SOFTWARE \<equiv> 1"
abbreviation (input) TRC_HWBP_EXECUTE :: u32 where "TRC_HWBP_EXECUTE \<equiv> 8"

text \<open>
  \<open>OnMsgBP\<close>: \<open>ses\<close> and \<open>tid\<close> are those of the last debug event. The address and the number of the thread are
  converted to \<open>UCHAR\<close> on the way. \<open>u\<close> is the fresh event.
\<close>

definition as_uchar :: "u32 \<Rightarrow> u8" where
  "as_uchar v = ucast v"

definition OnMsgBP :: "u32 \<Rightarrow> u32 \<Rightarrow> gui_event \<Rightarrow> gui_event \<Rightarrow> trc_call list \<times> gui_event" where
  "OnMsgBP ses tid u e =
     (let addrbp = as_uchar (htodw (addrBP e));
          evt = u\<lparr>gui_sesId := ses, gui_tid := tid, addrBP := addrBP e, disasmBP := disasmBP e, gui_id := gui_id e\<rparr>
      in case gui_id e of
           GUI_MSG_ADD_BP \<Rightarrow> ([Trc_Set_Bp ses TRC_BP_SOFTWARE (ucast (as_uchar tid)) (ucast addrbp)], evt)
         | GUI_MSG_DEL_BP \<Rightarrow> ([Trc_Delete_Bp ses (ucast (as_uchar tid)) (ucast addrbp) TRC_BP_SOFTWARE], evt)
         | GUI_MSG_OTHER \<Rightarrow> ([], u\<lparr>gui_id := GUI_MSG_OTHER\<rparr>))"

text \<open>\<open>OnAddBP\<close> of \<open>bpframe.cpp\<close>: \<open>bps\<close> is \<open>trc_get_bp_list\<close>, \<open>None\<close> for \<open>NULL\<close>; \<open>module\<close> the name of the current module.\<close>

definition OnAddBP :: "(u32 \<Rightarrow> u32 \<Rightarrow> u32 list option) \<Rightarrow> string option \<Rightarrow> gui_event \<Rightarrow> fault + (string \<times> string) list" where
  "OnAddBP bps module e =
     (case bps (gui_sesId e) (gui_tid e) of
        None \<Rightarrow> Inl Null_Deref
      | Some as \<Rightarrow> (if as = [] then Inr []
          else (case module of None \<Rightarrow> Inl Null_Deref | Some n \<Rightarrow> Inr (map (\<lambda>a. (hex_text (unat a), n)) as))))"

end
