(* ===== verification/Ui_Disasm_Properties.thy ===== *)
theory Ui_Disasm_Properties
  imports Ui_Disasm
begin

text \<open>
  What the lines of the disassembly window are, and where a breakpoint set from one of them ends up.
\<close>

section \<open>Splitting the text of an instruction\<close>

lemma asm_loop_code: "cs \<noteq> [] \<Longrightarrow> asm_loop True h m cs = (m\<lparr>AsmCode := strncpy50 (h @ cs)\<rparr>, [])"
proof (induction cs arbitrary: h)
  case (Cons c cs)
  then show ?case by (cases cs) (simp_all add: Let_def)
qed simp

text \<open>Without a space nothing is stored, and the text stays in \<open>str_hex\<close>.\<close>

lemma asm_loop_no_space: "CHR '' '' \<notin> set cs \<Longrightarrow> asm_loop False h m cs = (m, h @ cs)"
  by (induction cs arbitrary: h) (auto simp: Let_def)

lemma asm_loop_split:
  assumes "CHR '' '' \<notin> set hex" and "code \<noteq> []"
  shows "asm_loop False h m (hex @ CHR '' '' # code) = (m\<lparr>HexDump := strncpy50 (h @ hex @ '' ''), AsmCode := strncpy50 code\<rparr>, [])"
  using assms(1)
proof (induction hex arbitrary: h)
  case Nil
  then show ?case using assms(2) by (simp add: Let_def asm_loop_code)
next
  case (Cons a hex)
  then have "a \<noteq> CHR '' ''" by auto
  then show ?case using Cons by (simp add: Let_def)
qed

lemma c_str_strncpy50:
  assumes "length s < 50" and "NUL \<notin> set s"
  shows "c_str (strncpy50 s @ t) = s"
proof -
  have "strncpy50 s = s @ replicate (50 - length s) NUL" using assms(1) by (simp add: strncpy50_def)
  moreover obtain k where "50 - length s = Suc k" using assms(1) by (metis Suc_diff_Suc)
  ultimately have "strncpy50 s @ t = s @ NUL # replicate k NUL @ t" by simp
  moreover have "\<forall>c \<in> set s. c \<noteq> NUL" using assms(2) by auto
  ultimately show ?thesis by (simp add: c_str_def)
qed

section \<open>The lines\<close>

text \<open>
  What the code relies on: the text of an instruction begins with its bytes as digits, then comes a
  space, then the code, and all of it fits.
\<close>

definition texts_ok :: "decoder \<Rightarrow> bool" where
  "texts_ok D \<longleftrightarrow> (\<forall>bs a. \<exists>hex code. MakeMnemonic D bs a = hex @ CHR '' '' # code \<and> CHR '' '' \<notin> set hex \<and> code \<noteq> []
     \<and> NUL \<notin> set hex \<and> NUL \<notin> set code \<and> length hex + length code < 49)"

definition listed :: "decoder \<Rightarrow> u8 list \<Rightarrow> u32 \<Rightarrow> string \<times> string \<times> string" where
  "listed D bs a = (let t = MakeMnemonic D bs a; n = length (takeWhile (\<lambda>c. c \<noteq> CHR '' '') t) in
     (hex_padded 8 (unat a), take (Suc n) t, drop (Suc n) t))"

lemma hex_padded_no_nul: "NUL \<notin> set (hex_padded p n)"
proof -
  have "\<forall>d \<in> set [0..<16]. hex_digit d \<noteq> NUL" by code_simp
  then have "hex_digit d \<noteq> NUL" if "d < 16" for d using that by simp
  then have "NUL \<notin> set (hex_text n)" using hex_digits_value(2) [of n] unfolding hex_text_digits by (metis (no_types, lifting) image_iff list.set_map)
  then show ?thesis by (auto simp: hex_padded_def)
qed

lemma length_hex_padded8: "length (hex_padded 8 (unat (a :: u32))) < 50"
proof -
  have "unat a < 2 ^ 32" using unsigned_less [of a] by simp
  then have "length (hex_text (unat a)) \<le> 8" using length_hex_text [of "unat a" 7] by simp
  then show ?thesis by (simp add: hex_padded_def)
qed

lemma disasm_row:
  assumes "texts_ok D"
  shows "\<exists>m. disasm D bs a u [] = Inr (m, []) \<and> InstLen m = InstrDecode D bs \<and> row_texts m = listed D bs a"
proof -
  obtain hex code where t: "MakeMnemonic D bs a = hex @ CHR '' '' # code" and h: "CHR '' '' \<notin> set hex" and c: "code \<noteq> []"
    and nul: "NUL \<notin> set hex" "NUL \<notin> set code" and len: "length hex + length code < 49"
    using assms unfolding texts_ok_def by blast
  have "c_str (strncpy50 (hex @ '' '') @ x) = hex @ '' ''" for x
    using nul len by (intro c_str_strncpy50) auto
  moreover have "c_str (strncpy50 code @ x) = code" for x using nul len by (intro c_str_strncpy50) auto
  moreover have "c_str (strncpy50 (hex_padded 8 (unat a))) = hex_padded 8 (unat a)"
    using c_str_strncpy50 [of "hex_padded 8 (unat a)" "[]"] length_hex_padded8 hex_padded_no_nul by simp
  moreover have "length (takeWhile (\<lambda>c. c \<noteq> CHR '' '') (hex @ CHR '' '' # code)) = length hex"
  proof -
    have "takeWhile (\<lambda>c. c \<noteq> CHR '' '') (hex @ CHR '' '' # code) = hex"
      using h by (subst takeWhile_append2) auto
    then show ?thesis by simp
  qed
  ultimately show ?thesis
    using len by (auto simp: disasm_def t Let_def asm_loop_split [OF h c] row_texts_def listed_def)
qed

text \<open>Where the instruction \<open>k\<close> begins.\<close>

fun pos :: "decoder \<Rightarrow> u8 list \<Rightarrow> nat \<Rightarrow> nat \<Rightarrow> nat" where
  "pos D buf i 0 = i"
| "pos D buf i (Suc k) = pos D buf (i + InstrDecode D (drop i buf)) k"

lemma pos_ge: "i \<le> pos D buf i k"
proof (induction k arbitrary: i)
  case (Suc k)
  from Suc.IH [of "i + InstrDecode D (drop i buf)"] show ?case by simp
qed simp

lemma dasm_loop_rows:
  assumes "texts_ok D"
  shows "\<exists>ms. dasm_loop D u buf n i (a + word_of_nat i) [] = Inr (ms, []) \<and> length ms = n
    \<and> (\<forall>k < n. row_texts (ms ! k) = listed D (drop (pos D buf i k) buf) (a + word_of_nat (pos D buf i k)))"
proof (induction n arbitrary: i)
  case (Suc n)
  obtain m where m: "disasm D (drop i buf) (a + word_of_nat i) u [] = Inr (m, [])" "InstLen m = InstrDecode D (drop i buf)"
    "row_texts m = listed D (drop i buf) (a + word_of_nat i)"
    using disasm_row [OF assms] by blast
  obtain ms where ms: "dasm_loop D u buf n (i + InstLen m) (a + word_of_nat (i + InstLen m)) [] = Inr (ms, [])" "length ms = n"
    "\<forall>k < n. row_texts (ms ! k) = listed D (drop (pos D buf (i + InstLen m) k) buf) (a + word_of_nat (pos D buf (i + InstLen m) k))"
    using Suc.IH [of "i + InstLen m"] by blast
  have "dasm_loop D u buf (Suc n) i (a + word_of_nat i) [] = Inr (m # ms, [])"
    using m(1) ms(1) by (simp add: add.assoc)
  moreover have "row_texts ((m # ms) ! k) = listed D (drop (pos D buf i k) buf) (a + word_of_nat (pos D buf i k))" if "k < Suc n" for k
    using that m(2,3) ms(3) by (cases k) auto
  ultimately show ?case using ms(2) by (intro exI [of _ "m # ms"]) simp
qed simp

lemma cmd_count:
  assumes "i < sz"
  shows "let n = get_cmd_count D buf sz i in
    (\<forall>k < n. pos D buf i k < sz \<and> 0 < InstrDecode D (drop (pos D buf i k) buf))
    \<and> (sz \<le> pos D buf i n \<or> InstrDecode D (drop (pos D buf i n) buf) = 0)"
  using assms
proof (induction D buf sz i rule: get_cmd_count.induct)
  case (1 D buf sz i)
  let ?len = "InstrDecode D (drop i buf)"
  consider "?len = 0" | "0 < ?len" "sz \<le> i + ?len" | "0 < ?len" "i + ?len < sz" by linarith
  then show ?case
  proof cases
    case 3
    let ?n = "get_cmd_count D buf sz (i + ?len)"
    have count: "get_cmd_count D buf sz i = Suc ?n" using 3 by (subst get_cmd_count.simps) (simp add: Let_def)
    have rest: "(\<forall>k < ?n. pos D buf (i + ?len) k < sz \<and> 0 < InstrDecode D (drop (pos D buf (i + ?len) k) buf))
        \<and> (sz \<le> pos D buf (i + ?len) ?n \<or> InstrDecode D (drop (pos D buf (i + ?len) ?n) buf) = 0)"
      using "1.IH" 3 by (simp add: Let_def)
    then show ?thesis using 3 "1.prems" unfolding count by (simp add: Let_def All_less_Suc2)
  qed (use "1.prems" in \<open>(subst get_cmd_count.simps, simp add: Let_def)+\<close>)
qed


text \<open>The lines list the instructions of \<open>buf\<close>, the bytes at \<open>a\<close>, one after the other.\<close>

definition code_listed :: "decoder \<Rightarrow> u8 list \<Rightarrow> u32 \<Rightarrow> (string \<times> string \<times> string) list \<Rightarrow> bool" where
  "code_listed D buf a rows \<longleftrightarrow> rows \<noteq> []
     \<and> (\<forall>k < length rows. let p = pos D buf 0 k in p < 0x30 \<and> 0 < InstrDecode D (drop p buf)
          \<and> pos D buf 0 (Suc k) = p + InstrDecode D (drop p buf) \<and> rows ! k = listed D (drop p buf) (a + word_of_nat p))
     \<and> (0x30 \<le> pos D buf 0 (length rows) \<or> InstrDecode D (drop (pos D buf 0 (length rows)) buf) = 0)"

lemma pos_step: "pos D buf i (Suc k) = pos D buf i k + InstrDecode D (drop (pos D buf i k) buf)"
  by (induction k arbitrary: i) simp_all

lemma add_item_listed:
  assumes "texts_ok D" and "read eip 0x40 = Some buf" and "0 < InstrDecode D buf"
    and "code = TRC_EVENT_BREAKPOINT \<or> code = TRC_EVENT_SINGLE_STEP"
  shows "\<exists>rows. AddItem D read u code eip (l, []) = Inr (l\<lparr>items := rows\<rparr>, []) \<and> code_listed D buf eip rows"
proof -
  define n where "n = get_cmd_count D buf 0x30 0"
  have count: "(\<forall>k < n. pos D buf 0 k < 0x30 \<and> 0 < InstrDecode D (drop (pos D buf 0 k) buf))
      \<and> (0x30 \<le> pos D buf 0 n \<or> InstrDecode D (drop (pos D buf 0 n) buf) = 0)"
    using cmd_count [of 0 "0x30" D buf] by (simp add: n_def Let_def)
  have "0 < n" using assms(3) unfolding n_def by (subst get_cmd_count.simps) (simp add: Let_def)
  obtain ms where ms: "dasm_loop D u buf n 0 eip [] = Inr (ms, [])" "length ms = n"
    "\<forall>k < n. row_texts (ms ! k) = listed D (drop (pos D buf 0 k) buf) (eip + word_of_nat (pos D buf 0 k))"
    using dasm_loop_rows [OF assms(1), of u buf n 0 eip] by auto
  have "DasmDisasmCmd D read u eip 0x30 [] = Inr (Some ms, [])"
    using assms(2) ms(1) \<open>0 < n\<close> by (simp add: DasmDisasmCmd_def Let_def flip: n_def)
  then have "AddItem D read u code eip (l, []) = Inr (l\<lparr>items := map row_texts ms\<rparr>, [])"
    using assms(4) by (auto simp: AddItem_def)
  moreover have "code_listed D buf eip (map row_texts ms)"
    using count ms(2,3) \<open>0 < n\<close> unfolding code_listed_def Let_def pos_step by auto
  ultimately show ?thesis by blast
qed



text \<open>C35: A breakpoint set from a line of the disassembly window is set at the lowest byte of the address of
  that line, in the thread whose number is the lowest byte of the number of the current thread: in the
  right place only if the address is below 256. The address itself is read back from the line without
  loss; it is shortened after that.\<close>

theorem breakpoint_truncated:
  assumes "k < length (items l)" and "fst (items l ! k) = hex_padded 8 (unat a)"
  shows "let e = OnToggleBP u (OnRightClick k l) in
    htodw (addrBP e) = a \<and> gui_id e = GUI_MSG_ADD_BP
    \<and> fst (OnMsgBP ses tid v e) = [Trc_Set_Bp ses TRC_BP_SOFTWARE (tid AND 0xFF) (a AND 0xFF)]
    \<and> (fst (OnMsgBP ses tid v e) = [Trc_Set_Bp ses TRC_BP_SOFTWARE tid a] \<longleftrightarrow> a < 0x100 \<and> tid < 0x100)"
proof -
  have mask: "(0xFF :: u32) = mask 8" by (simp add: mask_eq_exp_minus_1)
  have low: "ucast (as_uchar x) = x AND 0xFF" for x
    unfolding mask by (rule bit_word_eqI) (auto simp: as_uchar_def bit_simps)
  have small: "x AND 0xFF = x \<longleftrightarrow> x < 0x100" for x :: u32
  proof -
    have "x AND 0xFF = take_bit 8 x" unfolding mask by (simp add: take_bit_eq_mask)
    moreover have "take_bit 8 x = x \<longleftrightarrow> take_bit 8 (unat x) = unat x" by (simp add: word_unat_eq_iff unsigned_take_bit_eq)
    ultimately show ?thesis by (simp add: take_bit_nat_eq_self_iff word_less_nat_alt)
  qed
  have addr: "addrBP (OnToggleBP u (OnRightClick k l)) = hex_padded 8 (unat a)"
    using assms by (simp add: OnToggleBP_def OnRightClick_def)
  have "htodw (hex_padded 8 (unat a)) = a" using hex_padded_read [of "[]" 8 "unat a"] by (simp add: ends_number_def)
  then show ?thesis using addr by (auto simp: Let_def OnMsgBP_def OnToggleBP_def low small)
qed


text \<open>A decoder that knows one instruction.\<close>

definition nop_decoder :: decoder where
  "nop_decoder = \<lparr>InstrDecode = \<lambda>bs. if bs \<noteq> [] \<and> hd bs = 0x90 then 1 else 0, MakeMnemonic = \<lambda>bs a. ''90 nop''\<rparr>"

definition nop_row :: mnemonic where
  "nop_row = \<lparr>InstLen = 0, AddrStr = [], HexDump = [], AsmCode = [], Comment = []\<rparr>"

definition no_lines :: cpu_list where
  "no_lines = \<lparr>items = [], m_address = [], m_hexdump = [], m_disassembly = []\<rparr>"

definition nop_memory :: "u32 \<Rightarrow> nat \<Rightarrow> u8 list option" where
  "nop_memory a n = Some (take n (0x90 # 0x90 # replicate 62 0))"


lemma breakpoint_truncated_witness:
  "fst (OnMsgBP 1 0x5A4 \<lparr>gui_id = GUI_MSG_OTHER, addrBP = [], disasmBP = [], gui_sesId = 0, gui_tid = 0\<rparr>
      (OnToggleBP \<lparr>gui_id = GUI_MSG_OTHER, addrBP = [], disasmBP = [], gui_sesId = 0, gui_tid = 0\<rparr>
        (OnRightClick 0 (no_lines\<lparr>items := [(hex_padded 8 (unat (0x401023 :: u32)), ''90 '', ''nop'')]\<rparr>))))
   = [Trc_Set_Bp 1 TRC_BP_SOFTWARE 0xA4 0x23]"
  using breakpoint_truncated [of 0 "no_lines\<lparr>items := [(hex_padded 8 (unat (0x401023 :: u32)), ''90 '', ''nop'')]\<rparr>" "0x401023"
      "\<lparr>gui_id = GUI_MSG_OTHER, addrBP = [], disasmBP = [], gui_sesId = 0, gui_tid = 0\<rparr>" 1 "0x5A4"
      "\<lparr>gui_id = GUI_MSG_OTHER, addrBP = [], disasmBP = [], gui_sesId = 0, gui_tid = 0\<rparr>"]
  by (simp add: Let_def)

end
