(* ===== verification/Ui_Main.thy ===== *)
theory Ui_Main
  imports Ops Ui_Text
begin

text \<open>
  The main window, \<open>src/ui/src/mainframe.cpp\<close>, as two threads: the tracer calls back on a thread of its own,
  posts an event and waits on a condition; the thread of the windows sets an answer and signals the
  condition. The state machine has a step for every action one thread can see of the other. \<open>Signal\<close>
  wakes a thread that waits at that time and does nothing otherwise, as documented; the mutexes of the
  conditions are never taken. The class \<open>Debugger\<close> (\<open>debugger.cpp\<close>) holds the session.
\<close>

section \<open>State\<close>

definition TRC_EXC_HANDLE :: u32 where "TRC_EXC_HANDLE = 2"
definition TRC_EXC_NOT_HANDLE :: u32 where "TRC_EXC_NOT_HANDLE = 4"
definition TRC_RUN :: u32 where "TRC_RUN = 1"
definition TRC_STEP_INTO :: u32 where "TRC_STEP_INTO = 2"
definition TRC_STEP_OVER :: u32 where "TRC_STEP_OVER = 4"
definition TRC_RUN_TIL_RET :: u32 where "TRC_RUN_TIL_RET = 8"

lemmas trc_consts = TRC_EXC_HANDLE_def TRC_EXC_NOT_HANDLE_def TRC_RUN_def TRC_STEP_INTO_def TRC_STEP_OVER_def TRC_RUN_TIL_RET_def

text \<open>Where the thread of the tracer is, and what the thread of the windows has still to signal.\<close>

datatype trc_thread =
    Running
  | Debug_Posted | Debug_Waiting | Debug_Woken
  | Except_Posted | Except_Waiting | Except_Woken

datatype gui_thread = Gui_Idle | Gui_Signal_Debug | Gui_Signal_Except

datatype answer = Mode u32 | Verdict u32

record main_frame =
  m_trace_mode :: u32
  m_userAnswer :: u32
  trc_thread :: trc_thread
  gui_thread :: gui_thread
  except_events :: nat               \<comment> \<open>posted to the window and not handled yet\<close>
  answers :: "answer list"           \<comment> \<open>what the callbacks returned\<close>

definition new_main_frame :: main_frame where
  "new_main_frame = \<lparr>m_trace_mode = 0, m_userAnswer = 0, trc_thread = Running, gui_thread = Gui_Idle, except_events = 0, answers = []\<rparr>"

section \<open>Callbacks of the tracer\<close>

text \<open>\<open>thunk_dbg_event\<close>: post the event, wait, return the mode.\<close>

definition dbg_event_post :: "main_frame \<Rightarrow> main_frame" where
  "dbg_event_post s = s\<lparr>trc_thread := Debug_Posted\<rparr>"

definition dbg_event_wait :: "main_frame \<Rightarrow> main_frame" where
  "dbg_event_wait s = s\<lparr>trc_thread := Debug_Waiting\<rparr>"

definition dbg_event_return :: "main_frame \<Rightarrow> main_frame" where
  "dbg_event_return s = s\<lparr>trc_thread := Running, answers := answers s @ [Mode (m_trace_mode s)]\<rparr>"

definition except_event_post :: "main_frame \<Rightarrow> main_frame" where
  "except_event_post s = s\<lparr>trc_thread := Except_Posted, except_events := Suc (except_events s)\<rparr>"

definition except_event_wait :: "main_frame \<Rightarrow> main_frame" where
  "except_event_wait s = s\<lparr>trc_thread := Except_Waiting\<rparr>"

definition except_event_return :: "main_frame \<Rightarrow> main_frame" where
  "except_event_return s = s\<lparr>trc_thread := Running,
     answers := answers s @ [Verdict (if m_userAnswer s \<noteq> 0 then TRC_EXC_HANDLE else TRC_EXC_NOT_HANDLE)]\<rparr>"

section \<open>Handlers of the window\<close>

definition signal_debug :: "main_frame \<Rightarrow> main_frame" where
  "signal_debug s = s\<lparr>gui_thread := Gui_Idle,
     trc_thread := (if trc_thread s = Debug_Waiting then Debug_Woken else trc_thread s)\<rparr>"

definition signal_except :: "main_frame \<Rightarrow> main_frame" where
  "signal_except s = s\<lparr>gui_thread := Gui_Idle,
     trc_thread := (if trc_thread s = Except_Waiting then Except_Woken else trc_thread s)\<rparr>"

datatype command = Run | Step_Into | Step_Over | Til_Ret

fun command_mode :: "command \<Rightarrow> u32" where
  "command_mode Run = TRC_RUN"
| "command_mode Step_Into = TRC_STEP_INTO"
| "command_mode Step_Over = TRC_STEP_OVER"
| "command_mode Til_Ret = TRC_RUN_TIL_RET"

text \<open>\<open>OnRun\<close>, \<open>OnStepInto\<close>, \<open>OnStepOver\<close> and \<open>OnTilRet\<close> up to the signal.\<close>

definition on_command :: "command \<Rightarrow> main_frame \<Rightarrow> main_frame" where
  "on_command k s = s\<lparr>m_trace_mode := command_mode k, gui_thread := Gui_Signal_Debug\<rparr>"

text \<open>
  \<open>OnExceptHandle\<close> up to the signal. The answer of \<open>wxMessageBox\<close> is compared with an identifier of a button,
  \<open>wxID_YES\<close>, although it is one of the styles, \<open>wxYES\<close> or \<open>wxNO\<close>.
\<close>

record wx_consts =
  wxYES :: int
  wxNO :: int
  wxID_YES :: int

definition on_except_handle :: "wx_consts \<Rightarrow> int \<Rightarrow> main_frame \<Rightarrow> main_frame" where
  "on_except_handle C box s = s\<lparr>except_events := except_events s - 1,
     m_userAnswer := (if box = wxID_YES C then 1 else 0), gui_thread := Gui_Signal_Except\<rparr>"

section \<open>Steps\<close>

inductive main_step :: "wx_consts \<Rightarrow> main_frame \<Rightarrow> main_frame \<Rightarrow> bool" for C where
  debug_stops: "trc_thread s = Running \<Longrightarrow> main_step C s (dbg_event_post s)"
| debug_waits: "trc_thread s = Debug_Posted \<Longrightarrow> main_step C s (dbg_event_wait s)"
| debug_returns: "trc_thread s = Debug_Woken \<Longrightarrow> main_step C s (dbg_event_return s)"
| except_stops: "trc_thread s = Running \<Longrightarrow> main_step C s (except_event_post s)"
| except_waits: "trc_thread s = Except_Posted \<Longrightarrow> main_step C s (except_event_wait s)"
| except_returns: "trc_thread s = Except_Woken \<Longrightarrow> main_step C s (except_event_return s)"
| command: "gui_thread s = Gui_Idle \<Longrightarrow> main_step C s (on_command k s)"
| signals_debug: "gui_thread s = Gui_Signal_Debug \<Longrightarrow> main_step C s (signal_debug s)"
| asks: "gui_thread s = Gui_Idle \<Longrightarrow> 0 < except_events s \<Longrightarrow> box \<in> {wxYES C, wxNO C} \<Longrightarrow> main_step C s (on_except_handle C box s)"
| signals_except: "gui_thread s = Gui_Signal_Except \<Longrightarrow> main_step C s (signal_except s)"

inductive_cases main_stepE: "main_step C s t"

inductive main_reach :: "wx_consts \<Rightarrow> main_frame \<Rightarrow> main_frame \<Rightarrow> bool" for C s where
  main_refl: "main_reach C s s"
| main_more: "main_reach C s t \<Longrightarrow> main_step C t u \<Longrightarrow> main_reach C s u"

lemmas main_defs = dbg_event_post_def dbg_event_wait_def dbg_event_return_def except_event_post_def except_event_wait_def
  except_event_return_def signal_debug_def signal_except_def on_command_def on_except_handle_def

lemma main_reach_trans: "main_reach C t u \<Longrightarrow> main_reach C s t \<Longrightarrow> main_reach C s u"
  by (induction rule: main_reach.induct) (auto intro: main_more)

lemma main_invariant:
  assumes "main_reach C s t" and "P s" and "\<And>t u. P t \<Longrightarrow> main_step C t u \<Longrightarrow> P u"
  shows "P t"
  using assms by (induction rule: main_reach.induct) auto

end
