(* ===== verification/Ui_Main_Properties.thy ===== *)
theory Ui_Main_Properties
  imports Ui_Main
begin

text \<open>
  What the callbacks of the main window return to the tracer, and when they may never return.
\<close>

section \<open>Answers\<close>

definition answers_ok :: "main_frame \<Rightarrow> bool" where
  "answers_ok s \<longleftrightarrow> m_userAnswer s = 0
     \<and> (\<forall>v. Verdict v \<in> set (answers s) \<longrightarrow> v = TRC_EXC_NOT_HANDLE)
     \<and> (\<forall>m. Mode m \<in> set (answers s) \<longrightarrow> m \<in> range command_mode)
     \<and> (trc_thread s = Debug_Woken \<or> gui_thread s = Gui_Signal_Debug \<longrightarrow> m_trace_mode s \<in> range command_mode)"

lemma answers_ok_step:
  assumes "wxYES C \<noteq> wxID_YES C" and "wxNO C \<noteq> wxID_YES C" and "answers_ok s" and "main_step C s t"
  shows "answers_ok t"
  using assms(4)
proof cases
  case (asks box)
  then show ?thesis using assms(1-3) by (auto simp: answers_ok_def main_defs)
qed (use assms(3) in \<open>auto simp: answers_ok_def main_defs\<close>)

text \<open>C36: Whatever the user answers, every exception the tracer asks about is returned to it as not handled,
  because the answer of the message box is compared with the wrong constant. Every other stop is
  answered with the mode of a command the user gave.\<close>

theorem exceptions_never_handled:
  assumes "main_reach C new_main_frame s" and "wxYES C \<noteq> wxID_YES C" and "wxNO C \<noteq> wxID_YES C"
  shows "set (answers s) \<subseteq> {Verdict TRC_EXC_NOT_HANDLE, Mode TRC_RUN, Mode TRC_STEP_INTO, Mode TRC_STEP_OVER, Mode TRC_RUN_TIL_RET}"
proof -
  have ok: "answers_ok s"
  proof (rule main_invariant [OF assms(1)])
    show "answers_ok new_main_frame" by (simp add: answers_ok_def new_main_frame_def)
  qed (rule answers_ok_step [OF assms(2,3)])
  have modes: "range command_mode = {TRC_RUN, TRC_STEP_INTO, TRC_STEP_OVER, TRC_RUN_TIL_RET}"
  proof (rule equalityI; rule subsetI)
    fix m
    assume "m \<in> range command_mode"
    then obtain k where "m = command_mode k" by auto
    then show "m \<in> {TRC_RUN, TRC_STEP_INTO, TRC_STEP_OVER, TRC_RUN_TIL_RET}" by (cases k) auto
  qed (auto intro: rev_image_eqI [of Run] rev_image_eqI [of Step_Into] rev_image_eqI [of Step_Over] rev_image_eqI [of Til_Ret])
  show ?thesis
  proof
    fix a
    assume a: "a \<in> set (answers s)"
    show "a \<in> {Verdict TRC_EXC_NOT_HANDLE, Mode TRC_RUN, Mode TRC_STEP_INTO, Mode TRC_STEP_OVER, Mode TRC_RUN_TIL_RET}"
    proof (cases a)
      case (Mode m)
      then have "m \<in> range command_mode" using ok a by (simp add: answers_ok_def)
      then show ?thesis unfolding modes Mode by auto
    next
      case (Verdict v)
      then show ?thesis using ok a by (simp add: answers_ok_def)
    qed
  qed
qed

section \<open>Waking up\<close>

definition hangs :: "main_frame \<Rightarrow> bool" where
  "hangs s \<longleftrightarrow> trc_thread s = Except_Waiting \<and> except_events s = 0 \<and> gui_thread s \<noteq> Gui_Signal_Except"

lemma hangs_step: "hangs s \<Longrightarrow> main_step C s t \<Longrightarrow> hangs t"
  by (erule main_stepE) (auto simp: hangs_def main_defs)

text \<open>C37: A stop at a breakpoint can be resumed with every command as long as the tracer waits and the
  window is idle. An exception may hang for ever: if the window handles the event before the thread of
  the tracer has begun to wait, the signal is lost, no event is left that would signal again, and
  whatever happens the callback does not return.\<close>

theorem exception_can_hang:
  "(\<exists>s. main_reach C new_main_frame s \<and> trc_thread s = Except_Waiting
      \<and> (\<forall>t. main_reach C s t \<longrightarrow> trc_thread t = Except_Waiting \<and> answers t = answers s))
   \<and> (\<forall>s k. trc_thread s = Debug_Waiting \<and> gui_thread s = Gui_Idle \<longrightarrow>
      (\<exists>t. main_reach C s t \<and> trc_thread t = Running \<and> answers t = answers s @ [Mode (command_mode k)]))"
proof (intro conjI allI impI)
  let ?s1 = "except_event_post new_main_frame"
  let ?s2 = "on_except_handle C (wxYES C) ?s1"
  let ?s3 = "signal_except ?s2"
  let ?s4 = "except_event_wait ?s3"
  note steps = main_step.intros
  have "main_step C new_main_frame ?s1" by (rule steps) (simp add: new_main_frame_def)
  moreover have "main_step C ?s1 ?s2" by (rule steps) (simp_all add: new_main_frame_def main_defs)
  moreover have "main_step C ?s2 ?s3" by (rule steps) (simp add: main_defs)
  moreover have "main_step C ?s3 ?s4" by (rule steps) (simp add: main_defs new_main_frame_def)
  ultimately have reach: "main_reach C new_main_frame ?s4" by (meson main_refl main_more)
  have hang: "hangs ?s4" by (simp add: hangs_def main_defs new_main_frame_def)
  have "hangs t \<and> answers t = answers ?s4" if "main_reach C ?s4 t" for t
  proof (rule main_invariant [OF that])
    fix t u
    assume t: "hangs t \<and> answers t = answers ?s4" and step: "main_step C t u"
    from step t have "answers u = answers t" by (elim main_stepE) (auto simp: hangs_def main_defs)
    then show "hangs u \<and> answers u = answers ?s4" using t hangs_step [OF _ step] by simp
  qed (simp add: hang)
  then show "\<exists>s. main_reach C new_main_frame s \<and> trc_thread s = Except_Waiting
      \<and> (\<forall>t. main_reach C s t \<longrightarrow> trc_thread t = Except_Waiting \<and> answers t = answers s)"
    using reach hang by (auto simp: hangs_def)
next
  fix s :: main_frame and k
  assume s: "trc_thread s = Debug_Waiting \<and> gui_thread s = Gui_Idle"
  let ?s1 = "on_command k s"
  let ?s2 = "signal_debug ?s1"
  let ?s3 = "dbg_event_return ?s2"
  have "main_step C s ?s1" using s by (intro main_step.command) simp
  moreover have "main_step C ?s1 ?s2" by (rule main_step.signals_debug) (simp add: main_defs)
  moreover have "main_step C ?s2 ?s3" using s by (intro main_step.debug_returns) (simp add: main_defs)
  ultimately have "main_reach C s ?s3" by (meson main_refl main_more)
  then show "\<exists>t. main_reach C s t \<and> trc_thread t = Running \<and> answers t = answers s @ [Mode (command_mode k)]"
    using s by (intro exI [of _ ?s3]) (simp add: main_defs)
qed


section \<open>Concrete runs\<close>

definition msw_consts :: wx_consts where
  "msw_consts = \<lparr>wxYES = 2, wxNO = 8, wxID_YES = 5103\<rparr>"

definition answered_yes :: main_frame where
  "answered_yes = except_event_return (signal_except (on_except_handle msw_consts (wxYES msw_consts)
     (except_event_wait (except_event_post new_main_frame))))"

lemma exceptions_never_handled_witness:
  "answers answered_yes = [Verdict TRC_EXC_NOT_HANDLE] \<and> Verdict TRC_EXC_HANDLE \<notin> set (answers answered_yes)"
proof -
  let ?s1 = "except_event_post new_main_frame"
  let ?s2 = "except_event_wait ?s1"
  let ?s3 = "on_except_handle msw_consts (wxYES msw_consts) ?s2"
  let ?s4 = "signal_except ?s3"
  have "main_step msw_consts new_main_frame ?s1" by (rule main_step.intros) (simp add: new_main_frame_def)
  moreover have "main_step msw_consts ?s1 ?s2" by (rule main_step.intros) (simp add: main_defs)
  moreover have "main_step msw_consts ?s2 ?s3" by (rule main_step.asks) (simp_all add: new_main_frame_def main_defs)
  moreover have "main_step msw_consts ?s3 ?s4" by (rule main_step.intros) (simp add: main_defs)
  moreover have "main_step msw_consts ?s4 (except_event_return ?s4)"
    by (rule main_step.except_returns) (simp add: main_defs)
  ultimately have "main_reach msw_consts new_main_frame answered_yes" unfolding answered_yes_def by (meson main_refl main_more)
  from exceptions_never_handled [OF this] show ?thesis
    by (auto simp: msw_consts_def answered_yes_def main_defs new_main_frame_def trc_consts)
qed

lemma exception_can_hang_witness:
  "\<exists>s. main_reach msw_consts new_main_frame s \<and> trc_thread s = Except_Waiting"
  using exception_can_hang [of msw_consts] by blast

end
