(* ===== verification/Ui_Windows.thy ===== *)
theory Ui_Windows
  imports Ui_Disasm Ui_Column
begin

text \<open>
  The rest of the windows under \<open>src/ui/src\<close>: the panes of \<open>mainframe.cpp\<close> and the layout it keeps in the
  configuration, the widths of columns the lists keep there, the session of \<open>debugger.cpp\<close> and how a
  module is opened in it, and the lists of modules and threads and the log. The configuration is a map;
  what the tracer does is a list of calls.
\<close>

section \<open>Panes and layout\<close>

datatype pane = CPU_Pane | Log_Pane | Reg_Pane | BP_Pane | Mod_Pane | Mem_Pane | Thread_Pane | Stack_Pane

text \<open>There are no others, so statements about all panes can be decided.\<close>

instantiation pane :: enum
begin

definition enum_pane :: "pane list" where
  "enum_pane = [CPU_Pane, Log_Pane, Reg_Pane, BP_Pane, Mod_Pane, Mem_Pane, Thread_Pane, Stack_Pane]"

definition enum_all_pane :: "(pane \<Rightarrow> bool) \<Rightarrow> bool" where
  "enum_all_pane P \<longleftrightarrow> list_all P [CPU_Pane, Log_Pane, Reg_Pane, BP_Pane, Mod_Pane, Mem_Pane, Thread_Pane, Stack_Pane]"

definition enum_ex_pane :: "(pane \<Rightarrow> bool) \<Rightarrow> bool" where
  "enum_ex_pane P \<longleftrightarrow> list_ex P [CPU_Pane, Log_Pane, Reg_Pane, BP_Pane, Mod_Pane, Mem_Pane, Thread_Pane, Stack_Pane]"

instance
proof
  have p: "p \<in> set enum_class.enum" for p :: pane by (cases p) (simp_all add: enum_pane_def)
  then show "(UNIV :: pane set) = set enum_class.enum" by auto
  show "distinct (enum_class.enum :: pane list)" by (simp add: enum_pane_def)
  show "enum_class.enum_all P \<longleftrightarrow> Ball UNIV P" for P :: "pane \<Rightarrow> bool"
    using p unfolding enum_all_pane_def list_all_iff enum_pane_def by blast
  show "enum_class.enum_ex P \<longleftrightarrow> Bex UNIV P" for P :: "pane \<Rightarrow> bool"
    using p unfolding enum_ex_pane_def list_ex_iff enum_pane_def by blast
qed

end

lemma all_panes: "(\<forall>p :: pane. P p) \<longleftrightarrow> list_all P enum_class.enum"
  by (auto simp: list_all_iff enum_UNIV)

record window =
  win_pos :: point
  win_size :: point
  iconized :: bool
  shown :: "pane \<Rightarrow> bool"

text \<open>\<open>OnCPUFrame\<close> and the handlers of the other panes.\<close>

definition toggle_pane :: "pane \<Rightarrow> window \<Rightarrow> window" where
  "toggle_pane p w = (if shown w p then w\<lparr>shown := (shown w)(p := False)\<rparr> else w\<lparr>shown := (shown w)(p := True)\<rparr>)"

definition ShowUsableWindows :: "window \<Rightarrow> window" where
  "ShowUsableWindows w = w\<lparr>shown := (shown w)(CPU_Pane := True, Reg_Pane := True, Mem_Pane := True, Stack_Pane := True,
     Log_Pane := False, BP_Pane := False, Mod_Pane := False, Thread_Pane := False)\<rparr>"

text \<open>The configuration: numbers by their paths, and the perspective of the pane manager.\<close>

record config =
  numbers :: "string \<rightharpoonup> int"
  perspective :: "(pane \<Rightarrow> bool) option"

definition read_number :: "config \<Rightarrow> string \<Rightarrow> int \<Rightarrow> int" where
  "read_number c path dflt = (case numbers c path of None \<Rightarrow> dflt | Some v \<Rightarrow> v)"

definition write_number :: "string \<Rightarrow> int \<Rightarrow> config \<Rightarrow> config" where
  "write_number path v c = c\<lparr>numbers := (numbers c)(path \<mapsto> v)\<rparr>"

definition main_coords :: string where
  "main_coords = ''CommonSettings/MainCoords''"

text \<open>\<open>cfg\<close> is \<open>wxConfigBase::Get\<close>, \<open>None\<close> if there is none.\<close>

definition SaveLayout :: "window \<Rightarrow> config option \<Rightarrow> config option" where
  "SaveLayout w cfg = (case cfg of
     None \<Rightarrow> None
   | Some c \<Rightarrow>
      (let (x, y, ww, h) =
         (if iconized w
          then (read_number c (main_coords @ ''/x'') 50, read_number c (main_coords @ ''/y'') 50,
                read_number c (main_coords @ ''/w'') 350, read_number c (main_coords @ ''/h'') 200)
          else (fst (win_pos w), snd (win_pos w), fst (win_size w), snd (win_size w)));
         c = write_number (main_coords @ ''/h'') h (write_number (main_coords @ ''/w'') ww
               (write_number (main_coords @ ''/y'') y (write_number (main_coords @ ''/x'') x c)))
       in Some (c\<lparr>perspective := Some (shown w)\<rparr>)))"

text \<open>An empty perspective is refused by the pane manager, which then changes nothing.\<close>

definition LoadLayout :: "config option \<Rightarrow> window \<Rightarrow> window" where
  "LoadLayout cfg w = (case cfg of
     None \<Rightarrow> w
   | Some c \<Rightarrow>
      (let w = w\<lparr>win_pos := (read_number c (main_coords @ ''/x'') 50, read_number c (main_coords @ ''/y'') 50),
                 win_size := (read_number c (main_coords @ ''/w'') 350, read_number c (main_coords @ ''/h'') 200)\<rparr>
       in case perspective c of
            None \<Rightarrow> ShowUsableWindows w
          | Some sh \<Rightarrow> w\<lparr>shown := sh\<rparr>))"

section \<open>Widths of columns\<close>

text \<open>\<open>SaveParams\<close> and \<open>LoadParams\<close> of the lists: the paths of their columns, in order.\<close>

definition cpu_columns :: "string list" where
  "cpu_columns = map ((@) ''ChildFrame/CPU/width/'') [''address'', ''hexdump'', ''disassembly'', ''comment'']"

definition bp_columns :: "string list" where
  "bp_columns = map ((@) ''ChildFrame/BP/width/'') [''address'', ''module'', ''active'', ''disassembly'', ''comment'']"

definition mod_columns :: "string list" where
  "mod_columns = map ((@) ''ChildFrame/Mod/width/'') [''base'', ''size'', ''entry'', ''name'', ''filever'', ''path'']"

definition SaveParams :: "string list \<Rightarrow> int list \<Rightarrow> config option \<Rightarrow> config option" where
  "SaveParams paths widths cfg = map_option (fold (\<lambda>(p, v). write_number p v) (zip paths widths)) cfg"

definition LoadParams :: "string list \<Rightarrow> config option \<Rightarrow> int list \<Rightarrow> int list" where
  "LoadParams paths cfg widths = (case cfg of None \<Rightarrow> widths | Some c \<Rightarrow> map (\<lambda>p. read_number c p 80) paths)"

section \<open>The session\<close>

datatype session_call =
    Session_Open u32
  | Session_Close u32
  | Set_Callback u32 u32
  | Load_Target u32 string u32

abbreviation (input) TRC_DBG_EVENTS_CALLBACK :: u32 where "TRC_DBG_EVENTS_CALLBACK \<equiv> 1"
abbreviation (input) TRC_PROCESS_EVENTS_CALLBACK :: u32 where "TRC_PROCESS_EVENTS_CALLBACK \<equiv> 2"
abbreviation (input) TRC_EXCEPTIONS_CALLBACK :: u32 where "TRC_EXCEPTIONS_CALLBACK \<equiv> 4"
abbreviation (input) TRC_OPT_BREAK_ON_EP :: u32 where "TRC_OPT_BREAK_ON_EP \<equiv> 2"
abbreviation (input) TRC_OPT_BREAK_ON_SEH_HANDLER :: u32 where "TRC_OPT_BREAK_ON_SEH_HANDLER \<equiv> 8"

record debugger =
  m_sesId :: u32
  session_calls :: "session_call list"

definition new_debugger :: debugger where
  "new_debugger = \<lparr>m_sesId = 0, session_calls = []\<rparr>"

definition session_call :: "session_call \<Rightarrow> debugger \<Rightarrow> debugger" where
  "session_call c d = d\<lparr>session_calls := session_calls d @ [c]\<rparr>"

text \<open>\<open>ses\<close> is what \<open>trc_session_open\<close> returns; all its bits set if it fails.\<close>

definition open_session :: "u32 \<Rightarrow> debugger \<Rightarrow> debugger" where
  "open_session ses d = (session_call (Session_Open ses) d)\<lparr>m_sesId := ses\<rparr>"

definition close_session :: "debugger \<Rightarrow> debugger" where
  "close_session d = (session_call (Session_Close (m_sesId d)) d)\<lparr>m_sesId := 0\<rparr>"

definition unload :: "debugger \<Rightarrow> debugger" where
  "unload d = session_call (Session_Close (m_sesId d)) d"

definition set_callback :: "u32 \<Rightarrow> debugger \<Rightarrow> debugger" where
  "set_callback k d = session_call (Set_Callback (m_sesId d) k) d"

definition load_target :: "string \<Rightarrow> u32 \<Rightarrow> debugger \<Rightarrow> debugger" where
  "load_target path opts d = session_call (Load_Target (m_sesId d) path opts) d"

text \<open>\<open>OnOpenModule\<close>: \<open>path\<close> is what the dialog answers, \<open>None\<close> if it is cancelled.\<close>

definition OnOpenModule :: "string option \<Rightarrow> u32 \<Rightarrow> debugger \<Rightarrow> debugger" where
  "OnOpenModule path ses d =
     (case path of
        None \<Rightarrow> d
      | Some p \<Rightarrow>
          (let d = (if 0 < m_sesId d then close_session d else d);
               d = open_session ses d;
               d = set_callback TRC_DBG_EVENTS_CALLBACK d;
               d = set_callback TRC_PROCESS_EVENTS_CALLBACK d;
               d = set_callback TRC_EXCEPTIONS_CALLBACK d
           in load_target p (TRC_OPT_BREAK_ON_EP OR TRC_OPT_BREAK_ON_SEH_HANDLER) d))"

text \<open>The commands of \<open>debugger.cpp\<close> that take an address as text.\<close>

definition set_hwbp :: "debugger \<Rightarrow> string \<Rightarrow> trc_call" where
  "set_hwbp d bp = Trc_Set_Bp (m_sesId d) TRC_HWBP_EXECUTE 0 (htodw bp)"

definition set_bp :: "debugger \<Rightarrow> string \<Rightarrow> trc_call" where
  "set_bp d bp = Trc_Set_Bp (m_sesId d) TRC_BP_SOFTWARE 0 (htodw bp)"

definition del_bp :: "debugger \<Rightarrow> string \<Rightarrow> trc_call" where
  "del_bp d bp = Trc_Delete_Bp (m_sesId d) 0 (htodw bp) 0"

text \<open>
  \<open>split_cmd\<close> on a buffer: the position of the first space or terminator, which is overwritten by a
  terminator; the argument begins behind it. The result is one if there is a space.
\<close>

fun find_separator :: "string \<Rightarrow> fault + nat \<times> u32" where
  "find_separator [] = Inl Out_Of_Bounds"
| "find_separator (c # cs) =
     (if c = CHR '' '' then Inr (0, 1)
      else if c = NUL then Inr (0, 0)
      else (case find_separator cs of Inl e \<Rightarrow> Inl e | Inr (i, r) \<Rightarrow> Inr (Suc i, r)))"

definition split_cmd :: "string \<Rightarrow> fault + u32 \<times> string \<times> nat" where
  "split_cmd buf = (case find_separator buf of Inl e \<Rightarrow> Inl e | Inr (i, r) \<Rightarrow> Inr (r, buf[i := NUL], Suc i))"

section \<open>Modules and threads\<close>

text \<open>The lists the tracer answers, \<open>None\<close> for \<open>NULL\<close>; the rows of the window, with their empty columns.\<close>

definition RefreshModList :: "(u32 \<times> u32 \<times> string) list option \<Rightarrow> fault + string list list" where
  "RefreshModList ms = (case ms of
     None \<Rightarrow> Inl Null_Deref
   | Some ms \<Rightarrow> Inr (map (\<lambda>(base, sz, nm). [hex_text (unat base), int_text sz, [], [], [], nm]) ms))"

definition RefreshThreadList :: "(u32 \<times> u32) list option \<Rightarrow> fault + string list list" where
  "RefreshThreadList ts = (case ts of
     None \<Rightarrow> Inl Null_Deref
   | Some ts \<Rightarrow> Inr (map (\<lambda>(tid, teb). [hex_text (unat tid), hex_text (unat teb)]) ts))"

section \<open>What was saved is loaded\<close>

lemma read_write [simp]:
  "read_number (write_number p v c) q d = (if q = p then v else read_number c q d)" "perspective (write_number p v c) = perspective c"
  "read_number (c\<lparr>perspective := sh\<rparr>) q d = read_number c q d"
  by (simp_all add: read_number_def write_number_def)

text \<open>
  A window that is not iconized comes back where it was, with its panes. One that is comes back where it
  was saved before, or at the default position.
\<close>

lemma layout_round_trip:
  "LoadLayout (SaveLayout w (Some c)) w' =
     w'\<lparr>win_pos := (if iconized w then (read_number c (main_coords @ ''/x'') 50, read_number c (main_coords @ ''/y'') 50) else win_pos w),
        win_size := (if iconized w then (read_number c (main_coords @ ''/w'') 350, read_number c (main_coords @ ''/h'') 200) else win_size w),
        shown := shown w\<rparr>"
  by (cases "iconized w") (simp_all add: SaveLayout_def LoadLayout_def Let_def split_def)

lemma fold_write_other:
  "q \<notin> set (map fst ps) \<Longrightarrow> read_number (fold (\<lambda>(p, v). write_number p v) ps c) q d = read_number c q d"
  by (induction ps arbitrary: c) auto

lemma params_round_trip:
  assumes "distinct paths" and "length widths = length paths"
  shows "LoadParams paths (SaveParams paths widths (Some c)) old = widths"
proof -
  have "map (\<lambda>p. read_number (fold (\<lambda>(p, v). write_number p v) (zip paths widths) c) p 80) paths = widths"
    using assms(2,1)
    by (induction widths paths arbitrary: c rule: list_induct2) (simp_all add: fold_write_other)
  then show ?thesis by (simp add: SaveParams_def LoadParams_def)
qed

lemma list_columns: "distinct cpu_columns" "distinct bp_columns" "distinct mod_columns"
  by (simp_all add: cpu_columns_def bp_columns_def mod_columns_def)

lemma toggle_twice: "toggle_pane p (toggle_pane p w) = w"
  by (cases w) (auto simp: toggle_pane_def fun_eq_iff)

text \<open>The layout of the first start does not depend on what the panes were before.\<close>

lemma first_layout: "shown (ShowUsableWindows w) = shown (ShowUsableWindows w')"
  by (simp add: fun_eq_iff all_panes enum_pane_def ShowUsableWindows_def)

section \<open>One session at a time\<close>

definition opened :: "session_call list \<Rightarrow> u32 list" where
  "opened cs = concat (map (\<lambda>c. case c of Session_Open s \<Rightarrow> [s] | _ \<Rightarrow> []) cs)"

definition closed :: "session_call list \<Rightarrow> u32 list" where
  "closed cs = concat (map (\<lambda>c. case c of Session_Close s \<Rightarrow> [s] | _ \<Rightarrow> []) cs)"

definition one_session :: "debugger \<Rightarrow> bool" where
  "one_session d \<longleftrightarrow> opened (session_calls d) = closed (session_calls d) @ (if m_sesId d = 0 then [] else [m_sesId d])"

text \<open>
  As long as no session has the number zero, opening a module closes the session before, and nothing
  else does: at the end of the program the last one is still open.
\<close>

lemma one_session_open: "one_session d \<Longrightarrow> ses \<noteq> 0 \<Longrightarrow> one_session (OnOpenModule path ses d)"
  by (cases path)
    (auto simp: one_session_def OnOpenModule_def close_session_def open_session_def set_callback_def load_target_def session_call_def
      opened_def closed_def Let_def word_neq_0_conv)

lemma one_session_always:
  assumes "\<forall>(path, ses) \<in> set ops. ses \<noteq> 0"
  shows "one_session (fold (\<lambda>(path, ses). OnOpenModule path ses) ops new_debugger)"
proof -
  have "one_session d \<Longrightarrow> one_session (fold (\<lambda>(path, ses). OnOpenModule path ses) ops d)" for d
    using assms by (induction ops arbitrary: d) (auto intro: one_session_open)
  then show ?thesis by (simp add: one_session_def new_debugger_def opened_def closed_def)
qed

section \<open>Commands\<close>

lemma find_separator_space: "CHR '' '' \<notin> set cmd \<Longrightarrow> NUL \<notin> set cmd \<Longrightarrow>
    find_separator (cmd @ CHR '' '' # s) = Inr (length cmd, 1) \<and> find_separator (cmd @ NUL # s) = Inr (length cmd, 0)"
  by (induction cmd) auto

text \<open>
  A command and its argument come apart at the first space. Without a space the argument begins behind
  the terminator, outside of the string.
\<close>

lemma split_cmd_joined:
  assumes "CHR '' '' \<notin> set cmd" and "NUL \<notin> set cmd" and "NUL \<notin> set arg"
  shows "\<exists>buf. split_cmd (cmd @ CHR '' '' # arg @ [NUL]) = Inr (1, buf, Suc (length cmd)) \<and> c_str buf = cmd
      \<and> c_str (drop (Suc (length cmd)) buf) = arg"
    and "split_cmd (cmd @ [NUL]) = Inr (0, cmd @ [NUL], Suc (length cmd))"
proof -
  have "c_str (s @ NUL # t) = s" if "NUL \<notin> set s" for s t
    using that by (simp add: c_str_def takeWhile_append)
  then show "\<exists>buf. split_cmd (cmd @ CHR '' '' # arg @ [NUL]) = Inr (1, buf, Suc (length cmd)) \<and> c_str buf = cmd
      \<and> c_str (drop (Suc (length cmd)) buf) = arg"
    using assms by (simp add: split_cmd_def find_separator_space)
  show "split_cmd (cmd @ [NUL]) = Inr (0, cmd @ [NUL], Suc (length cmd))"
    using assms find_separator_space [of cmd "[]"] by (simp add: split_cmd_def)
qed

end
