(* ===== verification/Ui_Console.thy ===== *)
theory Ui_Console
  imports Ui_Windows Ui_Registers
begin

text \<open>
  Text that goes to the log and to the console: \<open>logframe.cpp\<close>, and the functions of the class \<open>Debugger\<close>
  (\<open>debugger.cpp\<close>) that print lists, registers and memory, under \<open>src/ui/src\<close>. What the tracer answers is an
  argument. A console command that reads memory shows every byte, unlike the window of the memory.
\<close>

section \<open>Numbers in lower case\<close>

text \<open>\<open>%x\<close>, \<open>%#x\<close> and \<open>%.px\<close>.\<close>

fun hex_lower :: "nat \<Rightarrow> string" where
  "hex_lower n = (if n < 16 then [lower_digit n] else hex_lower (n div 16) @ [lower_digit (n mod 16)])"

declare hex_lower.simps [simp del]

definition hex_alt :: "nat \<Rightarrow> string" where
  "hex_alt n = (if n = 0 then ''0'' else ''0x'' @ hex_lower n)"

definition lower_padded :: "nat \<Rightarrow> nat \<Rightarrow> string" where
  "lower_padded p n = replicate (p - length (hex_lower n)) (CHR ''0'') @ hex_lower n"

abbreviation (input) line_end :: string where "line_end \<equiv> [CHR 0x0A]"

section \<open>Events\<close>

datatype proc_event =
    Terminated
  | Thread_Started u32 u32           \<comment> \<open>number and block of the thread\<close>
  | Thread_Exited u32 u32            \<comment> \<open>number and exit code\<close>
  | Module_Loaded string u32 u32     \<comment> \<open>name, base and size\<close>
  | Module_Unloaded string u32 u32
  | Other_Proc_Event

text \<open>What \<open>ProcEventToLog\<close> shows in the status bar.\<close>

fun ProcEventToLog :: "proc_event \<Rightarrow> string" where
  "ProcEventToLog Terminated = ''process terminated'' @ line_end"
| "ProcEventToLog (Thread_Started tid teb) =
     ''new thread started thread id is 0x'' @ hex_padded 8 (unat tid) @ '' thread teb is '' @ hex_lower (unat teb) @ line_end"
| "ProcEventToLog (Thread_Exited tid code) =
     ''thread exited thread id is 0x'' @ hex_padded 8 (unat tid) @ '' exit code is '' @ hex_lower (unat code) @ line_end"
| "ProcEventToLog (Module_Loaded nm base sz) =
     ''module '' @ nm @ '' loaded,image Base is 0x'' @ hex_padded 8 (unat base) @ '' size is '' @ hex_lower (unat sz) @ line_end"
| "ProcEventToLog (Module_Unloaded nm base sz) =
     ''module '' @ nm @ '' unloaded,image Base is 0x'' @ hex_padded 8 (unat base) @ '' size is '' @ hex_lower (unat sz) @ line_end"
| "ProcEventToLog Other_Proc_Event = []"

definition ExceptEventToLog :: "u32 \<Rightarrow> u32 \<Rightarrow> string" where
  "ExceptEventToLog code eip = ''ExceptEvt: '' @ ''event code: '' @ hex_alt (unat code) @ '', EIP = '' @ hex_alt (unat eip) @ line_end"

text \<open>The same events on the console.\<close>

fun proc_event_text :: "proc_event \<Rightarrow> string" where
  "proc_event_text Terminated = ''process terminated'' @ line_end"
| "proc_event_text (Thread_Started tid teb) =
     ''new thread started thread id is '' @ hex_lower (unat tid) @ '' thread teb is '' @ hex_lower (unat teb) @ line_end"
| "proc_event_text (Thread_Exited tid code) =
     ''thread exited thread id is '' @ hex_lower (unat tid) @ '' exit code is '' @ hex_lower (unat code) @ line_end"
| "proc_event_text (Module_Loaded nm base sz) =
     ''module '' @ nm @ '' loaded,image Base is '' @ hex_alt (unat base) @ '' size is '' @ hex_alt (unat sz) @ line_end"
| "proc_event_text (Module_Unloaded nm base sz) =
     ''module '' @ nm @ '' unloaded,image Base is '' @ hex_alt (unat base) @ '' size is '' @ hex_alt (unat sz) @ line_end"
| "proc_event_text Other_Proc_Event = []"

section \<open>Lists\<close>

text \<open>
  A breakpoint has an address, a thread and a type. For a type that is none of those listed, \<open>type\<close> keeps
  the text of the breakpoint before; it is \<open>NULL\<close> at first, which \<open>printf\<close> must not be given.
\<close>

fun bp_type :: "string option \<Rightarrow> u32 \<Rightarrow> string option" where
  "bp_type old t = (if t = 1 then Some ''software'' else if t \<in> {2, 4, 8} then Some ''hardware'' else old)"

fun bp_rows :: "string option \<Rightarrow> (u32 \<times> u32 \<times> u32) list \<Rightarrow> fault + string" where
  "bp_rows ty [] = Inr []"
| "bp_rows ty ((a, tid, t) # bps) =
     (case bp_type ty t of
        None \<Rightarrow> Inl Null_Deref
      | Some n \<Rightarrow>
          (case bp_rows (Some n) bps of
             Inl e \<Rightarrow> Inl e
           | Inr s \<Rightarrow> Inr (''addr='' @ hex_alt (unat a) @ [CHR 0x09] @ ''TID='' @ hex_alt (unat tid) @ '' type='' @ n @ line_end @ s)))"

definition bp_list :: "(u32 \<times> u32 \<times> u32) list option \<Rightarrow> fault + string" where
  "bp_list bps = (case bps of
     None \<Rightarrow> Inr []
   | Some bps \<Rightarrow> (case bp_rows None bps of
       Inl e \<Rightarrow> Inl e
     | Inr s \<Rightarrow> Inr (''bp list=========='' @ line_end @ s @ ''==================='' @ line_end)))"

definition threads_list :: "(u32 \<times> u32) list option \<Rightarrow> string" where
  "threads_list ts = (case ts of
     None \<Rightarrow> []
   | Some ts \<Rightarrow> ''running threads list=================='' @ line_end
       @ concat (map (\<lambda>(tid, teb). ''TID='' @ hex_lower (unat tid) @ '',teb addr='' @ hex_lower (unat teb) @ line_end) ts)
       @ ''======================================'' @ line_end)"

definition mod_list :: "(u32 \<times> u32 \<times> string) list option \<Rightarrow> string" where
  "mod_list ms = (case ms of
     None \<Rightarrow> []
   | Some ms \<Rightarrow> ''loaded modules list=================='' @ line_end
       @ concat (map (\<lambda>(base, sz, nm). ''mod path: '' @ nm @ '',mod base: '' @ hex_lower (unat base) @ '',mod size: ''
           @ hex_lower (unat sz) @ line_end) ms)
       @ ''====================================='' @ line_end)"

section \<open>Registers\<close>

text \<open>\<open>print_regs\<close>: the context is cleared before it is read.\<close>

definition print_regs :: "'s tracer \<Rightarrow> thread_ctx \<Rightarrow> u32 \<Rightarrow> u32 \<Rightarrow> 's \<Rightarrow> string" where
  "print_regs T zero ses tid s =
     (case trc_get_thread_ctx T ses tid zero s of (ok, ctx) \<Rightarrow>
        if ok = 0 then []
        else let r = (\<lambda>n v. n @ ''='' @ lower_padded 8 (unat v)) in
          r ''eax'' (Eax ctx) @ r '' ebx'' (Ebx ctx) @ r '' ecx'' (Ecx ctx) @ r '' edx'' (Edx ctx) @ r '' edi'' (Edi ctx)
          @ r '' esi'' (Esi ctx) @ line_end
          @ r ''ebp'' (Ebp ctx) @ r '' esp'' (Esp ctx) @ r '' eip'' (Eip ctx) @ line_end)"

section \<open>Memory\<close>

definition console_char :: "u8 \<Rightarrow> char" where
  "console_char b = (if b = 0x0A \<or> b = 0x0D \<or> b = 0x09 then CHR ''.'' else char_of (unat b))"

definition console_row :: "u8 list \<Rightarrow> nat \<Rightarrow> string" where
  "console_row bs padding = concat (map (\<lambda>b. lower_padded 2 (unat b) @ '' '') bs) @ concat (replicate padding ''   '')
     @ [CHR 0x09] @ map console_char bs @ line_end"

text \<open>The loop of \<open>print_mem\<close>, with \<open>left\<close> bytes still to come.\<close>

function console_rows :: "nat \<Rightarrow> u8 list \<Rightarrow> string" where
  "console_rows left bs =
     (if left = 0 then []
      else let align = (if left < 16 then left else 16); padding = (if left < 16 then 16 - left else 0)
           in console_row (take align bs) padding @ console_rows (left - align) (drop align bs))"
  by pat_completeness auto
termination by (relation "measure fst") (auto simp: Let_def)

declare console_rows.simps [simp del]

definition print_mem :: "(u32 \<Rightarrow> nat \<Rightarrow> u8 list) \<Rightarrow> string \<Rightarrow> string" where
  "print_mem read mem_addr = console_rows 128 (read (htodw mem_addr) 128)"

section \<open>The console shows every byte\<close>

lemma hex_lower_digits: "hex_lower n = map lower_digit (hex_digits n)"
  by (induction n rule: hex_lower.induct) (simp add: hex_lower.simps hex_digits.simps)

lemma length_lower: "length (hex_lower n) = length (hex_text n)"
  by (simp add: hex_lower_digits hex_text_digits)

lemma lower_padded_read: "htodw (lower_padded p n) = word_of_nat n"
proof -
  let ?ds = "replicate (p - length (hex_lower n)) 0 @ hex_digits n"
  have zero: "lower_digit 0 = CHR ''0''" by code_simp
  have "list_all2 digit_char (map lower_digit ?ds) ?ds"
    unfolding list_all2_map1 list_all2_same using hex_digits_value(2) [of n] by (auto simp: digit_char_def)
  note read = htodw_loop_digits [OF this, of "[]" 0]
  have m: "map lower_digit ?ds = lower_padded p n" by (simp add: lower_padded_def hex_lower_digits zero)
  have "foldl (\<lambda>v d. 16 * v + d) 0 (replicate k 0) = (0 :: nat)" for k by (induction k) auto
  then have "foldl (\<lambda>v d. 16 * v + d) 0 ?ds = n" using hex_digits_value(1) [of n] by simp
  then show ?thesis using read m by (simp add: htodw_def ends_number_def)
qed

lemma length_lower_byte [simp]: "length (lower_padded 2 (unat (b :: u8))) = 2"
proof -
  have "unat b < 2 ^ 8" using unsigned_less [of b] by simp
  then have "length (hex_text (unat b)) \<le> Suc 1" by (intro length_hex_text) simp
  then show ?thesis by (simp add: lower_padded_def length_lower)
qed

lemma row_digits:
  "i < length bs \<Longrightarrow> take 2 (drop (3 * i) (concat (map (\<lambda>b. lower_padded 2 (unat (b :: u8)) @ '' '') bs) @ t)) = lower_padded 2 (unat (bs ! i))"
  by (induction bs arbitrary: i) (auto simp: nth_Cons split: nat.split)

lemma length_row: "length (concat (map (\<lambda>b. lower_padded 2 (unat (b :: u8)) @ '' '') bs)) = 3 * length bs"
  by (induction bs) simp_all

lemma console_rows_16: "16 \<le> left \<Longrightarrow> console_rows left bs = console_row (take 16 bs) 0 @ console_rows (left - 16) (drop 16 bs)"
  by (subst console_rows.simps) (simp add: Let_def)

lemma console_rows_digits:
  assumes "16 * n \<le> length bs" and "r < n" and "i < 16"
  shows "take 2 (drop (66 * r + 3 * i) (console_rows (16 * n) bs)) = lower_padded 2 (unat (bs ! (16 * r + i)))"
  using assms
proof (induction n arbitrary: bs r)
  case (Suc n)
  have len: "length (console_row (take 16 bs) 0) = 66" using Suc.prems(1) by (simp add: console_row_def length_row)
  have step: "console_rows (16 * Suc n) bs = console_row (take 16 bs) 0 @ console_rows (16 * n) (drop 16 bs)"
    using console_rows_16 [of "16 * Suc n" bs] by simp
  show ?case
  proof (cases r)
    case 0
    let ?t = "[CHR 0x09] @ map console_char (take 16 bs) @ line_end @ console_rows (16 * n) (drop 16 bs)"
    have split: "console_row (take 16 bs) 0 @ console_rows (16 * n) (drop 16 bs)
        = concat (map (\<lambda>b. lower_padded 2 (unat b) @ '' '') (take 16 bs)) @ ?t"
      by (simp add: console_row_def)
    have "i < length (take 16 bs)" using Suc.prems by simp
    from row_digits [OF this, of ?t] show ?thesis using 0 Suc.prems unfolding step split by (simp del: drop_append take_append)
  next
    case (Suc k)
    then have "take 2 (drop (66 * k + 3 * i) (console_rows (16 * n) (drop 16 bs))) = lower_padded 2 (unat (drop 16 bs ! (16 * k + i)))"
      using Suc.IH [of "drop 16 bs" k] Suc.prems by simp
    then show ?thesis using Suc Suc.prems(1) unfolding step by (simp add: len add.commute add.left_commute)
  qed
qed simp

text \<open>Reading the digits of the printed memory gives the bytes back, all of them.\<close>

lemma print_mem_read:
  assumes "length (read (htodw a) 128) = 128" and "r < 8" and "i < 16"
  shows "htodw (take 2 (drop (66 * r + 3 * i) (print_mem read a))) = ucast (read (htodw a) 128 ! (16 * r + i))"
proof -
  have "take 2 (drop (66 * r + 3 * i) (console_rows (16 * 8) (read (htodw a) 128))) = lower_padded 2 (unat (read (htodw a) 128 ! (16 * r + i)))"
    using console_rows_digits [of 8 "read (htodw a) 128" r i] assms by simp
  then show ?thesis by (simp add: print_mem_def lower_padded_read)
qed

end
