(* ===== verification/Ui_Events.thy ===== *)
theory Ui_Events
  imports Ui_Console Ui_Memory_Events Ui_Main
begin

text \<open>
  How the windows of the graphical debugger work together: the tracer calls back into \<open>mainframe.cpp\<close>, which
  posts events (\<open>events.h\<close>, \<open>events.cpp\<close>) to its panes; the thread of the windows takes them out of a queue, looks the handler up
  in the event table of the pane (\<open>cpuframe.cpp\<close>, \<open>bpframe.cpp\<close>, \<open>logframe.cpp\<close>, \<open>regframe.cpp\<close>, \<open>memframe.cpp\<close>,
  \<open>stackframe.cpp\<close>) and runs it. As documented for the widget library, a posted event is a copy; an event whose identifier
  is in no entry of a table goes on to the parent of the window; an entry with \<open>wxID_ANY\<close> is for all identifiers.
\<close>

section \<open>Events\<close>

text \<open>\<open>TRC_EXCEPTION_EVENT\<close>: what the windows read of it. \<open>None\<close> is a null pointer.\<close>

record exception_event =
  EventCode :: u32
  FrameEip :: u32
  CurrentThread :: "u32 option"      \<comment> \<open>its \<open>TID\<close>\<close>
  CurrentModule :: "string option"   \<comment> \<open>its \<open>ModName\<close>\<close>

text \<open>\<open>TRC_PROCESS_EVENT\<close>: a code and a pointer to what happened to a thread, a module or the process.\<close>

record process_event =
  ProcCode :: u32
  ProcPtr :: addr

record TrcExceptEvent =
  m_except_event :: exception_event
  except_sesId :: u32

record TrcDebugEvent =
  m_debug_event :: exception_event
  debug_sesId :: u32

record TrcProcEvent =
  m_proc_event :: process_event
  proc_sesId :: u32

definition setExceptEvent :: "exception_event \<Rightarrow> TrcExceptEvent \<Rightarrow> TrcExceptEvent" where
  "setExceptEvent e t = t\<lparr>m_except_event := e\<rparr>"

definition setExceptSesId :: "u32 \<Rightarrow> TrcExceptEvent \<Rightarrow> TrcExceptEvent" where
  "setExceptSesId n t = t\<lparr>except_sesId := n\<rparr>"

definition setDebugEvent :: "exception_event \<Rightarrow> TrcDebugEvent \<Rightarrow> TrcDebugEvent" where
  "setDebugEvent e t = t\<lparr>m_debug_event := e\<rparr>"

definition setDebugSesId :: "u32 \<Rightarrow> TrcDebugEvent \<Rightarrow> TrcDebugEvent" where
  "setDebugSesId n t = t\<lparr>debug_sesId := n\<rparr>"

definition setProcEvent :: "process_event \<Rightarrow> TrcProcEvent \<Rightarrow> TrcProcEvent" where
  "setProcEvent e t = t\<lparr>m_proc_event := e\<rparr>"

definition setProcSesId :: "u32 \<Rightarrow> TrcProcEvent \<Rightarrow> TrcProcEvent" where
  "setProcSesId n t = t\<lparr>proc_sesId := n\<rparr>"

lemmas event_setters = setExceptEvent_def setExceptSesId_def setDebugEvent_def setDebugSesId_def setProcEvent_def setProcSesId_def

text \<open>\<open>GuiProcEvent\<close> carries a debug event too, of which only the module is read beside what \<open>gui_event\<close> has.\<close>

datatype wx_event =
    Except_Evt TrcExceptEvent
  | Debug_Evt TrcDebugEvent
  | Proc_Evt TrcProcEvent
  | Gui_Evt gui_event "string option"

section \<open>Event tables\<close>

datatype event_type = wxEVT_TRC_EXCEPT | wxEVT_TRC_DEBUG | wxEVT_TRC_PROCESS | wxEVT_GUI_TEXT2WINDOW

fun type_of :: "wx_event \<Rightarrow> event_type" where
  "type_of (Except_Evt _) = wxEVT_TRC_EXCEPT"
| "type_of (Debug_Evt _) = wxEVT_TRC_DEBUG"
| "type_of (Proc_Evt _) = wxEVT_TRC_PROCESS"
| "type_of (Gui_Evt _ _) = wxEVT_GUI_TEXT2WINDOW"

text \<open>The events of the tracer have the identifier \<open>wxID_ANY\<close>.\<close>

fun id_of :: "wx_event \<Rightarrow> gui_msg" where
  "id_of (Gui_Evt e _) = gui_id e"
| "id_of _ = GUI_MSG_OTHER"

datatype handler =
    Main_OnExceptHandle | Main_OnMsgBP
  | CPU_AddItem
  | Log_ExceptEventToLog | Log_DbgEventToLog | Log_ProcEventToLog
  | Reg_Output
  | BP_OnAddBP | BP_OnDelBP
  | Mem_RefreshMemory
  | Stack_RefreshMemory

text \<open>An entry: the type, the identifier or \<open>None\<close> for \<open>wxID_ANY\<close>, and the handler.\<close>

type_synonym event_table = "(event_type \<times> gui_msg option \<times> handler) list"

definition main_table :: event_table where
  "main_table = [(wxEVT_TRC_EXCEPT, None, Main_OnExceptHandle), (wxEVT_GUI_TEXT2WINDOW, None, Main_OnMsgBP)]"

definition cpu_table :: event_table where
  "cpu_table = [(wxEVT_TRC_DEBUG, None, CPU_AddItem)]"

definition log_table :: event_table where
  "log_table = [(wxEVT_TRC_EXCEPT, None, Log_ExceptEventToLog), (wxEVT_TRC_DEBUG, None, Log_DbgEventToLog),
     (wxEVT_TRC_PROCESS, None, Log_ProcEventToLog)]"

definition reg_table :: event_table where
  "reg_table = [(wxEVT_TRC_DEBUG, None, Reg_Output)]"

definition bp_table :: event_table where
  "bp_table = [(wxEVT_GUI_TEXT2WINDOW, Some GUI_MSG_ADD_BP, BP_OnAddBP), (wxEVT_GUI_TEXT2WINDOW, Some GUI_MSG_DEL_BP, BP_OnDelBP)]"

definition mem_table :: event_table where
  "mem_table = [(wxEVT_TRC_DEBUG, None, Mem_RefreshMemory)]"

definition stack_table :: event_table where
  "stack_table = [(wxEVT_TRC_DEBUG, None, Stack_RefreshMemory)]"

fun pane_table :: "pane \<Rightarrow> event_table" where
  "pane_table CPU_Pane = cpu_table"
| "pane_table Log_Pane = log_table"
| "pane_table Reg_Pane = reg_table"
| "pane_table BP_Pane = bp_table"
| "pane_table Mod_Pane = []"
| "pane_table Mem_Pane = mem_table"
| "pane_table Thread_Pane = []"
| "pane_table Stack_Pane = stack_table"

fun find_handler :: "event_table \<Rightarrow> event_type \<Rightarrow> gui_msg \<Rightarrow> handler option" where
  "find_handler [] ty i = None"
| "find_handler ((t, j, h) # rest) ty i = (if t = ty \<and> (j = None \<or> j = Some i) then Some h else find_handler rest ty i)"

text \<open>Whom an event is posted to: the main window or one of its panes, whose parent it is.\<close>

datatype receiver = Main_Window | Pane pane

fun handler_of :: "receiver \<Rightarrow> wx_event \<Rightarrow> handler option" where
  "handler_of Main_Window e = find_handler main_table (type_of e) (id_of e)"
| "handler_of (Pane p) e =
     (case find_handler (pane_table p) (type_of e) (id_of e) of
        Some h \<Rightarrow> Some h
      | None \<Rightarrow> find_handler main_table (type_of e) (id_of e))"

lemmas event_tables = main_table_def cpu_table_def log_table_def reg_table_def bp_table_def mem_table_def stack_table_def

section \<open>State\<close>

text \<open>The windows, what is posted to them and not handled yet, and the target the tracer works on.\<close>

record 's ui =
  cpu :: cpu_list
  str_hex :: string
  regs :: "reg_ctrl \<times> reg_ctrl"
  memory_view :: list_text_ctrl
  stack_view :: list_text_ctrl
  log_lines :: "string list"
  status_text :: string
  mod_rows :: "string list list"
  thread_rows :: "string list list"
  break_rows :: "(string \<times> string) list"
  m_trc_except :: TrcExceptEvent
  m_trc_debug :: TrcDebugEvent
  m_trc_proc :: TrcProcEvent
  m_debugger :: debugger
  frame :: main_frame
  pending :: "(receiver \<times> wx_event) list"
  trc_calls :: "trc_call list"
  target :: 's

text \<open>
  What the tracer, the decoder and the user answer, and what local variables hold before they are set. \<open>None\<close> is a null pointer
  or, for \<open>trc_read_memory\<close>, a failure.
\<close>

record 's ui_env =
  contexts :: "'s tracer"
  decoding :: decoder
  trc_read_memory :: "u32 \<Rightarrow> 's \<Rightarrow> u32 \<Rightarrow> nat \<Rightarrow> u8 list option"
  trc_get_thread_list :: "u32 \<Rightarrow> 's \<Rightarrow> (u32 \<times> u32) list option"
  trc_get_module_list :: "u32 \<Rightarrow> 's \<Rightarrow> (u32 \<times> u32 \<times> string) list option"
  trc_get_bp_list :: "u32 \<Rightarrow> u32 \<Rightarrow> 's \<Rightarrow> u32 list option"
  proc_data :: "process_event \<Rightarrow> 's \<Rightarrow> proc_event"   \<comment> \<open>what the pointer of the event points to\<close>
  wx :: wx_consts
  box_answer :: "exception_event \<Rightarrow> int"
  old_ctx :: thread_ctx
  old_row :: mnemonic
  old_bytes :: "u8 list"
  old_gui :: gui_event
  old_number :: u32
  asking :: widgets

abbreviation post :: "(receiver \<times> wx_event) list \<Rightarrow> 's ui \<Rightarrow> 's ui" where
  "post es s \<equiv> s\<lparr>pending := pending s @ es\<rparr>"

section \<open>Handlers\<close>

definition stop_code :: "u32 \<Rightarrow> trc_event_code" where
  "stop_code n = (if n = 1 then TRC_EVENT_BREAKPOINT else if n = 2 then TRC_EVENT_SINGLE_STEP else Other_Event)"

text \<open>The buffer keeps what it held when the memory cannot be read.\<close>

definition read_buffer :: "'s ui_env \<Rightarrow> u32 \<Rightarrow> 's \<Rightarrow> u32 \<Rightarrow> nat \<Rightarrow> u8 list" where
  "read_buffer E ses t a n = (case trc_read_memory E ses t a n of None \<Rightarrow> old_bytes E | Some bs \<Rightarrow> bs)"

text \<open>The context of \<open>thread[0]\<close> in the list of threads.\<close>

definition first_context :: "'s ui_env \<Rightarrow> u32 \<Rightarrow> 's \<Rightarrow> fault + thread_ctx" where
  "first_context E ses t = (case trc_get_thread_list E ses t of
     None \<Rightarrow> Inl Null_Deref
   | Some [] \<Rightarrow> Inl Uninit_Read
   | Some (th # _) \<Rightarrow> Inr (snd (trc_get_thread_ctx (contexts E) ses (fst th) (old_ctx E) t)))"

text \<open>\<open>RefreshMemory\<close> of \<open>memframe.cpp\<close> and of \<open>stackframe.cpp\<close>.\<close>

definition RefreshMemory :: "'s ui_env \<Rightarrow> TrcDebugEvent \<Rightarrow> ('s ui, unit) op" where
  "RefreshMemory E e s =
     (case first_context E (debug_sesId e) (target s) of
        Inl f \<Rightarrow> Inl f
      | Inr ctx \<Rightarrow> Inr ((), s\<lparr>memory_view := output_memory (read_buffer E (debug_sesId e) (target s)) (Eip ctx) (memory_view s)\<rparr>))"

definition RefreshStack :: "'s ui_env \<Rightarrow> TrcDebugEvent \<Rightarrow> ('s ui, unit) op" where
  "RefreshStack E e s =
     (case first_context E (debug_sesId e) (target s) of
        Inl f \<Rightarrow> Inl f
      | Inr ctx \<Rightarrow> Inr ((), s\<lparr>stack_view := output_stack (read_buffer E (debug_sesId e) (target s)) (Ebp ctx) (stack_view s)\<rparr>))"

definition show_code :: "'s ui_env \<Rightarrow> TrcDebugEvent \<Rightarrow> ('s ui, unit) op" where
  "show_code E e s =
     (case AddItem (decoding E) (trc_read_memory E (debug_sesId e) (target s)) (old_row E) (stop_code (EventCode (m_debug_event e)))
            (FrameEip (m_debug_event e)) (cpu s, str_hex s) of
        Inl f \<Rightarrow> Inl f
      | Inr (c, h) \<Rightarrow> Inr ((), s\<lparr>cpu := c, str_hex := h\<rparr>))"

definition show_registers :: "'s ui_env \<Rightarrow> TrcDebugEvent \<Rightarrow> ('s ui, unit) op" where
  "show_registers E e s =
     (case CurrentThread (m_debug_event e) of
        None \<Rightarrow> Inl Null_Deref
      | Some tid \<Rightarrow> Inr ((), s\<lparr>regs := reg_output (contexts E) (old_ctx E) (debug_sesId e) tid (target s) (regs s)\<rparr>))"

text \<open>\<open>OnMsgBP\<close>: an event with another identifier is passed on without the debug event.\<close>

definition show_message :: "'s ui_env \<Rightarrow> gui_event \<Rightarrow> ('s ui, unit) op" where
  "show_message E e s =
     (if gui_id e = GUI_MSG_OTHER
      then Inr ((), post [(Pane BP_Pane, Gui_Evt (snd (OnMsgBP 0 0 (old_gui E) e)) None)] s)
      else case CurrentThread (m_debug_event (m_trc_debug s)) of
             None \<Rightarrow> Inl Null_Deref
           | Some tid \<Rightarrow>
               (case OnMsgBP (debug_sesId (m_trc_debug s)) tid (old_gui E) e of (cs, e') \<Rightarrow>
                  Inr ((), post [(Pane BP_Pane, Gui_Evt e' (CurrentModule (m_debug_event (m_trc_debug s))))] (s\<lparr>trc_calls := trc_calls s @ cs\<rparr>))))"

definition show_breakpoints :: "'s ui_env \<Rightarrow> gui_event \<Rightarrow> string option \<Rightarrow> ('s ui, unit) op" where
  "show_breakpoints E e module s =
     (case OnAddBP (\<lambda>ses tid. trc_get_bp_list E ses tid (target s)) module e of
        Inl f \<Rightarrow> Inl f
      | Inr rows \<Rightarrow> Inr ((), s\<lparr>break_rows := rows\<rparr>))"

text \<open>
  \<open>OnExceptHandle\<close> asks in a modal box, so no command of the window is taken before it has signalled.
  \<open>DbgEventToLog\<close> and \<open>OnDelBP\<close> do nothing.
\<close>

fun run_handler :: "'s ui_env \<Rightarrow> handler \<Rightarrow> wx_event \<Rightarrow> ('s ui, unit) op" where
  "run_handler E Main_OnExceptHandle (Except_Evt e) s =
     Inr ((), s\<lparr>frame := signal_except (on_except_handle (wx E) (box_answer E (m_except_event e)) (frame s))\<rparr>)"
| "run_handler E Main_OnMsgBP (Gui_Evt e _) s = show_message E e s"
| "run_handler E CPU_AddItem (Debug_Evt e) s = show_code E e s"
| "run_handler E Log_ExceptEventToLog (Except_Evt e) s =
     Inr ((), s\<lparr>log_lines := log_lines s @ [ExceptEventToLog (EventCode (m_except_event e)) (FrameEip (m_except_event e))]\<rparr>)"
| "run_handler E Log_ProcEventToLog (Proc_Evt e) s =
     Inr ((), s\<lparr>status_text := ProcEventToLog (proc_data E (m_proc_event e) (target s))\<rparr>)"
| "run_handler E Reg_Output (Debug_Evt e) s = show_registers E e s"
| "run_handler E BP_OnAddBP (Gui_Evt e m) s = show_breakpoints E e m s"
| "run_handler E Mem_RefreshMemory (Debug_Evt e) s = RefreshMemory E e s"
| "run_handler E Stack_RefreshMemory (Debug_Evt e) s = RefreshStack E e s"
| "run_handler E _ _ s = Inr ((), s)"

definition deliver :: "'s ui_env \<Rightarrow> receiver \<times> wx_event \<Rightarrow> ('s ui, unit) op" where
  "deliver E re s = (case handler_of (fst re) (snd re) of None \<Rightarrow> Inr ((), s) | Some h \<Rightarrow> run_handler E h (snd re) s)"

section \<open>Callbacks of the tracer\<close>

text \<open>
  \<open>thunk_dbg_event\<close> up to the wait; \<open>thunk_proc_event\<close> does not wait, so what its pointer points to is read when the event is handled.
  The lists of modules and threads are filled on the thread of the tracer.
\<close>

definition thunk_dbg_event :: "'s ui_env \<Rightarrow> exception_event \<Rightarrow> ('s ui, unit) op" where
  "thunk_dbg_event E evt s =
     (let ses = m_sesId (m_debugger s);
          d = setDebugSesId ses (setDebugEvent evt (m_trc_debug s)) in
      case RefreshModList (trc_get_module_list E ses (target s)) of
        Inl f \<Rightarrow> Inl f
      | Inr ms \<Rightarrow>
          (case RefreshThreadList (trc_get_thread_list E ses (target s)) of
             Inl f \<Rightarrow> Inl f
           | Inr ts \<Rightarrow>
               Inr ((), post [(Pane CPU_Pane, Debug_Evt d), (Pane Log_Pane, Debug_Evt d), (Pane Reg_Pane, Debug_Evt d),
                   (Pane Mem_Pane, Debug_Evt d), (Pane Stack_Pane, Debug_Evt d)]
                 (s\<lparr>m_trc_debug := d, mod_rows := ms, thread_rows := ts, frame := dbg_event_post (frame s)\<rparr>))))"

definition thunk_except_event :: "exception_event \<Rightarrow> 's ui \<Rightarrow> 's ui" where
  "thunk_except_event evt s =
     (let x = setExceptSesId (m_sesId (m_debugger s)) (setExceptEvent evt (m_trc_except s))
      in post [(Main_Window, Except_Evt x), (Pane Log_Pane, Except_Evt x)]
           (s\<lparr>m_trc_except := x, frame := except_event_post (frame s)\<rparr>))"

definition thunk_proc_event :: "process_event \<Rightarrow> 's ui \<Rightarrow> 's ui" where
  "thunk_proc_event evt s =
     (let p = setProcSesId (m_sesId (m_debugger s)) (setProcEvent evt (m_trc_proc s))
      in post [(Pane Log_Pane, Proc_Evt p)] (s\<lparr>m_trc_proc := p\<rparr>))"

section \<open>The user\<close>

text \<open>What the user does in the windows that the other components handle, and what the dialog to open a module answers.\<close>

datatype user_action =
    Give command
  | Use_Memory view_event
  | Use_Stack view_event
  | Right_Click nat
  | Toggle_Breakpoint
  | Double_Click nat string          \<comment> \<open>line and selected text in the register window\<close>
  | Open_Module "string option" u32

fun user_act :: "'s ui_env \<Rightarrow> user_action \<Rightarrow> ('s ui, unit) op" where
  "user_act E (Give k) s = Inr ((), s\<lparr>frame := signal_debug (on_command k (frame s))\<rparr>)"
| "user_act E (Use_Memory e) s =
     (case view_handle e (memory_view s) of Inl f \<Rightarrow> Inl f | Inr (_, l) \<Rightarrow> Inr ((), s\<lparr>memory_view := l\<rparr>))"
| "user_act E (Use_Stack e) s =
     (case view_handle e (stack_view s) of Inl f \<Rightarrow> Inl f | Inr (_, l) \<Rightarrow> Inr ((), s\<lparr>stack_view := l\<rparr>))"
| "user_act E (Right_Click i) s = Inr ((), s\<lparr>cpu := OnRightClick i (cpu s)\<rparr>)"
| "user_act E Toggle_Breakpoint s = Inr ((), post [(Main_Window, Gui_Evt (OnToggleBP (old_gui E) (cpu s)) None)] s)"
| "user_act E (Double_Click line str) s =
     (let (r, t) = OnLeftDClick (contexts E) (asking E) (old_number E) (old_ctx E) (old_ctx E) line str (fst (regs s), target s)
      in Inr ((), s\<lparr>regs := (r, snd (regs s)), target := t\<rparr>))"
| "user_act E (Open_Module path ses) s = Inr ((), s\<lparr>m_debugger := OnOpenModule path ses (m_debugger s)\<rparr>)"

section \<open>Steps\<close>

text \<open>
  The thread of the windows takes the events of a window in the order they were posted; those of different
  windows in any order. The target changes by itself only while it runs, and the tracer calls back from there.
\<close>

definition next_event :: "nat \<Rightarrow> (receiver \<times> wx_event) list \<Rightarrow> bool" where
  "next_event i q \<longleftrightarrow> i < length q \<and> fst (q ! i) \<notin> fst ` set (take i q)"

definition without :: "nat \<Rightarrow> 'a list \<Rightarrow> 'a list" where
  "without i q = take i q @ drop (Suc i) q"

inductive ui_step :: "'s ui_env \<Rightarrow> 's ui \<Rightarrow> 's ui \<Rightarrow> bool" for E where
  runs: "trc_thread (frame s) = Running \<Longrightarrow> ui_step E s (s\<lparr>target := t\<rparr>)"
| stops: "trc_thread (frame s) = Running \<Longrightarrow> thunk_dbg_event E evt s = Inr ((), s') \<Longrightarrow> ui_step E s s'"
| stop_waits: "trc_thread (frame s) = Debug_Posted \<Longrightarrow> ui_step E s (s\<lparr>frame := dbg_event_wait (frame s)\<rparr>)"
| resumes: "trc_thread (frame s) = Debug_Woken \<Longrightarrow> ui_step E s (s\<lparr>frame := dbg_event_return (frame s)\<rparr>)"
| raises: "trc_thread (frame s) = Running \<Longrightarrow> ui_step E s (thunk_except_event evt s)"
| raise_waits: "trc_thread (frame s) = Except_Posted \<Longrightarrow> ui_step E s (s\<lparr>frame := except_event_wait (frame s)\<rparr>)"
| answered: "trc_thread (frame s) = Except_Woken \<Longrightarrow> ui_step E s (s\<lparr>frame := except_event_return (frame s)\<rparr>)"
| reports: "trc_thread (frame s) = Running \<Longrightarrow> ui_step E s (thunk_proc_event p s)"
| handles: "next_event i (pending s) \<Longrightarrow> deliver E (pending s ! i) (s\<lparr>pending := without i (pending s)\<rparr>) = Inr ((), s')
    \<Longrightarrow> ui_step E s s'"
| acts: "user_act E a s = Inr ((), s') \<Longrightarrow> ui_step E s s'"

inductive_cases ui_stepE: "ui_step E s t"

inductive ui_reach :: "'s ui_env \<Rightarrow> 's ui \<Rightarrow> 's ui \<Rightarrow> bool" for E s where
  ui_refl: "ui_reach E s s"
| ui_more: "ui_reach E s t \<Longrightarrow> ui_step E t u \<Longrightarrow> ui_reach E s u"

end
