(* ===== verification/Ui_Refresh.thy ===== *)
theory Ui_Refresh
  imports "HOL-Library.Multiset" Ui_Events Ui_Memory_Properties Ui_Disasm_Properties
begin

text \<open>
  What the windows show after a stop. The events of a stop go to different windows, so the order in which they are
  handled does not matter: the locale \<open>separate_windows\<close> states why, and is interpreted on the panes.
\<close>

section \<open>Windows that do not interfere\<close>

text \<open>
  \<open>alike w s t\<close>: window \<open>w\<close>, and all that its handler reads, is the same in both states. An event changes only its
  own window, and what it does depends only on that.
\<close>

locale separate_windows =
  fixes alike :: "'w \<Rightarrow> 's \<Rightarrow> 's \<Rightarrow> bool"
    and run :: "'w \<times> 'e \<Rightarrow> ('s, unit) op"
  assumes alike_refl: "alike w s s"
    and alike_trans: "alike w s t \<Longrightarrow> alike w t u \<Longrightarrow> alike w s u"
    and frame: "run (w, e) s = Inr ((), t) \<Longrightarrow> v \<noteq> w \<Longrightarrow> alike v s t"
    and local: "alike w s t \<Longrightarrow> run (w, e) s = Inr ((), s') \<Longrightarrow> \<exists>t'. run (w, e) t = Inr ((), t') \<and> alike w s' t'"
begin

text \<open>After all events every window is as its event alone leaves it.\<close>

lemma each_alone:
  assumes "distinct (map fst q)" and "\<And>w e. (w, e) \<in> set q \<Longrightarrow> \<exists>t. run (w, e) s = Inr ((), t)"
  shows "\<exists>s'. each run q s = Inr ((), s') \<and> (\<forall>w e t. (w, e) \<in> set q \<longrightarrow> run (w, e) s = Inr ((), t) \<longrightarrow> alike w t s')
    \<and> (\<forall>w. w \<notin> fst ` set q \<longrightarrow> alike w s s')"
  using assms
proof (induction q arbitrary: s)
  case Nil
  then show ?case by (simp add: alike_refl)
next
  case (Cons x q)
  obtain w e where x: "x = (w, e)" by (cases x)
  obtain s1 where s1: "run (w, e) s = Inr ((), s1)" using Cons.prems(2) x by auto
  have new: "w \<notin> fst ` set q" using Cons.prems(1) x by simp
  have other: "alike v s s1" if "v \<noteq> w" for v by (rule frame [OF s1 that])
  have moved: "\<exists>t'. run (v, f) s1 = Inr ((), t') \<and> alike v t t'" if "(v, f) \<in> set q" "run (v, f) s = Inr ((), t)" for v f t
  proof -
    have "v \<noteq> w" using new that(1) by force
    from local [OF other [OF this] that(2)] show ?thesis .
  qed
  have "\<exists>t. run (v, f) s1 = Inr ((), t)" if "(v, f) \<in> set q" for v f
    using Cons.prems(2) [of v f] moved [OF that] that by fastforce
  with Cons.IH [of s1] Cons.prems(1) obtain s' where s': "each run q s1 = Inr ((), s')"
    "\<And>v f t. (v, f) \<in> set q \<Longrightarrow> run (v, f) s1 = Inr ((), t) \<Longrightarrow> alike v t s'" "\<And>v. v \<notin> fst ` set q \<Longrightarrow> alike v s1 s'"
    by auto
  have "each run (x # q) s = Inr ((), s')" using x s1 s'(1) by simp
  moreover have "alike v t s'" if "(v, f) \<in> set (x # q)" "run (v, f) s = Inr ((), t)" for v f t
  proof (cases "(v, f) \<in> set q")
    case True
    then show ?thesis using moved [OF True that(2)] s'(2) [OF True] alike_trans by blast
  next
    case False
    then have "(v, f) = (w, e)" using that(1) x by auto
    then show ?thesis using that(2) s1 s'(3) [OF new] by simp
  qed
  moreover have "alike v s s'" if "v \<notin> fst ` set (x # q)" for v
    using that x other [of v] s'(3) [of v] alike_trans by (metis fst_conv image_insert insertCI list.simps(15))
  ultimately show ?case by blast
qed

end

text \<open>The panes of the main window, with what they show.\<close>

fun pane_alike :: "pane \<Rightarrow> 's ui \<Rightarrow> 's ui \<Rightarrow> bool" where
  "pane_alike CPU_Pane s t \<longleftrightarrow> target s = target t \<and> cpu s = cpu t \<and> str_hex s = str_hex t"
| "pane_alike Log_Pane s t \<longleftrightarrow> log_lines s = log_lines t"
| "pane_alike Reg_Pane s t \<longleftrightarrow> target s = target t \<and> regs s = regs t"
| "pane_alike BP_Pane s t \<longleftrightarrow> break_rows s = break_rows t"
| "pane_alike Mod_Pane s t \<longleftrightarrow> mod_rows s = mod_rows t"
| "pane_alike Mem_Pane s t \<longleftrightarrow> target s = target t \<and> memory_view s = memory_view t"
| "pane_alike Thread_Pane s t \<longleftrightarrow> thread_rows s = thread_rows t"
| "pane_alike Stack_Pane s t \<longleftrightarrow> target s = target t \<and> stack_view s = stack_view t"

definition refresh :: "'s ui_env \<Rightarrow> pane \<times> TrcDebugEvent \<Rightarrow> ('s ui, unit) op" where
  "refresh E pe = deliver E (Pane (fst pe), Debug_Evt (snd pe))"

lemma refresh_simps:
  "refresh E (CPU_Pane, e) = show_code E e" "refresh E (Reg_Pane, e) = show_registers E e"
  "refresh E (Mem_Pane, e) = RefreshMemory E e" "refresh E (Stack_Pane, e) = RefreshStack E e"
  "refresh E (Log_Pane, e) s = Inr ((), s)" "refresh E (BP_Pane, e) s = Inr ((), s)"
  "refresh E (Mod_Pane, e) s = Inr ((), s)" "refresh E (Thread_Pane, e) s = Inr ((), s)"
  by (auto simp: refresh_def deliver_def event_tables fun_eq_iff)

lemmas refresh_defs = refresh_simps show_code_def show_registers_def RefreshMemory_def RefreshStack_def

text \<open>A refresh changes nothing but the panes.\<close>

lemma refresh_keeps:
  assumes "refresh E (p, e) s = Inr ((), t)"
  shows "target t = target s \<and> pending t = pending s \<and> frame t = frame s \<and> m_trc_debug t = m_trc_debug s
    \<and> trc_calls t = trc_calls s \<and> m_debugger t = m_debugger s"
  using assms by (cases p) (auto simp: refresh_defs split: sum.splits option.splits prod.splits)

interpretation panes: separate_windows pane_alike "refresh E"
proof
  show "pane_alike w s s" for w and s :: "'a ui" by (cases w) auto
  show "pane_alike w s t \<Longrightarrow> pane_alike w t u \<Longrightarrow> pane_alike w s u" for w and s t u :: "'a ui" by (cases w) auto
  show "pane_alike v s t" if "refresh E (w, e) s = Inr ((), t)" "v \<noteq> w" for w e v and s t :: "'a ui"
    using that by (cases w; cases v) (auto simp: refresh_defs split: sum.splits option.splits prod.splits)
  show "\<exists>t'. refresh E (w, e) t = Inr ((), t') \<and> pane_alike w s' t'"
    if "pane_alike w s t" "refresh E (w, e) s = Inr ((), s')" for w e and s t s' :: "'a ui"
    using that by (cases w) (auto simp: refresh_defs split: sum.splits option.splits prod.splits)
qed

section \<open>A stop\<close>

definition stop_panes :: "pane list" where
  "stop_panes = [CPU_Pane, Log_Pane, Reg_Pane, Mem_Pane, Stack_Pane]"

lemma each_deliver: "each (deliver E) (map (\<lambda>p. (Pane p, Debug_Evt d)) ps) = each (refresh E) (map (\<lambda>p. (p, d)) ps)"
  by (induction ps) (simp_all add: refresh_def)

text \<open>The events of a stop, in any order.\<close>

lemma posted_order:
  assumes "mset q = mset (map (\<lambda>p. (Pane p, Debug_Evt d)) stop_panes)"
  obtains ps where "q = map (\<lambda>p. (Pane p, Debug_Evt d)) ps" and "mset ps = mset stop_panes"
proof
  let ?f = "\<lambda>p. (Pane p, Debug_Evt d)"
  let ?g = "\<lambda>re. case fst re of Pane p \<Rightarrow> p | Main_Window \<Rightarrow> CPU_Pane"
  have "?f (?g x) = x" if "x \<in> set q" for x
  proof -
    have "x \<in> set (map ?f stop_panes)" using that mset_eq_setD [OF assms] by simp
    then show ?thesis by auto
  qed
  then show "q = map ?f (map ?g q)" by (simp add: map_idI)
  have "mset (map ?g q) = image_mset ?g (mset (map ?f stop_panes))" using assms by simp
  then show "mset (map ?g q) = mset stop_panes" by (simp add: image_mset.compositionality comp_def)
qed

lemma thunk_dbg_event_posts:
  assumes "thunk_dbg_event E evt s = Inr ((), s1)" and "pending s = []"
  defines "d \<equiv> setDebugSesId (m_sesId (m_debugger s)) (setDebugEvent evt (m_trc_debug s))"
  shows "pending s1 = map (\<lambda>p. (Pane p, Debug_Evt d)) stop_panes \<and> target s1 = target s \<and> cpu s1 = cpu s \<and> str_hex s1 = str_hex s
    \<and> regs s1 = regs s \<and> memory_view s1 = memory_view s \<and> stack_view s1 = stack_view s
    \<and> RefreshThreadList (trc_get_thread_list E (m_sesId (m_debugger s)) (target s)) = Inr (thread_rows s1)
    \<and> RefreshModList (trc_get_module_list E (m_sesId (m_debugger s)) (target s)) = Inr (mod_rows s1)"
  using assms(1,2) by (auto simp: thunk_dbg_event_def Let_def stop_panes_def d_def split: sum.splits)

lemma memory_shown_stack:
  assumes "length bs = 1024" and "view_ok l" and "read (ebp - 1024) 1024 = bs"
  shows "memory_shown (ebp - 1024) bs (output_stack read ebp l)"
proof -
  have "output_stack read ebp l = output_memory (\<lambda>_ _. bs) (ebp - 1024) l"
    using assms(3) by (simp add: output_stack_def output_memory_def Let_def)
  then show ?thesis using memory_shown_output [OF assms(1,2)] by simp
qed

lemma memory_shown_read:
  assumes "length bs = 1024" and "view_ok l" and "read a 1024 = bs"
  shows "memory_shown a bs (output_memory read a l)"
proof -
  have "output_memory read a l = output_memory (\<lambda>_ _. bs) a l" using assms(3) by (simp add: output_memory_def)
  then show ?thesis using memory_shown_output [OF assms(1,2)] by simp
qed

text \<open>What the context of a thread is read as, and a target that can be shown.\<close>

definition context_of :: "'s ui_env \<Rightarrow> u32 \<Rightarrow> u32 \<Rightarrow> 's \<Rightarrow> thread_ctx" where
  "context_of E ses tid t = snd (trc_get_thread_ctx (contexts E) ses tid (old_ctx E) t)"

definition readable :: "'s ui_env \<Rightarrow> u32 \<Rightarrow> 's \<Rightarrow> u32 \<Rightarrow> u8 list \<Rightarrow> bool" where
  "readable E ses t a bs \<longleftrightarrow> length bs = 1024 \<and> trc_read_memory E ses t a 1024 = Some bs"

lemma alone_refresh:
  assumes "trc_get_thread_list E (debug_sesId d) (target s) = Some (th # ths)" and "CurrentThread (m_debug_event d) = Some tid"
    and "show_code E d s = Inr ((), s\<lparr>cpu := c, str_hex := h\<rparr>)"
  defines "ctx \<equiv> context_of E (debug_sesId d) (fst th) (target s)"
  shows "refresh E (CPU_Pane, d) s = Inr ((), s\<lparr>cpu := c, str_hex := h\<rparr>)"
    and "refresh E (Reg_Pane, d) s
      = Inr ((), s\<lparr>regs := reg_output (contexts E) (old_ctx E) (debug_sesId d) tid (target s) (regs s)\<rparr>)"
    and "refresh E (Mem_Pane, d) s
      = Inr ((), s\<lparr>memory_view := output_memory (read_buffer E (debug_sesId d) (target s)) (Eip ctx) (memory_view s)\<rparr>)"
    and "refresh E (Stack_Pane, d) s
      = Inr ((), s\<lparr>stack_view := output_stack (read_buffer E (debug_sesId d) (target s)) (Ebp ctx) (stack_view s)\<rparr>)"
  using assms by (simp_all add: refresh_simps show_registers_def RefreshMemory_def RefreshStack_def first_context_def context_of_def)

lemma refresh_all:
  assumes "mset ps = mset stop_panes"
    and "trc_get_thread_list E (debug_sesId d) (target s) = Some (th # ths)" and "CurrentThread (m_debug_event d) = Some tid"
    and "show_code E d s = Inr ((), s\<lparr>cpu := c, str_hex := h\<rparr>)"
  defines "ctx \<equiv> context_of E (debug_sesId d) (fst th) (target s)"
  shows "\<exists>s2. each (refresh E) (map (\<lambda>p. (p, d)) ps) s = Inr ((), s2)
    \<and> cpu s2 = c \<and> regs s2 = reg_output (contexts E) (old_ctx E) (debug_sesId d) tid (target s) (regs s)
    \<and> memory_view s2 = output_memory (read_buffer E (debug_sesId d) (target s)) (Eip ctx) (memory_view s)
    \<and> stack_view s2 = output_stack (read_buffer E (debug_sesId d) (target s)) (Ebp ctx) (stack_view s)
    \<and> thread_rows s2 = thread_rows s \<and> mod_rows s2 = mod_rows s \<and> break_rows s2 = break_rows s \<and> log_lines s2 = log_lines s"
proof -
  let ?q = "map (\<lambda>p. (p, d)) ps"
  note alone = alone_refresh [OF assms(2-4), folded ctx_def]
  have set: "set ps = set stop_panes" using mset_eq_setD [OF assms(1)] .
  have "distinct ps" using mset_eq_imp_distinct_iff [OF assms(1)] by (simp add: stop_panes_def)
  then have dist: "distinct (map fst ?q)" by (simp add: comp_def)
  have runs: "\<exists>t. refresh E (p, e) s = Inr ((), t)" if "(p, e) \<in> set ?q" for p e
    using that alone set by (auto simp: stop_panes_def refresh_simps)
  obtain s2 where s2: "each (refresh E) ?q s = Inr ((), s2)"
    "\<And>p e t. (p, e) \<in> set ?q \<Longrightarrow> refresh E (p, e) s = Inr ((), t) \<Longrightarrow> pane_alike p t s2"
    "\<And>p. p \<notin> fst ` set ?q \<Longrightarrow> pane_alike p s s2"
    using panes.each_alone [of ?q E s, OF dist runs] by blast
  have mem: "(p, d) \<in> set ?q" if "p \<in> set stop_panes" for p using that set by auto
  have "pane_alike CPU_Pane (s\<lparr>cpu := c, str_hex := h\<rparr>) s2" by (rule s2(2) [OF mem alone(1)]) (simp add: stop_panes_def)
  moreover have "pane_alike Log_Pane s s2" by (rule s2(2) [OF mem refresh_simps(5)]) (simp add: stop_panes_def)
  moreover note s2(2) [OF mem alone(2)] s2(2) [OF mem alone(3)] s2(2) [OF mem alone(4)]
  moreover have "pane_alike p s s2" if "p \<in> {Mod_Pane, Thread_Pane, BP_Pane}" for p
    using that set s2(3) [of p] by (force simp: stop_panes_def)
  ultimately show ?thesis using s2(1) by (force simp: stop_panes_def)
qed


text \<open>A target with two threads, of which the second stops.\<close>

definition still_ctx :: "u32 \<Rightarrow> thread_ctx" where
  "still_ctx eip = \<lparr>Dr0 = 0, Dr1 = 0, Dr2 = 0, Dr3 = 0, Dr6 = 0, Dr7 = 0, SegGs = 0, SegFs = 0, SegEs = 0, SegDs = 0, Edi = 0, Esi = 0,
     Ebx = 0, Edx = 0, Ecx = 0, Eax = 0, Ebp = 0x12F000, Eip = eip, SegCs = 0, EFlags = 0, Esp = 0, SegSs = 0, other = []\<rparr>"

definition nop_block :: "u8 list" where
  "nop_block = 0x90 # replicate 1023 0"

definition two_threads :: "unit ui_env" where
  "two_threads = \<lparr>contexts = \<lparr>trc_get_thread_ctx = \<lambda>ses tid old t. (1, still_ctx (if tid = 1 then 0x401000 else 0x402000)),
       trc_set_thread_ctx = \<lambda>ses tid c t. (1, t)\<rparr>,
     decoding = nop_decoder, trc_read_memory = \<lambda>ses t a n. Some (take n nop_block),
     trc_get_thread_list = \<lambda>ses t. Some [(1, 0x7FFDE000), (2, 0x7FFDD000)], trc_get_module_list = \<lambda>ses t. Some [],
     trc_get_bp_list = \<lambda>ses tid t. Some [], proc_data = \<lambda>e t. Other_Proc_Event, wx = \<lparr>wxYES = 2, wxNO = 8, wxID_YES = 5103\<rparr>, box_answer = \<lambda>e. 2,
     old_ctx = still_ctx 0, old_row = nop_row, old_bytes = [],
     old_gui = \<lparr>gui_id = GUI_MSG_OTHER, addrBP = [], disasmBP = [], gui_sesId = 0, gui_tid = 0\<rparr>,
     old_number = 0, asking = \<lparr>ToULong = \<lambda>t old. old, wxGetTextFromUser = \<lambda>t d. []\<rparr>\<rparr>"

definition no_exception :: exception_event where
  "no_exception = \<lparr>EventCode = 0, FrameEip = 0, CurrentThread = None, CurrentModule = None\<rparr>"

definition fresh_ui :: "unit ui" where
  "fresh_ui = \<lparr>cpu = no_lines, str_hex = [], regs = (\<lparr>ctrl_sesId = 0, ctrl_tid = 0, ctrl_text = [], errors = []\<rparr>,
       \<lparr>ctrl_sesId = 0, ctrl_tid = 0, ctrl_text = [], errors = []\<rparr>),
     memory_view = demo_view, stack_view = demo_view, log_lines = [], status_text = [], mod_rows = [], thread_rows = [], break_rows = [],
     m_trc_except = \<lparr>m_except_event = no_exception, except_sesId = 0\<rparr>, m_trc_debug = \<lparr>m_debug_event = no_exception, debug_sesId = 0\<rparr>,
     m_trc_proc = \<lparr>m_proc_event = \<lparr>ProcCode = 0, ProcPtr = 0\<rparr>, proc_sesId = 0\<rparr>, m_debugger = new_debugger, frame = new_main_frame,
     pending = [], trc_calls = [], target = ()\<rparr>"

definition second_stops :: exception_event where
  "second_stops = \<lparr>EventCode = 1, FrameEip = 0x402000, CurrentThread = Some 2, CurrentModule = None\<rparr>"

definition stopped_ui :: "unit ui" where
  "stopped_ui = (case thunk_dbg_event two_threads second_stops fresh_ui of Inr (_, s) \<Rightarrow> s | Inl _ \<Rightarrow> fresh_ui)"


end
