(* ===== verification/Ui_System.thy ===== *)
theory Ui_System
  imports Ui_Refresh
begin

text \<open>
  The whole of the graphical debugger, with its queue of events and its windows, is a refinement of the two threads of
  \<open>Ui_Main\<close>, which only count the exceptions that wait for an answer.
\<close>

section \<open>What is in the queue\<close>

text \<open>The events the program posts, and to whom.\<close>

fun expected :: "receiver \<times> wx_event \<Rightarrow> bool" where
  "expected (r, Except_Evt e) \<longleftrightarrow> r = Main_Window \<or> r = Pane Log_Pane"
| "expected (r, Debug_Evt e) \<longleftrightarrow> r \<in> {Pane CPU_Pane, Pane Log_Pane, Pane Reg_Pane, Pane Mem_Pane, Pane Stack_Pane}"
| "expected (r, Proc_Evt e) \<longleftrightarrow> r = Pane Log_Pane"
| "expected (r, Gui_Evt e m) \<longleftrightarrow> (r = Main_Window \<or> r = Pane BP_Pane) \<and> gui_id e \<noteq> GUI_MSG_OTHER"

fun asks_user :: "receiver \<times> wx_event \<Rightarrow> bool" where
  "asks_user (Main_Window, Except_Evt e) \<longleftrightarrow> True"
| "asks_user _ \<longleftrightarrow> False"

definition waiting_exceptions :: "'s ui \<Rightarrow> nat" where
  "waiting_exceptions s = length (filter asks_user (pending s))"

text \<open>A table of its own, without that of the parent.\<close>

fun own_table :: "receiver \<Rightarrow> event_table" where
  "own_table Main_Window = main_table"
| "own_table (Pane p) = pane_table p"

lemma expected_handled: "expected (r, e) \<Longrightarrow> find_handler (own_table r) (type_of e) (id_of e) \<noteq> None"
proof (cases e)
  case (Gui_Evt g m)
  then show "expected (r, e) \<Longrightarrow> ?thesis" by (cases "gui_id g") (auto simp: event_tables)
qed (auto simp: event_tables)

lemma without_events:
  assumes "i < length q"
  shows "set (without i q) \<subseteq> set q" "length (filter P (without i q)) = length (filter P q) - (if P (q ! i) then 1 else 0)"
proof -
  have q: "q = take i q @ q ! i # drop (Suc i) q" using assms by (simp add: Cons_nth_drop_Suc)
  show "set (without i q) \<subseteq> set q" unfolding without_def by (auto dest: in_set_takeD in_set_dropD)
  have "filter P q = filter P (take i q) @ (if P (q ! i) then [q ! i] else []) @ filter P (drop (Suc i) q)"
    by (subst q) (simp del: append_take_drop_id)
  then show "length (filter P (without i q)) = length (filter P q) - (if P (q ! i) then 1 else 0)"
    by (simp add: without_def)
qed

section \<open>One event\<close>

definition harmless :: "'s ui \<Rightarrow> 's ui \<Rightarrow> bool" where
  "harmless s t \<longleftrightarrow> frame t = frame s
     \<and> (pending t = pending s \<or> (\<exists>r e m. expected (r, Gui_Evt e m) \<and> pending t = pending s @ [(r, Gui_Evt e m)]))"

lemma OnMsgBP_id: "gui_id (snd (OnMsgBP ses tid u e)) = gui_id e"
  by (cases "gui_id e") (simp_all add: OnMsgBP_def Let_def)

lemma show_message_harmless:
  assumes "show_message E g s = Inr ((), t)" and "gui_id g \<noteq> GUI_MSG_OTHER"
  shows "harmless s t"
proof -
  obtain tid where tid: "CurrentThread (m_debug_event (m_trc_debug s)) = Some tid"
    using assms by (auto simp: show_message_def split: option.splits)
  obtain cs g' where msg: "OnMsgBP (debug_sesId (m_trc_debug s)) tid (old_gui E) g = (cs, g')" by fastforce
  then have "gui_id g' = gui_id g" using OnMsgBP_id by (metis snd_conv)
  then show ?thesis using assms tid msg by (auto simp: show_message_def harmless_def)
qed

lemma deliver_harmless:
  assumes "deliver E (r, e) s = Inr ((), t)" and "expected (r, e)" and "\<not> asks_user (r, e)"
  shows "harmless s t"
proof (cases e)
  case (Gui_Evt g m)
  then consider "r = Main_Window" "gui_id g \<noteq> GUI_MSG_OTHER" | "r = Pane BP_Pane" "gui_id g \<noteq> GUI_MSG_OTHER" using assms(2) by auto
  then show ?thesis
  proof cases
    case 1
    with assms(1) Gui_Evt show ?thesis by (auto simp: deliver_def event_tables intro: show_message_harmless)
  next
    case 2
    with assms(1) Gui_Evt show ?thesis
      by (cases "gui_id g") (auto simp: deliver_def event_tables show_breakpoints_def harmless_def split: sum.splits)
  qed
next
  case (Debug_Evt d)
  with assms(1,2) show ?thesis
    by (auto simp: deliver_def event_tables harmless_def show_code_def show_registers_def RefreshMemory_def RefreshStack_def
        split: sum.splits option.splits prod.splits)
next
  case (Except_Evt x)
  with assms show ?thesis by (auto simp: deliver_def event_tables harmless_def)
next
  case (Proc_Evt p)
  with assms(1,2) show ?thesis by (auto simp: deliver_def event_tables harmless_def)
qed

lemma user_harmless:
  assumes "user_act E a s = Inr ((), t)" and "\<And>k. a \<noteq> Give k"
  shows "harmless s t"
  using assms
  by (cases a) (auto simp: harmless_def OnToggleBP_def Let_def split: sum.splits prod.splits)

section \<open>The system\<close>

definition system_ok :: "'s ui_env \<Rightarrow> 's ui \<Rightarrow> bool" where
  "system_ok E s \<longleftrightarrow> main_reach (wx E) new_main_frame (frame s) \<and> gui_thread (frame s) = Gui_Idle
     \<and> except_events (frame s) = waiting_exceptions s \<and> (\<forall>re \<in> set (pending s). expected re)"

lemma waiting_gui [simp]: "\<not> asks_user (r, Gui_Evt e m)" by (cases r) simp_all

lemma harmless_ok:
  assumes "system_ok E s" and "harmless s t"
  shows "system_ok E t"
  using assms by (auto simp: system_ok_def harmless_def waiting_exceptions_def simp del: expected.simps)

text \<open>A step of the two threads, with the events that are posted with it.\<close>

lemma main_step_ok:
  assumes "system_ok E s" and "main_reach (wx E) (frame s) f" and "gui_thread f = Gui_Idle"
    and "frame t = f" and "pending t = pending s @ es" and "\<forall>re \<in> set es. expected re"
    and "except_events f = except_events (frame s) + length (filter asks_user es)"
  shows "system_ok E t"
  using assms main_reach_trans by (auto simp: system_ok_def waiting_exceptions_def)

lemma main_one: "main_step C s t \<Longrightarrow> main_reach C s t"
  by (blast intro: main_refl main_more)

lemma command_reach:
  assumes "gui_thread f = Gui_Idle"
  shows "main_reach C f (signal_debug (on_command k f))"
proof -
  have "main_step C f (on_command k f)" using assms by (rule main_step.command)
  moreover have "main_step C (on_command k f) (signal_debug (on_command k f))"
    by (rule main_step.signals_debug) (simp add: on_command_def)
  ultimately show ?thesis by (meson main_refl main_more)
qed

lemma asking_reach:
  assumes "gui_thread f = Gui_Idle" and "0 < except_events f" and "box \<in> {wxYES C, wxNO C}"
  shows "main_reach C f (signal_except (on_except_handle C box f))"
proof -
  have "main_step C f (on_except_handle C box f)" using assms by (rule main_step.asks)
  moreover have "main_step C (on_except_handle C box f) (signal_except (on_except_handle C box f))"
    by (rule main_step.signals_except) (simp add: on_except_handle_def)
  ultimately show ?thesis by (meson main_refl main_more)
qed

lemma frame_step_ok:
  assumes "system_ok E s" and "main_step (wx E) (frame s) f" and "gui_thread f = gui_thread (frame s)"
    and "except_events f = except_events (frame s)"
  shows "system_ok E (s\<lparr>frame := f\<rparr>)"
  using assms main_step_ok [OF assms(1) main_one [OF assms(2)], of "s\<lparr>frame := f\<rparr>" "[]"] by (simp add: system_ok_def)

lemma handles_ok:
  assumes ok: "system_ok E s" and boxes: "\<And>e. box_answer E e \<in> {wxYES (wx E), wxNO (wx E)}"
    and i: "i < length (pending s)" and run: "deliver E (pending s ! i) (s\<lparr>pending := without i (pending s)\<rparr>) = Inr ((), t)"
  shows "system_ok E t"
proof -
  let ?s = "s\<lparr>pending := without i (pending s)\<rparr>"
  obtain r e where re: "pending s ! i = (r, e)" by fastforce
  have ex: "expected (r, e)" using ok i nth_mem [of i "pending s"] unfolding re system_ok_def by simp
  have left: "\<forall>re \<in> set (pending ?s). expected re"
    using ok without_events(1) [OF i] by (auto simp: system_ok_def simp del: expected.simps)
  have count: "waiting_exceptions ?s = waiting_exceptions s - (if asks_user (r, e) then 1 else 0)"
    using without_events(2) [OF i, of asks_user] unfolding re by (simp add: waiting_exceptions_def)
  show ?thesis
  proof (cases "asks_user (r, e)")
    case False
    then have "system_ok E ?s" using ok left count by (simp add: system_ok_def)
    then show ?thesis using deliver_harmless [OF _ ex False] run harmless_ok unfolding re by blast
  next
    case True
    then obtain x where x: "r = Main_Window" "e = Except_Evt x" by (elim asks_user.elims(2)) blast
    let ?f = "signal_except (on_except_handle (wx E) (box_answer E (m_except_event x)) (frame s))"
    have t: "t = ?s\<lparr>frame := ?f\<rparr>" using run unfolding re x by (simp add: deliver_def event_tables)
    have "(r, e) \<in> set (filter asks_user (pending s))" using True i re nth_mem [of i "pending s"] by simp
    then have "0 < waiting_exceptions s" unfolding waiting_exceptions_def by (rule length_pos_if_in_set)
    then have "main_reach (wx E) (frame s) ?f" using ok boxes by (intro asking_reach) (simp_all add: system_ok_def)
    then have "main_reach (wx E) new_main_frame ?f" using ok main_reach_trans unfolding system_ok_def by blast
    moreover have "gui_thread ?f = Gui_Idle" "except_events ?f = except_events (frame s) - 1"
      by (simp_all add: signal_except_def on_except_handle_def)
    moreover have "waiting_exceptions t = waiting_exceptions s - 1" using count True unfolding t by (simp add: waiting_exceptions_def)
    ultimately show ?thesis using ok left unfolding t system_ok_def by simp
  qed
qed

lemma system_step:
  assumes "system_ok E s" and "\<And>e. box_answer E e \<in> {wxYES (wx E), wxNO (wx E)}" and "ui_step E s t"
  shows "system_ok E t"
  using assms(3)
proof (cases rule: ui_step.cases)
  case (runs t')
  then show ?thesis using assms(1) by (simp add: system_ok_def waiting_exceptions_def)
next
  case (stops evt)
  obtain d where d: "frame t = dbg_event_post (frame s)" "pending t = pending s @ [(Pane CPU_Pane, Debug_Evt d), (Pane Log_Pane, Debug_Evt d),
      (Pane Reg_Pane, Debug_Evt d), (Pane Mem_Pane, Debug_Evt d), (Pane Stack_Pane, Debug_Evt d)]"
    using stops(2) by (auto simp: thunk_dbg_event_def Let_def split: sum.splits)
  have "main_reach (wx E) (frame s) (dbg_event_post (frame s))" using stops(1) by (intro main_one main_step.debug_stops)
  then show ?thesis
    using assms(1) main_step_ok [OF assms(1) _ _ d] by (simp add: system_ok_def dbg_event_post_def)
next
  case (raises evt)
  obtain x where x: "frame t = except_event_post (frame s)" "pending t = pending s @ [(Main_Window, Except_Evt x), (Pane Log_Pane, Except_Evt x)]"
    using raises(1) by (simp add: thunk_except_event_def Let_def)
  have "main_reach (wx E) (frame s) (except_event_post (frame s))" using raises(2) by (intro main_one main_step.except_stops)
  then show ?thesis
    using assms(1) main_step_ok [OF assms(1) _ _ x] by (simp add: system_ok_def except_event_post_def)
next
  case (reports p)
  obtain x where x: "frame t = frame s" "pending t = pending s @ [(Pane Log_Pane, Proc_Evt x)]"
    using reports(1) by (simp add: thunk_proc_event_def Let_def)
  then show ?thesis using assms(1) main_step_ok [OF assms(1) main_refl _ x] by (simp add: system_ok_def)
next
  case (handles i)
  then show ?thesis using handles_ok [OF assms(1,2), of i t] by (simp add: next_event_def)
next
  case (acts a)
  show ?thesis
  proof (cases "\<exists>k. a = Give k")
    case True
    then obtain k where "t = s\<lparr>frame := signal_debug (on_command k (frame s))\<rparr>" using acts by auto
    moreover have "main_reach (wx E) (frame s) (signal_debug (on_command k (frame s)))"
      using assms(1) by (intro command_reach) (simp add: system_ok_def)
    ultimately show ?thesis
      using assms(1) main_step_ok [OF assms(1), of "signal_debug (on_command k (frame s))" t "[]"]
      by (simp add: signal_debug_def on_command_def system_ok_def)
  next
    case False
    then show ?thesis using acts user_harmless harmless_ok assms(1) by blast
  qed
next
  case stop_waits
  show ?thesis unfolding stop_waits(1)
    by (rule frame_step_ok [OF assms(1) main_step.debug_waits [OF stop_waits(2)]]) (simp_all add: dbg_event_wait_def)
next
  case resumes
  show ?thesis unfolding resumes(1)
    by (rule frame_step_ok [OF assms(1) main_step.debug_returns [OF resumes(2)]]) (simp_all add: dbg_event_return_def)
next
  case raise_waits
  show ?thesis unfolding raise_waits(1)
    by (rule frame_step_ok [OF assms(1) main_step.except_waits [OF raise_waits(2)]]) (simp_all add: except_event_wait_def)
next
  case answered
  show ?thesis unfolding answered(1)
    by (rule frame_step_ok [OF assms(1) main_step.except_returns [OF answered(2)]]) (simp_all add: except_event_return_def)
qed

text \<open>C39: However the windows, the user and the tracer interleave, what the tracer sees is a run of the two threads
  of \<open>Ui_Main\<close>: the queue with its handlers is a refinement of the counter of exceptions that wait for an answer. Every event in
  the queue is one that the table of its own receiver has a handler for.\<close>

theorem windows_refine_main:
  assumes "ui_reach E s0 s" and "frame s0 = new_main_frame" and "pending s0 = []"
    and "\<forall>e. box_answer E e \<in> {wxYES (wx E), wxNO (wx E)}"
  shows "main_reach (wx E) new_main_frame (frame s) \<and> except_events (frame s) = waiting_exceptions s
    \<and> (\<forall>(r, e) \<in> set (pending s). find_handler (own_table r) (type_of e) (id_of e) \<noteq> None)"
proof -
  have "system_ok E s"
    using assms(1)
  proof induction
    case ui_refl
    show ?case using assms(2,3) by (simp add: system_ok_def waiting_exceptions_def new_main_frame_def main_refl)
  next
    case (ui_more t u)
    then show ?case using system_step assms(4) by blast
  qed
  moreover from this have "\<forall>(r, e) \<in> set (pending s). find_handler (own_table r) (type_of e) (id_of e) \<noteq> None"
    using expected_handled unfolding system_ok_def by blast
  ultimately show ?thesis by (simp add: system_ok_def)
qed

text \<open>An exception is raised, and the user has not seen the box yet.\<close>

lemma windows_refine_main_witness:
  "main_reach (wx two_threads) new_main_frame (frame (thunk_except_event second_stops fresh_ui))
   \<and> except_events (frame (thunk_except_event second_stops fresh_ui)) = 1
   \<and> length (pending (thunk_except_event second_stops fresh_ui)) = 2"
proof -
  have start: "frame fresh_ui = new_main_frame" "pending fresh_ui = []" by (simp_all add: fresh_ui_def)
  have "ui_reach two_threads fresh_ui (thunk_except_event second_stops fresh_ui)"
    by (rule ui_more [OF ui_refl ui_step.raises]) (simp add: start new_main_frame_def)
  from windows_refine_main [OF this start]
  have "main_reach (wx two_threads) new_main_frame (frame (thunk_except_event second_stops fresh_ui))" by (simp add: two_threads_def)
  then show ?thesis by (simp add: thunk_except_event_def Let_def start except_event_post_def new_main_frame_def)
qed

text \<open>
  An event with another identifier would never be used up: the window of the breakpoints has no entry for the identifier
  \<open>wxID_ANY\<close>, so the event goes to the main window, which posts it to that window again.
\<close>

lemma stray_message_circulates:
  assumes "gui_id e = GUI_MSG_OTHER"
  shows "\<exists>e'. gui_id e' = GUI_MSG_OTHER \<and> deliver E (Pane BP_Pane, Gui_Evt e m) s = Inr ((), post [(Pane BP_Pane, Gui_Evt e' None)] s)"
  using assms OnMsgBP_id [of 0 0 "old_gui E" e] by (auto simp: deliver_def event_tables show_message_def)

text \<open>
  An event about the process may be shown as something that never happened: the callback returns at once, the target runs on, and the
  window reads what the pointer of the event points to by then.
\<close>

lemma process_event_read_late:
  assumes "trc_thread (frame s) = Running" and "pending s = []"
  shows "\<exists>s'. ui_reach E s s' \<and> status_text s' = ProcEventToLog (proc_data E p t)"
proof -
  let ?e = "Proc_Evt (setProcSesId (m_sesId (m_debugger s)) (setProcEvent p (m_trc_proc s)))"
  let ?s1 = "thunk_proc_event p s"
  let ?s2 = "?s1\<lparr>target := t\<rparr>"
  let ?s3 = "?s2\<lparr>pending := [], status_text := ProcEventToLog (proc_data E p t)\<rparr>"
  have q: "pending ?s2 = [(Pane Log_Pane, ?e)]" "frame ?s1 = frame s" "target ?s2 = t"
    using assms(2) by (simp_all add: thunk_proc_event_def Let_def)
  have "ui_step E s ?s1" using assms(1) by (rule ui_step.reports)
  moreover have "ui_step E ?s1 ?s2" using assms(1) q(2) by (intro ui_step.runs) simp
  moreover have "deliver E (pending ?s2 ! 0) (?s2\<lparr>pending := without 0 (pending ?s2)\<rparr>) = Inr ((), ?s3)"
    unfolding q(1) by (simp add: deliver_def event_tables event_setters without_def q(3))
  then have "ui_step E ?s2 ?s3" using q(1) by (intro ui_step.handles [where i = 0]) (simp_all add: next_event_def)
  ultimately have "ui_reach E s ?s3" by (meson ui_refl ui_more)
  then show ?thesis by (intro exI [of _ ?s3]) simp
qed

end
