(* ===== verification/Ui_Frame.thy ===== *)
theory Ui_Frame
  imports Ui_System
begin

text \<open>
  How the main window is put together (\<open>mainframe.cpp\<close>): its panes, menus, tool bars and the table of their commands, how the
  program starts and ends, and what the class \<open>Debugger\<close> (\<open>debugger.cpp\<close>) answers the tracer, all under \<open>src/ui/src\<close>.
\<close>

section \<open>Commands\<close>

text \<open>The identifiers of \<open>childframe.h\<close>.\<close>

datatype command_id =
    MDI_QUIT | MDI_NEW_WINDOW
  | MDI_VIEW_CPU | MDI_VIEW_LOG | MDI_VIEW_REG | MDI_VIEW_BP | MDI_VIEW_MOD | MDI_VIEW_THREAD | MDI_VIEW_MEMORY | MDI_VIEW_STACK
  | MDI_DBG_STEP_INTO | MDI_DBG_STEP_OVER | MDI_DBG_RUN_TIL_RET | MDI_DBG_RUN
  | MDI_OPEN_MODULE | MDI_REFRESH | MDI_CHANGE_TITLE | MDI_CHANGE_POSITION | MDI_CHANGE_SIZE | MDI_CHILD_QUIT | MDI_ABOUT

datatype menu_handler = OnAbout | OnQuit | OnOpen | Toggle pane | Resume command

definition menu_table :: "(command_id \<times> menu_handler) list" where
  "menu_table =
     [(MDI_ABOUT, OnAbout), (MDI_QUIT, OnQuit), (MDI_OPEN_MODULE, OnOpen),
      (MDI_VIEW_CPU, Toggle CPU_Pane), (MDI_VIEW_LOG, Toggle Log_Pane), (MDI_VIEW_REG, Toggle Reg_Pane), (MDI_VIEW_BP, Toggle BP_Pane),
      (MDI_VIEW_MOD, Toggle Mod_Pane), (MDI_VIEW_THREAD, Toggle Thread_Pane), (MDI_VIEW_MEMORY, Toggle Mem_Pane),
      (MDI_VIEW_STACK, Toggle Stack_Pane),
      (MDI_DBG_RUN, Resume Run), (MDI_DBG_STEP_INTO, Resume Step_Into), (MDI_DBG_STEP_OVER, Resume Step_Over),
      (MDI_DBG_RUN_TIL_RET, Resume Til_Ret)]"

text \<open>The menus: command, label with the shortcut behind the tabulator, help. \<open>None\<close> is a separator.\<close>

abbreviation (input) TAB :: string where "TAB \<equiv> [CHR 0x09]"

definition menu_bar :: "(string \<times> (command_id \<times> string \<times> string) option list) list" where
  "menu_bar =
     [(''&File'',
         [Some (MDI_OPEN_MODULE, ''&Open...'' @ TAB @ ''F3'', ''Open module for debug''),
          Some (MDI_QUIT, ''&Exit'' @ TAB @ ''Alt-X'', ''Quit the program'')]),
      (''&View'',
         [Some (MDI_VIEW_CPU, ''&CPU'' @ TAB @ ''Alt-C'', ''Hide/Show CPU window''),
          Some (MDI_VIEW_LOG, ''&Log'' @ TAB @ ''Alt-L'', ''Hide/Show Log window''),
          Some (MDI_VIEW_REG, ''&Registers'' @ TAB @ ''Alt-R'', ''Hide/Show Registers window''),
          Some (MDI_VIEW_BP, ''&Breakpoints'' @ TAB @ ''Alt-B'', ''Hide/Show Breakpoints window''),
          Some (MDI_VIEW_MOD, ''&Executable modules'' @ TAB @ ''Alt-E'', ''Hide/Show Executable modules window''),
          Some (MDI_VIEW_THREAD, ''&Threads'' @ TAB @ ''Alt-T'', ''Hide/Show Threads window''),
          Some (MDI_VIEW_MEMORY, ''&Memory'' @ TAB @ ''Alt-M'', ''Hide/Show Memory window''),
          Some (MDI_VIEW_STACK, ''&Stack'' @ TAB @ ''Alt-S'', ''Hide/Show Stack window'')]),
      (''&Debug'',
         [Some (MDI_DBG_RUN, ''&Run'' @ TAB @ ''F9'', ''Run program''),
          None,
          Some (MDI_DBG_STEP_INTO, ''Step &into'' @ TAB @ ''F7'', ''Trace program step into''),
          Some (MDI_DBG_STEP_OVER, ''Step &over'' @ TAB @ ''F8'', ''Trace program step over''),
          Some (MDI_DBG_RUN_TIL_RET, ''Execute till return'' @ TAB @ ''Ctrl-F9'', ''Execute program till return'')]),
      (''&Help'',
         [Some (MDI_ABOUT, ''&About'' @ TAB @ ''F1'', [])])]"

text \<open>The two tool bars: command, label, bitmap and help.\<close>

definition tool_bars :: "(command_id \<times> string \<times> string \<times> string) list \<times> (command_id \<times> string \<times> string \<times> string) list" where
  "tool_bars =
     ([(MDI_OPEN_MODULE, ''Open'', ''OPEN'', ''Open module for debuging''),
       (MDI_DBG_RUN, ''Run'', ''RUN'', ''Run module''),
       (MDI_DBG_STEP_INTO, ''Step into'', ''STEPIN'', ''Step into''),
       (MDI_DBG_STEP_OVER, ''Step over'', ''STEPOVER'', ''Step over''),
       (MDI_DBG_RUN_TIL_RET, ''Execute till return'', ''TILLRET'', ''Execute till return'')],
      [(MDI_VIEW_LOG, ''Show Log Window'', ''LOG'', ''Show Log Window (Alt-L)''),
       (MDI_VIEW_MOD, ''Show Modules Window'', ''MODULES'', ''Show Modules Window (Alt-E)''),
       (MDI_VIEW_MEMORY, ''Show Memory Window'', ''MEMORY'', ''Show Memory Window (Alt-M)''),
       (MDI_VIEW_THREAD, ''Show Thread Window'', ''THREADS'', ''Show Thread Window (Alt-T)''),
       (MDI_VIEW_CPU, ''Show CPU Window'', ''CPU'', ''Show CPU Window (Alt-C)''),
       (MDI_VIEW_STACK, ''Show Stack Window'', ''STACK'', ''Show Stack Window (Alt-S)''),
       (MDI_VIEW_REG, ''Show Registers Window'', ''REFERS'', ''Show Registers Window (Alt-R)'')])"

text \<open>The shortcuts of the accelerator table beside those of the menus; the first entry of the table is never set.\<close>

definition accelerators :: "(string \<times> command_id) option list" where
  "accelerators = [None, Some (''Ctrl-X'', MDI_QUIT), Some (''Ctrl-A'', MDI_ABOUT)]"

section \<open>Panes\<close>

datatype dock = Left | Right | Bottom

definition main_panes :: "(pane \<times> string \<times> string \<times> dock) list" where
  "main_panes =
     [(CPU_Pane, ''1'', ''CPU'', Left), (Log_Pane, ''2'', ''Log'', Bottom), (Reg_Pane, ''3'', ''Registers'', Right),
      (BP_Pane, ''4'', ''Breakpoints'', Bottom), (Mod_Pane, ''5'', ''Modules'', Bottom), (Mem_Pane, ''6'', ''Memory'', Bottom),
      (Thread_Pane, ''7'', ''Threads'', Right), (Stack_Pane, ''8'', ''Stack'', Bottom)]"

section \<open>The program\<close>

record app =
  main_window :: window
  visible :: bool
  app_messages :: "string list"
  closing :: bool

text \<open>\<open>OnInit\<close>, with the end of the constructor of the window; \<open>init\<close> is what \<open>trc_init\<close> returns.\<close>

definition OnInit :: "int \<Rightarrow> config option \<Rightarrow> window \<Rightarrow> app" where
  "OnInit init cfg w =
     (let w = LoadLayout cfg w in
      if 0 < init then \<lparr>main_window = w, visible = True, app_messages = [], closing = False\<rparr>
      else \<lparr>main_window = w, visible = False, app_messages = [''dbgapi.sys not found!''], closing = True\<rparr>)"

text \<open>The destructor of the window.\<close>

definition end_frame :: "app \<Rightarrow> config option \<Rightarrow> config option" where
  "end_frame a cfg = SaveLayout (main_window a) cfg"

text \<open>A command of a menu, a tool bar or a shortcut. \<open>path\<close> and \<open>ses\<close> are what the dialog and the tracer answer if a module is opened.\<close>

definition on_menu :: "'s ui_env \<Rightarrow> string option \<Rightarrow> u32 \<Rightarrow> command_id \<Rightarrow> (app \<times> 's ui, unit) op" where
  "on_menu E path ses c as =
     (case as of (a, s) \<Rightarrow>
        (case map_of menu_table c of
           None \<Rightarrow> Inr ((), as)
         | Some OnAbout \<Rightarrow> Inr ((), as)
         | Some OnQuit \<Rightarrow> Inr ((), (a\<lparr>closing := True\<rparr>, s))
         | Some OnOpen \<Rightarrow> (case user_act E (Open_Module path ses) s of Inl f \<Rightarrow> Inl f | Inr (_, s) \<Rightarrow> Inr ((), (a, s)))
         | Some (Toggle p) \<Rightarrow> Inr ((), (a\<lparr>main_window := toggle_pane p (main_window a)\<rparr>, s))
         | Some (Resume k) \<Rightarrow> (case user_act E (Give k) s of Inl f \<Rightarrow> Inl f | Inr (_, s) \<Rightarrow> Inr ((), (a, s)))))"

section \<open>The class Debugger\<close>

text \<open>\<open>excpt_event\<close>: what it prints and returns.\<close>

definition excpt_event :: "exception_event \<Rightarrow> string \<times> u32" where
  "excpt_event e = (''event code: '' @ hex_lower (unat (EventCode e)) @ '',EIP='' @ hex_lower (unat (FrameEip e)) @ line_end,
     TRC_EXC_NOT_HANDLE)"

text \<open>\<open>load_target\<close>; \<open>ask\<close> is \<open>trc_load_target\<close>, which returns zero when it fails.\<close>

definition console_load :: "(u32 \<Rightarrow> string \<Rightarrow> u32 \<Rightarrow> u32) \<Rightarrow> u32 \<Rightarrow> string \<Rightarrow> u32 \<Rightarrow> string \<times> u32" where
  "console_load ask ses path options =
     (let start = ''loading '' @ path @ line_end in
      if ask ses path options = 0 then (start @ ''can'' @ [CHR 0x27] @ ''t load target!!'' @ line_end, 0) else (start, 1))"

text \<open>
  \<open>dbg_event\<close>. A single step runs into a breakpoint instruction of its own: unless another debugger watches the program and lets
  it go on (\<open>watched\<close>), it ends there. \<open>teb\<close> is the block of the thread, \<open>mode\<close> the command given last.
\<close>

datatype dbg_result = Returned string u32 | Own_Breakpoint string

definition module_text :: "exception_event \<Rightarrow> string" where
  "module_text e = (case CurrentModule e of None \<Rightarrow> [] | Some n \<Rightarrow> ''mod name '' @ n @ line_end @ ''**********'')"

definition stop_text :: "u32 \<Rightarrow> u32 \<Rightarrow> string" where
  "stop_text tid teb = ''***********'' @ line_end @ ''exception in thread '' @ hex_lower (unat tid) @ '' thread teb id ''
     @ hex_lower (unat teb) @ line_end"

definition code_text :: "mnemonic list option \<Rightarrow> string" where
  "code_text ms = (case ms of None \<Rightarrow> [] | Some ms \<Rightarrow> concat (map (\<lambda>m. c_str (AsmCode m @ Comment m) @ line_end) ms))"

definition dbg_event :: "'s ui_env \<Rightarrow> bool \<Rightarrow> u32 \<Rightarrow> u32 \<Rightarrow> u32 \<Rightarrow> exception_event \<Rightarrow> 's \<Rightarrow> string \<Rightarrow> fault + dbg_result \<times> string" where
  "dbg_event E watched ses teb mode e t h =
     (case CurrentThread e of
        None \<Rightarrow> Inl Null_Deref
      | Some tid \<Rightarrow>
          (let start = stop_text tid teb;
               regs = print_regs (contexts E) (old_ctx E) ses tid t;
               code = DasmDisasmCmd (decoding E) (trc_read_memory E ses t) (old_row E) (FrameEip e) 0x30 h in
           case stop_code (EventCode e) of
             TRC_EVENT_BREAKPOINT \<Rightarrow>
               (case code of
                  Inl f \<Rightarrow> Inl f
                | Inr (ms, h) \<Rightarrow>
                    Inr (Returned (start @ module_text e @ ''breakpoint at '' @ hex_lower (unat (FrameEip e)) @ line_end @ regs) mode, h))
           | TRC_EVENT_SINGLE_STEP \<Rightarrow>
               (let text = start @ module_text e @ ''single step at address: '' @ hex_lower (unat (FrameEip e)) @ line_end in
                if \<not> watched then Inr (Own_Breakpoint text, h)
                else (case code of
                        Inl f \<Rightarrow> Inl f
                      | Inr (ms, h) \<Rightarrow> Inr (Returned (text @ regs @ code_text ms) mode, h)))
           | Other_Event \<Rightarrow> Inr (Returned start 0, h)))"

section \<open>Menus and handlers agree\<close>

definition menu_items :: "(command_id \<times> string \<times> string) list" where
  "menu_items = concat (map (\<lambda>(_, es). concat (map (\<lambda>e. case e of None \<Rightarrow> [] | Some i \<Rightarrow> [i]) es)) menu_bar)"

definition shortcut :: "string \<Rightarrow> string" where
  "shortcut label = tl (dropWhile (\<lambda>c. c \<noteq> CHR 0x09) label)"

lemma menu_ids: "map fst menu_items =
    [MDI_OPEN_MODULE, MDI_QUIT, MDI_VIEW_CPU, MDI_VIEW_LOG, MDI_VIEW_REG, MDI_VIEW_BP, MDI_VIEW_MOD, MDI_VIEW_THREAD, MDI_VIEW_MEMORY,
     MDI_VIEW_STACK, MDI_DBG_RUN, MDI_DBG_STEP_INTO, MDI_DBG_STEP_OVER, MDI_DBG_RUN_TIL_RET, MDI_ABOUT]"
  by (simp add: menu_items_def menu_bar_def)

text \<open>Every command that is handled is in exactly one menu, with a shortcut no other command has; the tool bars have no others.\<close>

lemma menus_complete:
  "distinct (map fst menu_table)" "distinct (map fst menu_items)" "set (map fst menu_items) = set (map fst menu_table)"
  "fst ` set (fst tool_bars @ snd tool_bars) \<subseteq> set (map fst menu_table)"
  by (simp_all add: menu_ids menu_table_def tool_bars_def insert_commute)

lemma shortcuts_distinct: "distinct (map (\<lambda>(c, label, help). shortcut label) menu_items @ [''Ctrl-X'', ''Ctrl-A''])"
  by (simp add: menu_items_def menu_bar_def shortcut_def)

lemma menu_resumes:
  assumes "(c, Resume k) \<in> set menu_table"
  shows "on_menu E path ses c (a, s) = Inr ((), (a, s\<lparr>frame := signal_debug (on_command k (frame s))\<rparr>))"
  using map_of_is_SomeI [OF menus_complete(1) assms] by (simp add: on_menu_def)

lemma menu_toggles:
  assumes "(c, Toggle p) \<in> set menu_table"
  shows "on_menu E path ses c (a, s) = Inr ((), (a\<lparr>main_window := toggle_pane p (main_window a)\<rparr>, s))"
  using map_of_is_SomeI [OF menus_complete(1) assms] by (simp add: on_menu_def)

text \<open>Every pane is added to the window once, and has one command that shows and hides it.\<close>

lemma panes_complete: "map fst main_panes = enum_class.enum" "distinct (map (\<lambda>(p, nm, caption, d). nm) main_panes)"
  "\<exists>!c. (c, Toggle p) \<in> set menu_table"
proof -
  have "\<forall>p. \<exists>!c. (c, Toggle p) \<in> set menu_table" unfolding all_panes by (simp add: enum_pane_def menu_table_def)
  then show "\<exists>!c. (c, Toggle p) \<in> set menu_table" ..
qed (simp_all add: main_panes_def enum_pane_def)

section \<open>Starting again\<close>

text \<open>The next window is laid out as the last one was, even if the program could not find its driver.\<close>

lemma layout_survives_restart:
  assumes "\<not> iconized w"
  shows "main_window (OnInit i' (end_frame (OnInit i (Some c) w) (Some c)) w') =
     w'\<lparr>win_pos := win_pos (LoadLayout (Some c) w), win_size := win_size (LoadLayout (Some c) w), shown := shown (LoadLayout (Some c) w)\<rparr>"
proof -
  have "\<not> iconized (LoadLayout (Some c) w)" using assms by (simp add: LoadLayout_def ShowUsableWindows_def Let_def split: option.splits)
  then show ?thesis by (auto simp: OnInit_def end_frame_def Let_def layout_round_trip)
qed

text \<open>After a first start without a configuration of the layout, too.\<close>

lemma first_layout_kept:
  assumes "\<not> iconized w" and "perspective c = None"
  shows "shown (main_window (OnInit i' (end_frame (OnInit i (Some c) w) (Some c)) w')) = shown (ShowUsableWindows w'')"
  using layout_survives_restart [OF assms(1)] assms(2) first_layout by (auto simp: LoadLayout_def Let_def)

text \<open>Only a program that another one debugs gets past the first single step.\<close>

lemma step_needs_debugger:
  assumes "stop_code (EventCode e) = TRC_EVENT_SINGLE_STEP" and "CurrentThread e = Some tid"
  shows "\<exists>text. dbg_event E False ses teb mode e t h = Inr (Own_Breakpoint text, h)"
  using assms by (simp add: dbg_event_def Let_def)

end
