(* ===== verification/Ui_Controls.thy ===== *)
theory Ui_Controls
  imports Ui_Registers Ui_Column
begin

text \<open>
  What is left of the controls under \<open>src/ui/src\<close>: the caret of the register window (\<open>regframe.cpp\<close>), and the functions of the list
  controls (\<open>listview.cpp\<close>, \<open>cpulistview.cpp\<close>) that have a body. The positions in the rich text and the masks of the list items are
  those of the widget library, and parameters.
\<close>

section \<open>The caret of the register window\<close>

text \<open>
  What the buffer answers about the position under the mouse: whether there is anything, whether the mouse is before it, and where the line
  and the paragraph at the position begin (\<open>None\<close> for a null pointer).
\<close>

record hit_test =
  hit_any :: bool
  hit_before :: bool
  hit_position :: int
  line_start :: "int option"
  para_start :: "int option"

text \<open>\<open>OnLeftClick\<close>: where the caret goes, and whether it is shown at the start of the line; the word there is selected.\<close>

definition OnLeftClick :: "hit_test \<Rightarrow> (int \<times> bool) option" where
  "OnLeftClick h =
     (if \<not> hit_any h then None
      else if hit_before h
      then Some (hit_position h - 1,
             (case (line_start h, para_start h) of
                (Some l, Some p) \<Rightarrow> l = hit_position h \<and> p \<noteq> hit_position h
              | _ \<Rightarrow> False))
      else Some (hit_position h, False))"

text \<open>\<open>OnChar\<close>: the caret stays where it is, but is shown at the start of the line, if the line is that of a register.\<close>

definition OnChar :: "string \<Rightarrow> string \<Rightarrow> int \<Rightarrow> (int \<times> bool) option" where
  "OnChar line str caret = (case clicked_register line str RegistersName of None \<Rightarrow> None | Some n \<Rightarrow> Some (caret, True))"

section \<open>Lists\<close>

definition signed_text :: "int \<Rightarrow> string" where
  "signed_text v = (if v < 0 then CHR ''-'' # decimal_text (nat (- v)) else decimal_text (nat v))"

definition OnGetItemText :: "int \<Rightarrow> int \<Rightarrow> string" where
  "OnGetItemText row col = ''Column '' @ signed_text col @ '' of item '' @ signed_text row"

definition OnGetItemColumnImage :: "int \<Rightarrow> int \<Rightarrow> int" where
  "OnGetItemColumnImage row col = (if col = 0 then 0 else if row smod 3 = 0 \<and> col = 1 then 0 else -1)"

text \<open>Whether \<open>OnGetItemAttr\<close> answers the attribute of the control, and not \<open>NULL\<close>.\<close>

definition OnGetItemAttr :: "int \<Rightarrow> bool" where
  "OnGetItemAttr row \<longleftrightarrow> row smod 2 = 0"

definition OnCacheHint :: "int \<Rightarrow> int \<Rightarrow> string" where
  "OnCacheHint lo hi = ''OnCacheHint: cache items '' @ signed_text lo @ ''..'' @ signed_text hi"

definition LogEvent :: "int \<Rightarrow> string \<Rightarrow> string \<Rightarrow> int \<Rightarrow> string" where
  "LogEvent index name txt data =
     ''Item '' @ signed_text index @ '': '' @ name @ '' (item text = '' @ txt @ '', data = '' @ signed_text data @ '')''"

text \<open>The bits of the mask of an item.\<close>

record item_masks =
  MASK_STATE :: u32
  MASK_TEXT :: u32
  MASK_IMAGE :: u32
  MASK_DATA :: u32
  SET_ITEM :: u32
  MASK_WIDTH :: u32
  MASK_FORMAT :: u32

text \<open>\<open>OnGetInfo\<close>: the message, and the text of the item afterwards. The last flag is printed under the name of the one before.\<close>

definition OnGetInfo :: "item_masks \<Rightarrow> int \<Rightarrow> int \<Rightarrow> u32 \<Rightarrow> string \<Rightarrow> string \<times> string" where
  "OnGetInfo M item col bits txt =
     (let flag = (\<lambda>b n. if bits AND b \<noteq> 0 then n else []) in
      (''OnGetInfo ('' @ signed_text item @ '', '' @ signed_text col @ '')''
         @ flag (MASK_STATE M) '' wxLIST_MASK_STATE'' @ flag (MASK_TEXT M) '' wxLIST_MASK_TEXT''
         @ flag (MASK_IMAGE M) '' wxLIST_MASK_IMAGE'' @ flag (MASK_DATA M) '' wxLIST_MASK_DATA''
         @ flag (SET_ITEM M) '' wxLIST_SET_ITEM'' @ flag (MASK_WIDTH M) '' wxLIST_MASK_WIDTH''
         @ flag (MASK_FORMAT M) '' wxLIST_MASK_WIDTH'',
       if bits AND MASK_TEXT M \<noteq> 0 then ''My callback text'' else txt))"

text \<open>\<open>OnContextMenu\<close>: where the menu is shown; \<open>to_client\<close> is \<open>ScreenToClient\<close>. From the keyboard the position is \<open>(-1, -1)\<close>.\<close>

definition OnContextMenu :: "(point \<Rightarrow> point) \<Rightarrow> point \<Rightarrow> point \<Rightarrow> point" where
  "OnContextMenu to_client sz pt =
     (if fst pt = -1 \<and> snd pt = -1 then (fst sz sdiv 2, snd sz sdiv 2) else to_client pt)"

section \<open>Facts\<close>

text \<open>A key moves the caret in the line of a register only, and not if the name of one is selected.\<close>

lemma OnChar_register:
  "OnChar line str caret = (if (\<exists>n \<in> set RegistersName. occurs_in n line) \<and> str \<notin> set RegistersName then Some (caret, True) else None)"
proof -
  have "clicked_register line str ns \<noteq> None \<longleftrightarrow> (\<exists>n \<in> set ns. occurs_in n line) \<and> str \<notin> set RegistersName" for ns
    by (induction ns) auto
  from this [of RegistersName] show ?thesis
    by (cases "clicked_register line str RegistersName") (simp_all add: OnChar_def)
qed

text \<open>The format of an item and its width cannot be told apart in the message.\<close>

lemma format_shown_as_width:
  assumes "MASK_WIDTH M = 0x20" and "MASK_FORMAT M = 0x40" and "bits AND 0x60 = 0"
    and "\<forall>b \<in> {MASK_STATE M, MASK_TEXT M, MASK_IMAGE M, MASK_DATA M, SET_ITEM M}. b AND 0x60 = 0"
  shows "OnGetInfo M item col (bits OR 0x20) txt = OnGetInfo M item col (bits OR 0x40) txt"
proof -
  have other: "(bits OR f) AND b = bits AND b" if "b AND 0x60 = 0" "f AND 0x60 = f" for b f :: u32
  proof -
    have "f AND b = f AND (b AND 0x60)" using that(2) by (metis and.assoc and.commute)
    then show ?thesis using that(1) by (simp add: bit.conj_disj_distrib2)
  qed
  have bs: "MASK_STATE M AND 0x60 = 0" "MASK_TEXT M AND 0x60 = 0" "MASK_IMAGE M AND 0x60 = 0" "MASK_DATA M AND 0x60 = 0"
    "SET_ITEM M AND 0x60 = 0" using assms(4) by simp_all
  have fs: "(0x20 :: u32) AND 0x60 = 0x20" "(0x40 :: u32) AND 0x60 = 0x40" by simp_all
  have "bits AND 0x20 = (bits AND 0x60) AND 0x20" "bits AND 0x40 = (bits AND 0x60) AND 0x40"
    unfolding and.assoc by simp_all
  then have none: "bits AND 0x20 = 0" "bits AND 0x40 = 0" using assms(3) by simp_all
  have flags: "(bits OR 0x20) AND 0x20 \<noteq> 0" "(bits OR 0x20) AND 0x40 = 0" "(bits OR 0x40) AND 0x20 = 0" "(bits OR 0x40) AND 0x40 \<noteq> 0"
    using none unfolding bit.conj_disj_distrib2 by simp_all
  show ?thesis
    unfolding OnGetInfo_def Let_def assms(1,2) other [OF bs(1) fs(1)] other [OF bs(2) fs(1)] other [OF bs(3) fs(1)] other [OF bs(4) fs(1)]
      other [OF bs(5) fs(1)] other [OF bs(1) fs(2)] other [OF bs(2) fs(2)] other [OF bs(3) fs(2)] other [OF bs(4) fs(2)] other [OF bs(5) fs(2)]
    using flags by simp
qed

end
