(* ===== verification/Spec2Isabelle.thy ===== *)
theory Spec2Isabelle
  imports Ldasm_Properties Hook_Properties Global_Lock Channel_Properties Debug_Properties Registry_Invariant Regio_Properties Init_Demo Gate_Properties
  Start_Properties Pdb_Properties Client_Properties Test_Main Dbgapi_Thunks
  Ui_Memory_Properties Ui_Register_Properties Ui_Disasm_Properties Ui_Main_Properties Ui_Frame Ui_Controls
begin

text \<open>
  A verification development of opendbg, a debugger for 32-bit Windows that works through a kernel
  driver instead of the debugging interface of the system.

  \<^bold>\<open>The program.\<close> The driver (\<open>src/kernel/sys\<close>) is loaded by the user-mode library
  (\<open>src/kernel/dbgapi/dbgapi.c\<close>), which first writes what the driver cannot find out itself, the
  offsets of kernel functions taken from a symbol file (\<open>inc/pdbparser.h\<close>), into the registry.
  \<open>DriverEntry\<close> reads them, hooks \<open>KiDispatchException\<close> and the functions that start and end
  threads and processes (\<open>code_hook.c\<close>, with the instruction length decoder \<open>ldasm.c\<close>), and takes
  over \<open>NtTerminateProcess\<close> as its system call: a call with the secret key as its status is a
  request of the debugger (\<open>syscall.c\<close>). A debugger attaches to processes, and for each of them the
  driver keeps an item with a reference count and a message channel (\<open>dbg_item.c\<close>, \<open>channel.c\<close>). A
  hooked function sends a message to the debugger and waits for its answer (\<open>debug.c\<close>). A test
  debugger (\<open>src/kernel/test/test.cpp\<close>) uses all of it. The graphical one (\<open>src/ui\<close>) talks to a tracer
  library that is not in the repository, which calls it back on a thread of its own; its windows show
  the registers, the memory and the code of the target where it stopped.

  \<^bold>\<open>Foundations.\<close> \<open>Prelude\<close>: the C integer types as words, memory as a function from addresses
  to bytes, little-endian access. \<open>Ops\<close>: faults as values of a sum type (an \<open>op\<close> returns a fault or a
  value with the new state; a loop that may also not return is \<open>None\<close> then). \<open>Kernel\<close>: the state
  that every part of the driver works on, with the log of the executive services it calls, from
  which the balance of references and locks is computed. \<open>Interfaces\<close>: the contracts between the
  components as locales, each interpreted on the model's definitions where they are provided:
  \<open>insn_decoder\<close> (by \<open>size_of_code\<close>, in \<open>Ldasm_Size\<close>), \<open>hook_installer\<close> (by \<open>set_hook\<close>, in
  \<open>Hook_Code\<close>) and \<open>item_registry\<close> (by \<open>dbg_find_item\<close> and \<open>dbg_deref_item\<close>, in \<open>Dbg_Item_Facts\<close>).

  \<^bold>\<open>The parts of the program and their theories.\<close>
  \<^item> \<open>ldasm.c\<close>: \<open>Ldasm\<close>; facts in \<open>Ldasm_Size\<close>; \<open>Ldasm_Properties\<close> shows that the decoder agrees with
    the format of the manuals on the one-byte opcodes, does not depend on the place of the code, keeps
    within its packed table, and fails to return only on memory full of prefix bytes.
  \<^item> \<open>code_hook.c\<close>, \<open>defines.h\<close>: \<open>Code_Hook\<close>; \<open>Hook_Facts\<close>, \<open>Hook_Splice\<close> (the copy loop) and
    \<open>Hook_Code\<close>; \<open>Hook_Properties\<close>: a hooked function leads to the handler, the pointer to the old
    one leads to its first instructions and back, nothing else is written, and the cases in which
    that fails. \<open>Global_Lock\<close> models the lock that stops all processors as a step
    relation and shows exclusion and progress.
  \<^item> \<open>channel.c\<close>: \<open>Channel\<close> has one step per atomic action of each function; \<open>Channel_Steps\<close> interleaves
    any number of threads; \<open>Channel_Rendezvous\<close> is the invariant; \<open>Channel_Properties\<close> shows that
    with one receiver the channel refines a rendezvous, and schedules in which it does not.
  \<^item> \<open>dbg_def.h\<close>: \<open>Dbg_Def\<close>, the messages and their layout in memory.
  \<^item> \<open>dbg_item.c\<close>: \<open>Dbg_Item\<close>; \<open>Dbg_Item_Facts\<close>: the invariant, and what the operations do to the list
    of relations; \<open>Registry_Properties\<close>: refinement of an abstract registry.
  \<^item> \<open>misc.c\<close>: \<open>Misc\<close> and the small services in \<open>Kernel\<close>.
  \<^item> \<open>debug.c\<close>: \<open>Debug\<close> (the handlers of the calls), \<open>Debug_Hooks\<close> (the hooks) and \<open>Init\<close>
    (\<open>init_debug\<close>). \<open>Handler_Logic\<close> is a logic of total correctness for operations that may fault,
    with one rule per service; \<open>Handler_Facts\<close> and \<open>Handler_Balance\<close> derive that every handler gives back
    the references it took. \<open>Debug_Properties\<close>, \<open>Attach_Properties\<close> and \<open>Terminate_Properties\<close>
    say what attaching, filters, answers to events and termination do; \<open>Debug_Demo\<close> holds the
    concrete state of their instances. \<open>Registry_Invariant\<close>: the registry stays well formed under every
    sequence of these operations.
  \<^item> \<open>regio.c\<close>: \<open>Regio\<close>; \<open>Regio_Properties\<close>: \<open>delete_key_recurse\<close> ends and removes the tree below a key.
  \<^item> \<open>syscall.c\<close>, \<open>driver.c\<close>, \<open>sdt_hook.c\<close>: \<open>Syscall\<close> and \<open>Driver\<close>; \<open>Gate_Properties\<close> (buffers are unlocked
    on every path), \<open>Init_Properties\<close> and \<open>Init_Demo\<close> (what the initialisation leaves behind).
  \<^item> \<open>dbgapi.c\<close>: \<open>Dbgapi\<close> (the calls), \<open>Dbgapi_Start\<close> (parameters in the registry, start of the driver),
    \<open>Dbgapi_Thunks\<close>; \<open>Start_Properties\<close>: what the library writes is what the driver reads.
  \<^item> \<open>pdbparser.h\<close>: \<open>Pdb\<close>, \<open>Pdb_Properties\<close>.
  \<^item> \<open>test.cpp\<close>: \<open>Test_Client\<close> and, with the initialisation of the library, \<open>Test_Main\<close>. \<open>Client_Facts\<close> connects the library to the driver: a system call is a call of the
    handler on the same memory. \<open>Client_Properties\<close>: a filter set by the debugger is the filter of the
    item in the driver, and the event loop answers every event once.
  \<^item> \<open>memctrl/column.cpp\<close>, \<open>memctrl/memctrl.cpp\<close>, \<open>memframe.cpp\<close>, \<open>stackframe.cpp\<close>: \<open>Ui_Column\<close> and \<open>Ui_Memory\<close>, with
    numbers as text, and \<open>htodw\<close> of \<open>utils.cpp\<close>, in \<open>Ui_Text\<close>. \<open>Ui_Memory_Facts\<close> shows what a click selects, \<open>Ui_Memory_Events\<close>
    what each event leaves alone; \<open>Ui_Memory_Properties\<close>: the rows that are shown after any events, how far the
    view scrolls, and the selection of a click.
  \<^item> \<open>regframe.cpp\<close>: \<open>Ui_Registers\<close>; \<open>Ui_Register_Properties\<close>: a double click edits the register of its line only.
  \<^item> \<open>disasm.cpp\<close>, \<open>cpuframe.cpp\<close>, \<open>cpulistview.cpp\<close>, \<open>bpframe.cpp\<close>: \<open>Ui_Disasm\<close>; \<open>Ui_Disasm_Properties\<close>: the lines of the
    window, and where a breakpoint set from a line ends up.
  \<^item> \<open>mainframe.cpp\<close>, \<open>debugger.cpp\<close>: \<open>Ui_Main\<close>, the thread of the tracer and that of the windows as a step
    relation; \<open>Ui_Main_Properties\<close>: what the tracer is answered, and when it is not. \<open>Ui_Windows\<close>: layout, sessions,
    and the lists of modules and threads, with the round trips of what is saved. \<open>Ui_Console\<close>: the log (\<open>logframe.cpp\<close>)
    and what the class \<open>Debugger\<close> prints.
  \<^item> \<open>events.h\<close>, \<open>events.cpp\<close> and the event tables of all windows: \<open>Ui_Events\<close> has the state of the whole graphical debugger, with
    the queue of posted events, what each handler does with it, and the steps of user, windows and tracer. The locale
    \<open>separate_windows\<close> in \<open>Ui_Refresh\<close>, interpreted on the panes, says when the order of events does not matter; from it
    follows what the windows show after a stop. \<open>Ui_System\<close> shows that the whole refines the two threads of \<open>Ui_Main\<close>, so what is
    proved of these holds with the queue, too. \<open>Ui_Frame\<close>: menus, tool bars, panes, start and end of the program; every command has
    one handler, and the layout survives a restart. \<open>Ui_Controls\<close>: what is left of \<open>regframe.cpp\<close>, \<open>listview.cpp\<close> and
    \<open>cpulistview.cpp\<close>. The panes are an instance of the class \<open>enum\<close>, so that statements about all of them are decided.

  \<^bold>\<open>Loops.\<close> Every loop that ends for every input is a structural or well-founded recursion. The loops
  over the cells of a selection count down a distance in the text, so they end whatever the
  width of the column is. The loops that need not end are \<open>partial_function (option)\<close>: \<open>skip_prefixes\<close> and the copy loop of the
  hooking engine, the loop of \<open>dbg_process_terminated\<close>, \<open>delete_key_run\<close> and the event loop
  of the test debugger; for those it is proved when they return. No definition uses fuel.

  \<^bold>\<open>Not modelled.\<close> What Windows, Win32, DIA and the tracer answer is a parameter of the
  definitions that ask; documented behaviour that a property relies on is a named hypothesis of it, with an
  instance. Handlers run to completion between the waits of the driver; interleaving is
  modelled where it is the point: in the channel, the processor lock, and between the windows and the tracer. \<open>ntdll.h\<close>, \<open>pedef.h\<close>,
  \<open>extdef.h\<close>, \<open>stdint.h\<close> and \<open>inttypes.h\<close> are declarations of the system without code, \<open>ngtracerapi.h\<close> and
  \<open>cadt.h\<close> those of libraries outside of the repository. The console output of the test debugger is left out, and of the graphical
  debugger the bitmaps, colours, cursors and sizes of its windows, the handlers of \<open>listview.cpp\<close> and \<open>cpulistview.cpp\<close> that are
  empty, and \<open>childframe.cpp\<close>, whose handlers no menu leads to and whose functions are commented out. How the widget library
  queues events and finds their handlers is modelled as it is documented. The pointers in the event
  of a stop or of an exception are taken to stay valid; the tracer waits until the windows have answered. Those of a
  process event are read when the event is handled (\<open>process_event_read_late\<close> in \<open>Ui_System\<close>).
\<close>

end
